(* ===== verification/Prelude.thy ===== *)
theory Prelude
  imports Main "HOL-Library.Word"
begin

text \<open>
  Shared vocabulary of the development: the C integer types as words, byte buffers as lists,
  \<open>memcpy\<close> into an array, the little-endian layout of integers in memory, results that may be
  a fault, machines whose every step keeps an invariant, and the generic lemmas on them that the
  component theories use.
\<close>

unbundle bit_operations_syntax

named_theorems mmio_defs \<open>definitions of the MMIO handlers\<close>
named_theorems len_simps \<open>lengths of the buffers the operations produce\<close>

type_synonym byte = "8 word"
type_synonym u16 = "16 word"
type_synonym u32 = "32 word"
type_synonym u64 = "64 word"

subsection \<open>Faults\<close>

text \<open>
  What the C code does outside the defined behaviour of the language or of QEMU: a division by
  zero (the process receives a signal), an access outside an allocated object, a failed
  assertion or another abort, a signed overflow; and a failed allocation. An operation that can do this returns a sum, with the fault on the left.
\<close>

datatype fault = Div_By_Zero | Out_Of_Bounds | Assertion_Failed | Signed_Overflow | Out_Of_Memory

type_synonym 'a res = "fault + 'a"

definition res_bind :: "'a res \<Rightarrow> ('a \<Rightarrow> 'b res) \<Rightarrow> 'b res" where
  "res_bind r f = (case r of Inl e \<Rightarrow> Inl e | Inr a \<Rightarrow> f a)"

lemma res_bind_simps [simp]:
  "res_bind (Inl e) f = Inl e"
  "res_bind (Inr a) f = f a"
  by (simp_all add: res_bind_def)

lemma res_bind_Inr_iff: "res_bind r f = Inr b \<longleftrightarrow> (\<exists>a. r = Inr a \<and> f a = Inr b)"
  by (cases r) simp_all

lemma res_bind_Inl_iff:
  "res_bind r f = Inl e \<longleftrightarrow> r = Inl e \<or> (\<exists>a. r = Inr a \<and> f a = Inl e)"
  by (cases r) simp_all

subsection \<open>Buffers\<close>

text \<open>\<open>memcpy(&dst[off], src, n)\<close> with \<open>n\<close> the length of \<open>src\<close>, and the bytes
  \<open>src[off .. off+n-1]\<close>.\<close>

definition memcpy :: "'a list \<Rightarrow> nat \<Rightarrow> 'a list \<Rightarrow> 'a list" where
  "memcpy dst off src = take off dst @ src @ drop (off + length src) dst"

definition subarr :: "nat \<Rightarrow> nat \<Rightarrow> 'a list \<Rightarrow> 'a list" where
  "subarr off n xs = take n (drop off xs)"

lemma length_memcpy [simp]:
  "off + length src \<le> length dst \<Longrightarrow> length (memcpy dst off src) = length dst"
  by (simp add: memcpy_def)

lemma length_subarr [simp]: "off + n \<le> length xs \<Longrightarrow> length (subarr off n xs) = n"
  by (simp add: subarr_def)

lemma subarr_memcpy_same:
  "off + length src \<le> length dst \<Longrightarrow> n = length src \<Longrightarrow> subarr off n (memcpy dst off src) = src"
  by (simp add: subarr_def memcpy_def)

lemma subarr_memcpy_before:
  "off' + n \<le> off \<Longrightarrow> off \<le> length dst \<Longrightarrow> subarr off' n (memcpy dst off src) = subarr off' n dst"
  by (auto simp: subarr_def memcpy_def drop_take min_def)

lemma subarr_memcpy_after:
  "off + length src \<le> off' \<Longrightarrow> off + length src \<le> length dst \<Longrightarrow>
   subarr off' n (memcpy dst off src) = subarr off' n dst"
  by (simp add: subarr_def memcpy_def)

lemma nth_subarr: "i < n \<Longrightarrow> off + n \<le> length xs \<Longrightarrow> subarr off n xs ! i = xs ! (off + i)"
  by (simp add: subarr_def)

lemma nth_memcpy:
  "off + length src \<le> length dst \<Longrightarrow> i < length dst \<Longrightarrow>
   memcpy dst off src ! i = (if off \<le> i \<and> i < off + length src then src ! (i - off) else dst ! i)"
  by (auto simp: memcpy_def nth_append)

lemma memcpy_twice:
  "off + length a \<le> length d \<Longrightarrow> length b = length a \<Longrightarrow>
   memcpy (memcpy d off a) off b = memcpy d off b"
  by (simp add: memcpy_def)

subsection \<open>Little-endian integers\<close>

text \<open>The bytes of an integer in the memory of a little-endian host, and back.\<close>

definition le_bytes :: "nat \<Rightarrow> 'a::len word \<Rightarrow> byte list" where
  "le_bytes n x = map (\<lambda>i. ucast (drop_bit (8 * i) x)) [0..<n]"

fun le_word :: "byte list \<Rightarrow> 'a::len word" where
  "le_word [] = 0"
| "le_word (b # bs) = ucast b OR push_bit 8 (le_word bs)"

lemma length_le_bytes [simp]: "length (le_bytes n x) = n"
  by (simp add: le_bytes_def)

lemma bit_le_word:
  "bit (le_word bs :: 'a::len word) k \<longleftrightarrow>
   k < LENGTH('a) \<and> k div 8 < length bs \<and> bit (bs ! (k div 8)) (k mod 8)"
proof (induction bs arbitrary: k)
  case (Cons b bs)
  show ?case
  proof (cases "k < 8")
    case True
    then show ?thesis by (auto simp: bit_simps)
  next
    case False
    then obtain j where k: "k = 8 + j" using le_Suc_ex not_less by blast
    have "\<not> bit b (8 + j)" using bit_imp_le_length [of b "8 + j"] by auto
    moreover have "(8 + j) div 8 = Suc (j div 8)" "(8 + j) mod 8 = j mod 8" by simp_all
    ultimately show ?thesis by (auto simp: k bit_simps Cons.IH)
  qed
qed simp

lemma le_word_le_bytes:
  fixes x :: "'a::len word"
  assumes "LENGTH('a) \<le> 8 * n"
  shows "le_word (le_bytes n x) = x"
proof (rule bit_word_eqI)
  fix k assume k: "k < LENGTH('a)"
  then have "k div 8 < n" using assms by auto
  then show "bit (le_word (le_bytes n x) :: 'a word) k = bit x k"
    using k by (simp add: bit_le_word le_bytes_def bit_simps)
qed

lemma le_bytes_le_word:
  assumes "8 * length bs \<le> LENGTH('a::len)" and "n = length bs"
  shows "le_bytes n (le_word bs :: 'a word) = bs"
proof (rule nth_equalityI)
  fix i assume "i < length (le_bytes n (le_word bs :: 'a word))"
  then have i: "i < length bs" using assms by simp
  show "le_bytes n (le_word bs :: 'a word) ! i = bs ! i"
  proof (rule bit_word_eqI)
    fix k assume "k < LENGTH(8)"
    then have k: "k < 8" by simp
    have "8 * i + k < LENGTH('a)" using assms i k by linarith
    moreover have "(8 * i + k) div 8 = i" "(8 * i + k) mod 8 = k" using k by simp_all
    ultimately show "bit (le_bytes n (le_word bs :: 'a word) ! i) k = bit (bs ! i) k"
      using i k assms by (simp add: le_bytes_def bit_simps bit_le_word)
  qed
qed (use assms in simp)

subsection \<open>Halves of a 64-bit register\<close>

text \<open>The two 32-bit writes that build a 64-bit address register.\<close>

definition set_lo :: "u64 \<Rightarrow> u64 \<Rightarrow> u64" where
  "set_lo r v = (r AND 0xFFFFFFFF00000000) OR v"

definition set_hi :: "u64 \<Rightarrow> u64 \<Rightarrow> u64" where
  "set_hi r v = (r AND 0xFFFFFFFF) OR push_bit 32 v"

definition get_lo :: "u64 \<Rightarrow> u64" where
  "get_lo r = r AND 0xFFFFFFFF"

definition get_hi :: "u64 \<Rightarrow> u64" where
  "get_hi r = drop_bit 32 r"

lemma bit_lo_mask: "bit (0xFFFFFFFF :: u64) n \<longleftrightarrow> n < 32"
proof -
  have "(0xFFFFFFFF :: u64) = mask 32" by (simp add: mask_eq_exp_minus_1)
  then have "bit (0xFFFFFFFF :: u64) n \<longleftrightarrow> bit (mask 32 :: u64) n" by (rule arg_cong)
  also have "\<dots> \<longleftrightarrow> n < 32" by (auto simp only: bit_mask_iff possible_bit_word) simp
  finally show ?thesis .
qed

lemma bit_hi_mask: "bit (0xFFFFFFFF00000000 :: u64) n \<longleftrightarrow> 32 \<le> n \<and> n < 64"
proof -
  have e: "(0xFFFFFFFF00000000 :: u64) = NOT 0xFFFFFFFF" by simp
  show ?thesis unfolding e bit_not_iff bit_lo_mask by auto
qed

lemma small_high_bits:
  fixes v :: u64
  assumes "v < 0x100000000" and "bit v n"
  shows "n < 32"
proof -
  have "v = v AND mask 32"
    using assms(1) by (simp add: less_mask_eq)
  then show ?thesis using assms(2) by (metis bit_and_iff bit_mask_iff)
qed

lemmas half_defs = get_lo_def get_hi_def set_lo_def set_hi_def bit_and_iff bit_or_iff
  bit_lo_mask bit_hi_mask bit_push_bit_iff bit_drop_bit_eq

lemma get_lo_set_lo [simp]: "v < 0x100000000 \<Longrightarrow> get_lo (set_lo r v) = v"
  by (rule bit_word_eqI) (auto simp del: bit_numeral_word_iff simp: half_defs dest: small_high_bits)

lemma get_hi_set_hi [simp]: "v < 0x100000000 \<Longrightarrow> get_hi (set_hi r v) = v"
  by (rule bit_word_eqI)
     (auto simp del: bit_numeral_word_iff simp: half_defs possible_bit_word dest: small_high_bits bit_imp_le_length)

lemma get_lo_set_hi [simp]: "get_lo (set_hi r v) = get_lo r"
  by (rule bit_word_eqI) (auto simp del: bit_numeral_word_iff simp: half_defs)

lemma get_hi_set_lo [simp]: "v < 0x100000000 \<Longrightarrow> get_hi (set_lo r v) = get_hi r"
  by (rule bit_word_eqI) (auto simp del: bit_numeral_word_iff simp: half_defs dest: small_high_bits bit_imp_le_length)

lemma set_hi_set_lo_halves: "set_hi (set_lo r (get_lo a)) (get_hi a) = a"
proof (rule bit_word_eqI)
  fix n assume "n < LENGTH(64)"
  then show "bit (set_hi (set_lo r (get_lo a)) (get_hi a)) n = bit a n"
    by (cases "32 \<le> n") (auto simp del: bit_numeral_word_iff simp: half_defs)
qed

text \<open>A 32-bit bus value survives a 32-bit register.\<close>

lemma ucast_u32_u64_small [simp]:
  fixes v :: u64
  assumes "v < 0x100000000"
  shows "ucast (ucast v :: u32) = v"
  by (rule bit_word_eqI) (use small_high_bits [OF assms] in \<open>auto simp: bit_simps\<close>)

lemma ucast_u32_less: "(ucast (v :: u32) :: u64) < 0x100000000"
proof -
  have "unat v < 0x100000000" using unsigned_less [of v] by simp
  then show ?thesis by (simp add: word_less_nat_alt unsigned_ucast_eq take_bit_nat_eq_self)
qed

subsection \<open>Invariants of a machine\<close>

locale stepper =
  fixes step :: "'s \<Rightarrow> 's \<Rightarrow> bool"
    and good :: "'s \<Rightarrow> bool"
  assumes step_good: "step s s' \<Longrightarrow> good s \<Longrightarrow> good s'"
begin

lemma run_good: "step\<^sup>*\<^sup>* s s' \<Longrightarrow> good s \<Longrightarrow> good s'"
  by (induction rule: rtranclp_induct) (auto intro: step_good)

end

end
