(* ===== verification/Pci_Core.thy ===== *)
theory Pci_Core
  imports Prelude
begin

text \<open>
  The part of the QEMU PCI core that the devices call while they are realized and unrealized, as a
  record of functions over the core's state \<open>'p\<close> of one PCI device. The locale \<open>pci_core_laws\<close>
  states the documented behaviour of these functions, and \<open>machine_core\<close> is a concrete core, in which
  a chosen call may fail, that obeys it.
\<close>

subsection \<open>The services\<close>

text \<open>The memory regions of the devices, named by the operations they are initialised with.\<close>

datatype region = Edu_Pci_Ops | Edu_Ring_Ops | Edu_Crypto_Ops | Edu_Vf_Ops | Edu_Nvme_Ops

text \<open>
  \<open>pci_register_bar C n is64 r\<close> is \<open>pci_register_bar(pdev, n, type, &region)\<close>, with \<open>is64\<close> whether
  the type has \<open>PCI_BASE_ADDRESS_MEM_TYPE_64\<close>. \<open>msix_init_exclusive_bar C nentries bar\<close> and
  \<open>pcie_sriov_pf_init C offset vfname vf_dev_id init_vfs total_vfs vf_offset vf_stride\<close> set the
  error of the realization, which is part of \<open>'p\<close>, when they fail.
\<close>

record 'p pci_core =
  memory_region_init_io :: "region \<Rightarrow> string \<Rightarrow> nat \<Rightarrow> 'p \<Rightarrow> 'p"
  pci_register_bar :: "nat \<Rightarrow> bool \<Rightarrow> region \<Rightarrow> 'p \<Rightarrow> 'p"
  msix_init_exclusive_bar :: "nat \<Rightarrow> nat \<Rightarrow> 'p \<Rightarrow> int \<times> 'p"
  msix_vector_use :: "nat \<Rightarrow> 'p \<Rightarrow> 'p"
  msix_uninit_exclusive_bar :: "'p \<Rightarrow> 'p"
  pcie_endpoint_cap_init :: "nat \<Rightarrow> 'p \<Rightarrow> int \<times> 'p"
  pcie_sriov_pf_init ::
    "nat \<Rightarrow> string \<Rightarrow> nat \<Rightarrow> nat \<Rightarrow> nat \<Rightarrow> nat \<Rightarrow> nat \<Rightarrow> 'p \<Rightarrow> bool \<times> 'p"
  pcie_sriov_pf_init_vf_bar :: "nat \<Rightarrow> bool \<Rightarrow> nat \<Rightarrow> 'p \<Rightarrow> 'p"
  pcie_sriov_pf_exit :: "'p \<Rightarrow> 'p"
  error_setg :: "string \<Rightarrow> 'p \<Rightarrow> 'p"
  error_prepend :: "string \<Rightarrow> 'p \<Rightarrow> 'p"
  g_malloc0 :: "nat \<Rightarrow> 'p \<Rightarrow> 'p"
  g_free :: "'p \<Rightarrow> 'p"

subsection \<open>What the devices rely on\<close>

text \<open>
  What a device holds of the core. \<open>Heap\<close> is the block the device allocated, \<open>Vf_Bar n\<close> the
  BAR \<open>n\<close> of its virtual functions.
\<close>

datatype holding = Msix | Vector nat | Pcie_Cap nat | Sriov nat | Vf_Bar nat | Heap nat

text \<open>
  \<open>slots\<close> lists the BAR numbers in use with the region each is routed to (\<open>None\<close> for the upper half
  of a 64-bit BAR and for the BAR of the MSI-X tables), in the order they were taken. \<open>failed\<close> says
  that an error was set. An operation changes only what its law names.
\<close>

locale pci_core_laws =
  fixes C :: "'p pci_core"
    and slots :: "'p \<Rightarrow> (nat \<times> region option) list"
    and held :: "'p \<Rightarrow> holding set"
    and region_size :: "'p \<Rightarrow> region \<Rightarrow> nat"
    and failed :: "'p \<Rightarrow> bool"
  assumes init_io:
      "region_size (memory_region_init_io C r nm n p) = (region_size p)(r := n)"
      "slots (memory_region_init_io C r nm n p) = slots p"
      "held (memory_region_init_io C r nm n p) = held p"
      "failed (memory_region_init_io C r nm n p) = failed p"
    and register_bar:
      "slots (pci_register_bar C b is64 r p) =
         slots p @ (b, Some r) # (if is64 then [(b + 1, None)] else [])"
      "held (pci_register_bar C b is64 r p) = held p"
      "region_size (pci_register_bar C b is64 r p) = region_size p"
      "failed (pci_register_bar C b is64 r p) = failed p"
    and msix_init:
      "msix_init_exclusive_bar C n b p = (ret, p') \<Longrightarrow> region_size p' = region_size p \<and>
         (if ret = 0 then slots p' = slots p @ [(b, None)] \<and> held p' = insert Msix (held p) \<and>
                        failed p' = failed p
          else slots p' = slots p \<and> held p' = held p \<and> failed p')"
    and vector_use:
      "slots (msix_vector_use C v p) = slots p"
      "held (msix_vector_use C v p) = insert (Vector v) (held p)"
      "region_size (msix_vector_use C v p) = region_size p"
      "failed (msix_vector_use C v p) = failed p"
    and msix_uninit:
      "held (msix_uninit_exclusive_bar C p) = held p - insert Msix (range Vector)"
    and cap_init:
      "pcie_endpoint_cap_init C off p = (ret, p') \<Longrightarrow> slots p' = slots p \<and>
         region_size p' = region_size p \<and> failed p' = failed p \<and>
         held p' = (if ret < 0 then held p else insert (Pcie_Cap off) (held p))"
    and sriov_init:
      "pcie_sriov_pf_init C off nm did iv tv vo vs p = (ok, p') \<Longrightarrow> slots p' = slots p \<and>
         region_size p' = region_size p \<and>
         (if ok then held p' = insert (Sriov iv) (held p) \<and> failed p' = failed p
          else held p' = held p \<and> failed p')"
    and vf_bar:
      "slots (pcie_sriov_pf_init_vf_bar C b is64 n p) = slots p"
      "held (pcie_sriov_pf_init_vf_bar C b is64 n p) = insert (Vf_Bar b) (held p)"
      "region_size (pcie_sriov_pf_init_vf_bar C b is64 n p) = region_size p"
      "failed (pcie_sriov_pf_init_vf_bar C b is64 n p) = failed p"
    and sriov_exit:
      "held (pcie_sriov_pf_exit C p) = held p - (range Sriov \<union> range Vf_Bar)"
    and errors:
      "slots (error_setg C m p) = slots p" "held (error_setg C m p) = held p"
      "region_size (error_setg C m p) = region_size p" "failed (error_setg C m p)"
      "slots (error_prepend C m p) = slots p" "held (error_prepend C m p) = held p"
      "region_size (error_prepend C m p) = region_size p"
      "failed (error_prepend C m p) = failed p"
    and heap:
      "slots (g_malloc0 C n p) = slots p" "held (g_malloc0 C n p) = insert (Heap n) (held p)"
      "region_size (g_malloc0 C n p) = region_size p" "failed (g_malloc0 C n p) = failed p"
      "held (g_free C p) = held p - range Heap"

subsection \<open>A concrete core\<close>

text \<open>The calls that will fail: 0 is MSI-X, 1 the PCIe capability, 2 SR-IOV.\<close>

record core =
  core_slots :: "(nat \<times> region option) list"
  core_held :: "holding list"
  core_size :: "region \<Rightarrow> nat"
  core_error :: "string option"
  core_fails :: "nat \<Rightarrow> bool"

definition core_hold :: "holding \<Rightarrow> core \<Rightarrow> core" where
  "core_hold x p = p\<lparr>core_held := x # core_held p\<rparr>"

fun is_msix :: "holding \<Rightarrow> bool" where
  "is_msix Msix = True"
| "is_msix (Vector v) = True"
| "is_msix x = False"

fun is_sriov :: "holding \<Rightarrow> bool" where
  "is_sriov (Sriov n) = True"
| "is_sriov (Vf_Bar b) = True"
| "is_sriov x = False"

fun is_heap :: "holding \<Rightarrow> bool" where
  "is_heap (Heap n) = True"
| "is_heap x = False"

lemma holding_sets:
  "{x. is_msix x} = insert Msix (range Vector)"
  "{x. is_sriov x} = range Sriov \<union> range Vf_Bar"
  "{x. is_heap x} = range Heap"
  by (auto elim: is_msix.elims is_sriov.elims is_heap.elims)

definition core_drop :: "(holding \<Rightarrow> bool) \<Rightarrow> core \<Rightarrow> core" where
  "core_drop P p = p\<lparr>core_held := filter (\<lambda>x. \<not> P x) (core_held p)\<rparr>"

definition machine_core :: "core pci_core" where
  "machine_core = \<lparr>
     memory_region_init_io = (\<lambda>r nm n p. p\<lparr>core_size := (core_size p)(r := n)\<rparr>),
     pci_register_bar = (\<lambda>b is64 r p. p\<lparr>core_slots :=
       core_slots p @ (b, Some r) # (if is64 then [(b + 1, None)] else [])\<rparr>),
     msix_init_exclusive_bar = (\<lambda>n b p. if core_fails p 0
       then (-22, p\<lparr>core_error := Some ''msix''\<rparr>)
       else (0, core_hold Msix (p\<lparr>core_slots := core_slots p @ [(b, None)]\<rparr>))),
     msix_vector_use = (\<lambda>v. core_hold (Vector v)),
     msix_uninit_exclusive_bar = core_drop is_msix,
     pcie_endpoint_cap_init = (\<lambda>off p. if core_fails p 1 then (-22, p)
       else (int off, core_hold (Pcie_Cap off) p)),
     pcie_sriov_pf_init = (\<lambda>off nm did iv tv vo vs p. if core_fails p 2
       then (False, p\<lparr>core_error := Some ''sriov''\<rparr>) else (True, core_hold (Sriov iv) p)),
     pcie_sriov_pf_init_vf_bar = (\<lambda>b is64 n. core_hold (Vf_Bar b)),
     pcie_sriov_pf_exit = core_drop is_sriov,
     error_setg = (\<lambda>m p. p\<lparr>core_error := Some m\<rparr>),
     error_prepend = (\<lambda>m p. p\<lparr>core_error := map_option (\<lambda>e. m @ e) (core_error p)\<rparr>),
     g_malloc0 = (\<lambda>n. core_hold (Heap n)),
     g_free = core_drop is_heap\<rparr>"

abbreviation core_holds :: "core \<Rightarrow> holding set" where
  "core_holds p \<equiv> set (core_held p)"

abbreviation core_failed :: "core \<Rightarrow> bool" where
  "core_failed p \<equiv> core_error p \<noteq> None"

lemma core_drop_held: "core_holds (core_drop P p) = core_holds p - {x. P x}"
  by (auto simp: core_drop_def)

interpretation machine: pci_core_laws machine_core core_slots core_holds core_size core_failed
  by unfold_locales
     (auto simp: machine_core_def core_hold_def core_drop_held holding_sets split: if_splits)

definition empty_core :: "nat list \<Rightarrow> core" where
  "empty_core F = \<lparr>core_slots = [], core_held = [], core_size = (\<lambda>_. 0), core_error = None,
     core_fails = (\<lambda>n. n \<in> set F)\<rparr>"

end
