(* ===== verification/Qemu_Env.thy ===== *)
theory Qemu_Env
  imports Prelude
begin

text \<open>
  The QEMU services the devices call, as a record of functions over an environment state \<open>'w\<close>
  (guest memory, IOMMU, interrupt controllers, the contents of uninitialised stack memory):
  they are parameters of every device model. The locale \<open>dma_bus\<close> states the documented
  behaviour of these services that the device theorems rely on, and \<open>guest_qemu\<close> is a concrete
  environment (flat guest RAM behind a list of IOMMU windows, a log of MSI-X messages) that
  obeys it.
\<close>

subsection \<open>The services\<close>

abbreviation (input) MEMTX_OK :: u32 where "MEMTX_OK \<equiv> 0"

text \<open>
  \<open>pci_dma_read a buf w\<close> is \<open>pci_dma_read(dev, a, buf, len)\<close> with \<open>buf\<close> the contents of the
  destination buffer before the call and \<open>len\<close> its length; it returns the result code, the
  buffer after the call and the environment. \<open>uninit n w\<close> is the contents of an uninitialised
  local array of \<open>n\<close> bytes.
\<close>

record 'w qemu =
  pci_dma_read :: "u64 \<Rightarrow> byte list \<Rightarrow> 'w \<Rightarrow> u32 \<times> byte list \<times> 'w"
  pci_dma_write :: "u64 \<Rightarrow> byte list \<Rightarrow> 'w \<Rightarrow> u32 \<times> 'w"
  msix_enabled :: "'w \<Rightarrow> bool"
  msix_notify :: "u32 \<Rightarrow> 'w \<Rightarrow> 'w"
  pci_irq_assert :: "'w \<Rightarrow> 'w"
  pci_irq_deassert :: "'w \<Rightarrow> 'w"
  pcie_sriov_vf_number :: "'w \<Rightarrow> u16"
  uninit :: "nat \<Rightarrow> 'w \<Rightarrow> byte list"

subsection \<open>Byte-addressed memory\<close>

definition ram_bytes :: "(u64 \<Rightarrow> byte) \<Rightarrow> u64 \<Rightarrow> nat \<Rightarrow> byte list" where
  "ram_bytes m a n = map (\<lambda>i. m (a + of_nat i)) [0..<n]"

definition ram_store :: "(u64 \<Rightarrow> byte) \<Rightarrow> u64 \<Rightarrow> byte list \<Rightarrow> u64 \<Rightarrow> byte" where
  "ram_store m a d x = (if unat (x - a) < length d then d ! unat (x - a) else m x)"

definition disjoint_ranges :: "u64 \<Rightarrow> nat \<Rightarrow> u64 \<Rightarrow> nat \<Rightarrow> bool" where
  "disjoint_ranges a n b m \<longleftrightarrow> n \<le> unat (b - a) \<and> m \<le> unat (a - b)"

lemma length_ram_bytes [simp, len_simps]: "length (ram_bytes m a n) = n"
  by (simp add: ram_bytes_def)

lemma nth_ram_bytes: "i < n \<Longrightarrow> ram_bytes m a n ! i = m (a + of_nat i)"
  by (simp add: ram_bytes_def)

lemma unat_u64_less: "unat (x :: u64) < 18446744073709551616"
  using unsigned_less [of x] by simp

lemma unat_diff_swap:
  fixes a b :: u64
  assumes "a \<noteq> b"
  shows "unat (b - a) + unat (a - b) = 18446744073709551616"
proof -
  have "(unat (b - a) + unat (a - b)) mod 18446744073709551616 = unat ((b - a) + (a - b))"
    using unat_word_ariths(1) [of "b - a" "a - b"] by (simp only:) simp
  also have "(b - a) + (a - b) = 0" by simp
  finally have "(unat (b - a) + unat (a - b)) mod 18446744073709551616 = 0" by simp
  moreover have "0 < unat (a - b)" using assms by (simp add: unat_gt_0)
  ultimately show ?thesis
    using unat_u64_less [of "a - b"] unat_u64_less [of "b - a"]
    by (simp add: mod_if split: if_splits)
qed

lemma disjoint_ranges_offset:
  assumes "disjoint_ranges a n b m" and "i < n"
  shows "m \<le> unat (a + of_nat i - b)"
proof -
  have i64: "i < 18446744073709551616"
    using assms unat_u64_less [of "b - a"] by (simp add: disjoint_ranges_def)
  have "a \<noteq> b" using assms by (auto simp: disjoint_ranges_def)
  then have "unat (a - b) + i < 18446744073709551616"
    using assms unat_diff_swap [of a b] by (simp add: disjoint_ranges_def)
  then have "unat (a - b + of_nat i) = unat (a - b) + i"
    using i64 by (simp add: unat_word_ariths unat_of_nat)
  then show ?thesis
    using assms by (simp add: disjoint_ranges_def algebra_simps)
qed

lemma disjoint_ranges_sym: "disjoint_ranges a n b m \<Longrightarrow> disjoint_ranges b m a n"
  by (simp add: disjoint_ranges_def)

lemma ram_bytes_store_same:
  assumes "length d \<le> 18446744073709551616"
  shows "ram_bytes (ram_store m a d) a (length d) = d"
  using assms by (intro nth_equalityI) (simp_all add: nth_ram_bytes ram_store_def unat_of_nat)

lemma ram_bytes_store_disjoint:
  assumes "disjoint_ranges b n a (length d)"
  shows "ram_bytes (ram_store m a d) b n = ram_bytes m b n"
proof (rule nth_equalityI)
  fix i assume "i < length (ram_bytes (ram_store m a d) b n)"
  then have "i < n" by simp
  then show "ram_bytes (ram_store m a d) b n ! i = ram_bytes m b n ! i"
    using disjoint_ranges_offset [OF assms \<open>i < n\<close>] by (simp add: nth_ram_bytes ram_store_def)
qed simp

lemma ram_store_nil [simp]: "ram_store m a [] = m"
  by (rule ext) (simp add: ram_store_def)

subsection \<open>What the devices rely on\<close>

text \<open>
  The documented behaviour of DMA: \<open>ram\<close> is the guest memory the device sees at an I/O virtual
  address, \<open>readable\<close> and \<open>writable\<close> say which ranges the IOMMU maps. A read of a mapped range
  returns \<open>MEMTX_OK\<close> and the memory; a read of a range that is not mapped returns another code
  and some buffer contents. A write of a mapped range stores the data. Interrupts and DMA
  leave the mappings and the MSI-X enable bit alone, and interrupts leave RAM alone.
\<close>

locale dma_bus =
  fixes q :: "'w qemu"
    and ram :: "'w \<Rightarrow> u64 \<Rightarrow> byte"
    and readable :: "'w \<Rightarrow> u64 \<Rightarrow> nat \<Rightarrow> bool"
    and writable :: "'w \<Rightarrow> u64 \<Rightarrow> nat \<Rightarrow> bool"
  assumes read_mapped:
      "readable w a (length buf) \<Longrightarrow>
       pci_dma_read q a buf w = (MEMTX_OK, ram_bytes (ram w) a (length buf), w)"
    and read_unmapped:
      "\<not> readable w a (length buf) \<Longrightarrow>
       \<exists>r buf'. pci_dma_read q a buf w = (r, buf', w) \<and> r \<noteq> MEMTX_OK \<and> length buf' = length buf"
    and write_mapped:
      "writable w a (length d) \<Longrightarrow>
       \<exists>w'. pci_dma_write q a d w = (MEMTX_OK, w') \<and> ram w' = ram_store (ram w) a d"
    and write_unmapped:
      "\<not> writable w a (length d) \<Longrightarrow> fst (pci_dma_write q a d w) \<noteq> MEMTX_OK"
    and write_maps:
      "readable (snd (pci_dma_write q a d w)) = readable w"
      "writable (snd (pci_dma_write q a d w)) = writable w"
      "msix_enabled q (snd (pci_dma_write q a d w)) = msix_enabled q w"
    and notify_frame:
      "ram (msix_notify q v w) = ram w"
      "readable (msix_notify q v w) = readable w"
      "writable (msix_notify q v w) = writable w"
      "msix_enabled q (msix_notify q v w) = msix_enabled q w"
    and uninit_length: "length (uninit q n w) = n"
begin

lemma read_length:
  "length (fst (snd (pci_dma_read q a buf w))) = length buf"
  using read_mapped [of w a buf] read_unmapped [of w a buf]
  by (cases "readable w a (length buf)") auto

lemma read_env: "snd (snd (pci_dma_read q a buf w)) = w"
  using read_mapped [of w a buf] read_unmapped [of w a buf]
  by (cases "readable w a (length buf)") auto

lemma read_code: "fst (pci_dma_read q a buf w) = MEMTX_OK \<longleftrightarrow> readable w a (length buf)"
  using read_mapped [of w a buf] read_unmapped [of w a buf]
  by (cases "readable w a (length buf)") auto

lemma write_code: "fst (pci_dma_write q a d w) = MEMTX_OK \<longleftrightarrow> writable w a (length d)"
  using write_mapped [of w a d] write_unmapped [of w a d]
  by (cases "writable w a (length d)") auto

lemma write_ram:
  "writable w a (length d) \<Longrightarrow> ram (snd (pci_dma_write q a d w)) = ram_store (ram w) a d"
  using write_mapped [of w a d] by auto

lemma read_failed:
  assumes "\<not> readable w a (length buf)"
  obtains r b where "pci_dma_read q a buf w = (r, b, w)" "r \<noteq> MEMTX_OK" "length b = length buf"
  using read_unmapped [OF assms] by blast

lemma read_then_write_copies:
  assumes "readable w a n" and "writable w b n" and "length buf = n"
  shows "ram (snd (pci_dma_write q b (fst (snd (pci_dma_read q a buf w))) w)) =
         ram_store (ram w) b (ram_bytes (ram w) a n)"
  using assms by (simp add: read_mapped write_ram)

end

subsection \<open>Observing the writes of a device\<close>

text \<open>
  \<open>log\<close> is the list of the DMA writes made so far, with the address and the bytes of each: a write is
  added to it whether or not the IOMMU lets it through, and no other service changes it.
\<close>

locale write_log =
  fixes q :: "'w qemu"
    and log :: "'w \<Rightarrow> (u64 \<times> byte list) list"
  assumes log_write: "log (snd (pci_dma_write q a d w)) = log w @ [(a, d)]"
    and log_read: "log (snd (snd (pci_dma_read q a buf w))) = log w"
    and log_notify: "log (msix_notify q v w) = log w"

text \<open>Every environment can be observed in this way.\<close>

definition traced :: "'w qemu \<Rightarrow> ('w \<times> (u64 \<times> byte list) list) qemu" where
  "traced q = \<lparr>
     pci_dma_read = (\<lambda>a buf (w, l). let (r, b, w) = pci_dma_read q a buf w in (r, b, w, l)),
     pci_dma_write = (\<lambda>a d (w, l). let (r, w) = pci_dma_write q a d w in (r, w, l @ [(a, d)])),
     msix_enabled = (\<lambda>(w, l). msix_enabled q w),
     msix_notify = (\<lambda>v (w, l). (msix_notify q v w, l)),
     pci_irq_assert = (\<lambda>(w, l). (pci_irq_assert q w, l)),
     pci_irq_deassert = (\<lambda>(w, l). (pci_irq_deassert q w, l)),
     pcie_sriov_vf_number = (\<lambda>(w, l). pcie_sriov_vf_number q w),
     uninit = (\<lambda>n (w, l). uninit q n w)\<rparr>"

interpretation traced: write_log "traced q" snd for q :: "'w qemu"
  by unfold_locales (simp_all add: traced_def case_prod_beta)

subsection \<open>A concrete environment\<close>

text \<open>
  Guest RAM, the IOMMU windows mapped for the device (start and size, as the VFIO tests map
  them), the MSI-X enable bit, the MSI-X vectors sent so far and the state of the INTx line.
\<close>

record guest =
  mem :: "u64 \<Rightarrow> byte"
  windows :: "(u64 \<times> nat) list"
  msix_on :: bool
  vectors :: "u32 list"
  intx :: bool

definition mapped :: "guest \<Rightarrow> u64 \<Rightarrow> nat \<Rightarrow> bool" where
  "mapped g a n = list_ex (\<lambda>(b, m). unat (a - b) + n \<le> m) (windows g)"

definition guest_qemu :: "guest qemu" where
  "guest_qemu = \<lparr>
     pci_dma_read = (\<lambda>a buf g. if mapped g a (length buf)
       then (MEMTX_OK, ram_bytes (mem g) a (length buf), g) else (2, replicate (length buf) 0, g)),
     pci_dma_write = (\<lambda>a d g. if mapped g a (length d)
       then (MEMTX_OK, g\<lparr>mem := ram_store (mem g) a d\<rparr>) else (2, g)),
     msix_enabled = msix_on,
     msix_notify = (\<lambda>v g. g\<lparr>vectors := vectors g @ [v]\<rparr>),
     pci_irq_assert = (\<lambda>g. g\<lparr>intx := True\<rparr>),
     pci_irq_deassert = (\<lambda>g. g\<lparr>intx := False\<rparr>),
     pcie_sriov_vf_number = (\<lambda>g. 0),
     uninit = (\<lambda>n g. replicate n 0xCC)\<rparr>"

lemma guest_qemu_simps [simp]:
  "pci_dma_read guest_qemu a buf g = (if mapped g a (length buf)
     then (MEMTX_OK, ram_bytes (mem g) a (length buf), g) else (2, replicate (length buf) 0, g))"
  "pci_dma_write guest_qemu a d g = (if mapped g a (length d)
     then (MEMTX_OK, g\<lparr>mem := ram_store (mem g) a d\<rparr>) else (2, g))"
  "msix_enabled guest_qemu = msix_on"
  "msix_notify guest_qemu v g = g\<lparr>vectors := vectors g @ [v]\<rparr>"
  "pci_irq_assert guest_qemu g = g\<lparr>intx := True\<rparr>"
  "pci_irq_deassert guest_qemu g = g\<lparr>intx := False\<rparr>"
  "pcie_sriov_vf_number guest_qemu g = 0"
  "uninit guest_qemu n g = replicate n 0xCC"
  by (simp_all add: guest_qemu_def)

lemma mapped_update [simp]:
  "mapped (g\<lparr>mem := m\<rparr>) = mapped g"
  "mapped (g\<lparr>vectors := vs\<rparr>) = mapped g"
  by (simp_all add: mapped_def fun_eq_iff)

interpretation guest_bus: dma_bus guest_qemu mem mapped mapped
  by unfold_locales auto

text \<open>A guest with 12 KiB of zeroed memory mapped at address 0 and MSI-X enabled.\<close>

definition small_guest :: guest where
  "small_guest = \<lparr>mem = (\<lambda>_. 0), windows = [(0, 12288)], msix_on = True, vectors = [], intx = False\<rparr>"

lemma small_guest_mapped: "mapped small_guest a n \<longleftrightarrow> unat a + n \<le> 12288"
  by (simp add: mapped_def small_guest_def)

end
