(* ===== verification/Mmio.thy ===== *)
theory Mmio
  imports Qemu_Env
begin

text \<open>
  What the register blocks share: values on the bus, sequences of register writes and the contract
  of plain read/write registers (\<open>regfile\<close>), which the devices interpret on their own handlers.
\<close>

subsection \<open>Values on the bus\<close>

text \<open>What the bus returns for an access of \<open>k\<close> bytes: the low \<open>k\<close> bytes of the handler's value.\<close>

definition bus_value :: "nat \<Rightarrow> u64 \<Rightarrow> u64" where
  "bus_value k v = take_bit (8 * k) v"

lemma bus_value_le_word: "length d = k \<Longrightarrow> bus_value k (le_word (d @ x)) = le_word d"
  by (rule bit_word_eqI) (auto simp: bus_value_def bit_take_bit_iff bit_le_word nth_append)

lemma bus_value_small: "v < 0x100000000 \<Longrightarrow> bus_value 4 v = v"
  by (rule bit_word_eqI) (auto simp: bus_value_def bit_take_bit_iff dest: small_high_bits)

lemma bus_value_halves [simp]:
  "bus_value 4 (get_lo r) = get_lo r" "bus_value 4 (get_hi r) = get_hi r"
  by (rule bit_word_eqI, auto simp del: bit_numeral_word_iff
        simp: bus_value_def bit_take_bit_iff half_defs dest: bit_imp_le_length)+

lemma bus_value_u32 [simp]: "bus_value 4 (ucast (v :: u32)) = ucast v"
  by (rule bus_value_small) (rule ucast_u32_less)

lemma bus_value_get_lo: "bus_value 4 v = get_lo v"
  by (rule bit_word_eqI)
     (auto simp del: bit_numeral_word_iff simp: bus_value_def bit_take_bit_iff half_defs)

subsection \<open>Register files\<close>

text \<open>A driver programs a device by a sequence of 32-bit register writes.\<close>

fun mmio_writes :: "(u64 \<Rightarrow> u64 \<Rightarrow> 's \<Rightarrow> 's res) \<Rightarrow> (u64 \<times> u64) list \<Rightarrow> 's \<Rightarrow> 's res" where
  "mmio_writes wr [] s = Inr s"
| "mmio_writes wr ((a, v) # ws) s = res_bind (wr a v s) (mmio_writes wr ws)"

lemma mmio_writes_append:
  "mmio_writes wr (xs @ ys) s = res_bind (mmio_writes wr xs s) (mmio_writes wr ys)"
proof (induction xs arbitrary: s)
  case (Cons x xs)
  then show ?case by (cases x; cases "wr (fst x) (snd x) s") simp_all
qed simp

text \<open>
  \<open>regs\<close> are registers without side effects: in a well-formed state (\<open>ok\<close>) a 32-bit write to one
  succeeds, is read back, leaves what every other register reads unchanged, and keeps the state
  well-formed.
\<close>

locale regfile =
  fixes rd :: "u64 \<Rightarrow> 's \<Rightarrow> u64"
    and wr :: "u64 \<Rightarrow> u64 \<Rightarrow> 's \<Rightarrow> 's res"
    and regs :: "u64 set"
    and ok :: "'s \<Rightarrow> bool"
  assumes wr_reg:
    "a \<in> regs \<Longrightarrow> v < 0x100000000 \<Longrightarrow> ok s \<Longrightarrow>
     \<exists>s'. wr a v s = Inr s' \<and> ok s' \<and> rd a s' = v \<and> (\<forall>b \<in> regs. b \<noteq> a \<longrightarrow> rd b s' = rd b s)"
begin

lemma program_registers:
  assumes "distinct (map fst ws)" and "fst ` set ws \<subseteq> regs"
    and "\<forall>v \<in> snd ` set ws. v < 0x100000000" and "ok s"
  shows "\<exists>s'. mmio_writes wr ws s = Inr s' \<and> ok s' \<and> (\<forall>(a, v) \<in> set ws. rd a s' = v) \<and>
              (\<forall>b \<in> regs. b \<notin> fst ` set ws \<longrightarrow> rd b s' = rd b s)"
  using assms
proof (induction ws arbitrary: s)
  case (Cons w ws)
  obtain a v where w: "w = (a, v)" by (cases w)
  from Cons.prems w obtain s1 where s1: "wr a v s = Inr s1" "ok s1" "rd a s1 = v"
    "\<forall>b \<in> regs. b \<noteq> a \<longrightarrow> rd b s1 = rd b s"
    using wr_reg [of a v s] by auto
  from Cons.IH [of s1] Cons.prems s1 obtain s' where s': "mmio_writes wr ws s1 = Inr s'" "ok s'"
    "\<forall>(a, v) \<in> set ws. rd a s' = v" "\<forall>b \<in> regs. b \<notin> fst ` set ws \<longrightarrow> rd b s' = rd b s1"
    by auto
  moreover have "a \<in> regs" "a \<notin> fst ` set ws" using Cons.prems w by auto
  ultimately show ?case using s1 w by auto
qed simp

end

end
