(* ===== verification/Edu_Pf.thy ===== *)
theory Edu_Pf
  imports Mmio
begin

text \<open>
  The physical function of \<open>edu_pci.c\<close>: its state, the factorial register, and the BAR0 handlers
  (scratch, factorial, single-shot DMA, interrupt raise and acknowledge, peer-to-peer write,
  ATS request). BAR4 and BAR5 share this state and are modelled in \<open>Edu_Ring\<close> and
  \<open>Edu_Crypto\<close>.
\<close>

subsection \<open>Registers and constants\<close>

abbreviation (input) REG_ID :: u64 where "REG_ID \<equiv> 0x00"
abbreviation (input) REG_SCRATCH :: u64 where "REG_SCRATCH \<equiv> 0x04"
abbreviation (input) REG_FACTORIAL :: u64 where "REG_FACTORIAL \<equiv> 0x08"
abbreviation (input) REG_STATUS :: u64 where "REG_STATUS \<equiv> 0x0C"
abbreviation (input) REG_DMA_SRC :: u64 where "REG_DMA_SRC \<equiv> 0x10"
abbreviation (input) REG_DMA_DST :: u64 where "REG_DMA_DST \<equiv> 0x14"
abbreviation (input) REG_DMA_LEN :: u64 where "REG_DMA_LEN \<equiv> 0x18"
abbreviation (input) REG_DMA_CMD :: u64 where "REG_DMA_CMD \<equiv> 0x1C"
abbreviation (input) REG_VF_ID :: u64 where "REG_VF_ID \<equiv> 0x20"
abbreviation (input) REG_IRQ_RAISE :: u64 where "REG_IRQ_RAISE \<equiv> 0x24"
abbreviation (input) REG_IRQ_ACK :: u64 where "REG_IRQ_ACK \<equiv> 0x28"
abbreviation (input) REG_P2P_ADDR :: u64 where "REG_P2P_ADDR \<equiv> 0x2C"
abbreviation (input) REG_P2P_DATA :: u64 where "REG_P2P_DATA \<equiv> 0x30"
abbreviation (input) REG_P2P_CMD :: u64 where "REG_P2P_CMD \<equiv> 0x34"
abbreviation (input) REG_ATS_ADDR :: u64 where "REG_ATS_ADDR \<equiv> 0x38"
abbreviation (input) REG_ATS_CMD :: u64 where "REG_ATS_CMD \<equiv> 0x3C"

abbreviation (input) DMA_MAX_LEN :: u32 where "DMA_MAX_LEN \<equiv> 4096"
abbreviation (input) EDU_MSIX_VECTORS :: u64 where "EDU_MSIX_VECTORS \<equiv> 4"

subsection \<open>State\<close>

text \<open>The fields of \<open>EduPciState\<close> after the QEMU objects it embeds.\<close>

record EduPciState =
  scratch :: u32
  factorial_out :: u32
  dma_src :: u64
  dma_dst :: u64
  dma_len :: u32
  dma_busy :: u32
  p2p_addr :: u64
  p2p_data :: u32
  ats_addr :: u64
  ring_addr :: u64
  ring_size :: u32
  ring_head :: u32
  ring_tail :: u32
  ring_enabled :: u32
  crypto_src :: u64
  crypto_dst :: u64
  crypto_len :: u32
  crypto_busy :: u32
  crypto_key :: "byte list"
  crypto_iv :: "byte list"
  round_keys :: "byte list"

text \<open>QEMU allocates the instance zeroed.\<close>

definition edu_pci_init :: EduPciState where
  "edu_pci_init = \<lparr>scratch = 0, factorial_out = 0, dma_src = 0, dma_dst = 0, dma_len = 0,
     dma_busy = 0, p2p_addr = 0, p2p_data = 0, ats_addr = 0, ring_addr = 0, ring_size = 0,
     ring_head = 0, ring_tail = 0, ring_enabled = 0, crypto_src = 0, crypto_dst = 0,
     crypto_len = 0, crypto_busy = 0, crypto_key = replicate 16 0, crypto_iv = replicate 16 0,
     round_keys = replicate 176 0\<rparr>"

subsection \<open>Factorial\<close>

text \<open>The loop of \<open>factorial\<close> from \<open>i\<close>, with the running product.\<close>

function factorial_loop :: "u32 \<Rightarrow> u32 \<Rightarrow> u32 \<Rightarrow> u32" where
  "factorial_loop n i result =
     (if i \<le> n \<and> i < 13 then factorial_loop n (i + 1) (result * i) else result)"
  by pat_completeness auto
termination
  by (relation "measure (\<lambda>(n, i, r). 13 - unat i)")
     (auto simp: word_less_nat_alt unat_word_ariths)

declare factorial_loop.simps [simp del]

definition factorial :: "u32 \<Rightarrow> u32" where
  "factorial n = factorial_loop n 2 1"

subsection \<open>BAR0 read\<close>

definition edu_pci_read :: "u64 \<Rightarrow> nat \<Rightarrow> EduPciState \<Rightarrow> u64" where
  "edu_pci_read addr sz s =
     (if addr = REG_ID then 0x0ED00001
      else if addr = REG_SCRATCH then ucast (scratch s)
      else if addr = REG_FACTORIAL then ucast (factorial_out s)
      else if addr = REG_STATUS then ucast (1 OR push_bit 1 (dma_busy s))
      else if addr = REG_DMA_SRC then dma_src s
      else if addr = REG_DMA_DST then dma_dst s
      else if addr = REG_DMA_LEN then ucast (dma_len s)
      else if addr = REG_DMA_CMD then ucast (dma_busy s)
      else if addr = REG_VF_ID then 0
      else if addr = REG_P2P_ADDR then p2p_addr s
      else if addr = REG_P2P_DATA then ucast (p2p_data s)
      else if addr = REG_ATS_ADDR then ats_addr s
      else 0xFFFFFFFF)"

subsection \<open>BAR0 write\<close>

text \<open>
  The DMA command: one bounded copy through a local buffer of \<open>DMA_MAX_LEN\<close> bytes that starts
  uninitialised. The result code of the read is only printed, so the write happens either way.
\<close>

definition edu_pci_dma :: "'w qemu \<Rightarrow> EduPciState \<times> 'w \<Rightarrow> EduPciState \<times> 'w" where
  "edu_pci_dma q sw =
     (let (s, w) = sw;
          buf = uninit q 4096 w;
          len = unat (if dma_len s > DMA_MAX_LEN then DMA_MAX_LEN else dma_len s);
          s = s\<lparr>dma_busy := 1\<rparr>;
          (res, rbuf, w) = pci_dma_read q (dma_src s) (take len buf) w;
          buf = memcpy buf 0 rbuf;
          (_, w) = pci_dma_write q (dma_dst s) (take len buf) w;
          s = s\<lparr>dma_busy := 0\<rparr>;
          w = (if msix_enabled q w then msix_notify q 0 w else w)
      in (s, w))"

definition edu_pci_irq_raise :: "'w qemu \<Rightarrow> u64 \<Rightarrow> 'w \<Rightarrow> 'w" where
  "edu_pci_irq_raise q val w =
     (if msix_enabled q w \<and> val < EDU_MSIX_VECTORS then msix_notify q (ucast val) w
      else if \<not> msix_enabled q w then pci_irq_assert q w
      else w)"

definition edu_pci_write ::
  "'w qemu \<Rightarrow> u64 \<Rightarrow> u64 \<Rightarrow> nat \<Rightarrow> EduPciState \<times> 'w \<Rightarrow> EduPciState \<times> 'w" where
  "edu_pci_write q addr val sz sw =
     (let (s, w) = sw in
      if addr = REG_SCRATCH then (s\<lparr>scratch := ucast val\<rparr>, w)
      else if addr = REG_FACTORIAL then (s\<lparr>factorial_out := factorial (ucast val)\<rparr>, w)
      else if addr = REG_DMA_SRC then (s\<lparr>dma_src := val\<rparr>, w)
      else if addr = REG_DMA_DST then (s\<lparr>dma_dst := val\<rparr>, w)
      else if addr = REG_DMA_LEN then (s\<lparr>dma_len := ucast val\<rparr>, w)
      else if addr = REG_DMA_CMD then
        (if val = 1 \<and> dma_busy s = 0 then edu_pci_dma q (s, w) else (s, w))
      else if addr = REG_IRQ_RAISE then (s, edu_pci_irq_raise q val w)
      else if addr = REG_IRQ_ACK then (s, pci_irq_deassert q w)
      else if addr = REG_P2P_ADDR then (s\<lparr>p2p_addr := val\<rparr>, w)
      else if addr = REG_P2P_DATA then (s\<lparr>p2p_data := ucast val\<rparr>, w)
      else if addr = REG_P2P_CMD then
        (if val = 1 then (s, snd (pci_dma_write q (p2p_addr s) (le_bytes 4 (p2p_data s)) w))
         else (s, w))
      else if addr = REG_ATS_ADDR then (s\<lparr>ats_addr := val\<rparr>, w)
      else if addr = REG_ATS_CMD then
        (if val = 1 then (s, snd (snd (pci_dma_read q (ats_addr s) [] w))) else (s, w))
      else (s, w))"

lemmas edu_pf_defs [mmio_defs] = edu_pci_read_def edu_pci_write_def

subsection \<open>Factorial register\<close>

lemma factorial_loop_fact:
  assumes "2 \<le> k" and "k \<le> 13"
  shows "factorial_loop n (of_nat k) (of_nat (fact (k - 1))) =
         of_nat (fact (max (k - 1) (min (unat n) 12)))"
  using assms
proof (induction "13 - k" arbitrary: k)
  case 0
  then have "k = 13" by simp
  then show ?case by (subst factorial_loop.simps) simp
next
  case (Suc d)
  have k: "unat (of_nat k :: u32) = k" using Suc.prems by (simp add: unat_of_nat)
  have guard: "(of_nat k :: u32) \<le> n \<and> of_nat k < (13 :: u32) \<longleftrightarrow> k \<le> unat n \<and> k < 13"
    by (simp add: word_le_nat_alt word_less_nat_alt k)
  have step: "(of_nat (fact (k - 1)) :: u32) * of_nat k = of_nat (fact k)"
    using Suc.prems by (cases k) (simp_all add: algebra_simps)
  have IH: "factorial_loop n (of_nat (k + 1)) (of_nat (fact k)) =
            of_nat (fact (max k (min (unat n) 12)))"
    using Suc.hyps(1) [of "k + 1"] Suc.hyps(2) Suc.prems by simp
  show ?case
  proof (cases "k \<le> unat n \<and> k < 13")
    case True
    then have "max (k - 1) (min (unat n) 12) = max k (min (unat n) 12)"
      by (auto simp: max_def min_def)
    with True IH show ?thesis
      by (subst factorial_loop.simps) (simp add: guard step [simplified] add.commute)
  next
    case False
    then have "max (k - 1) (min (unat n) 12) = k - 1" using Suc.prems Suc.hyps(2) by auto
    with False show ?thesis by (subst factorial_loop.simps) (simp only: guard if_False)
  qed
qed

lemma factorial_fact: "unat (factorial n) = fact (min (unat n) 12)"
proof -
  let ?m = "min (unat n) 12"
  have m: "fact (max 1 ?m) = (fact ?m :: nat)" by (cases "?m") auto
  have "factorial n = of_nat (fact (max 1 ?m))"
    using factorial_loop_fact [of 2 n] by (simp add: factorial_def)
  then have "factorial n = of_nat (fact ?m)" by (simp only: m)
  moreover have "(fact ?m :: nat) \<le> fact 12" by (rule fact_mono) simp
  then have "(fact ?m :: nat) < 2 ^ LENGTH(32)" by (simp add: fact_numeral)
  ultimately show ?thesis by (simp add: unat_of_nat)
qed

subsection \<open>Plain registers\<close>

definition pf_regs :: "u64 set" where
  "pf_regs = {REG_SCRATCH, REG_DMA_SRC, REG_DMA_DST, REG_DMA_LEN, REG_P2P_ADDR, REG_P2P_DATA,
     REG_ATS_ADDR}"

interpretation pf_bar0: regfile
  "\<lambda>a sw. edu_pci_read a 4 (fst sw)" "\<lambda>a v sw. Inr (edu_pci_write q a v 4 sw)" pf_regs
  "\<lambda>_. True"
  for q :: "'w qemu"
  by unfold_locales
     (unfold pf_regs_def, elim insertE emptyE; simp add: edu_pf_defs case_prod_beta)

subsection \<open>Single-shot DMA\<close>

context dma_bus
begin

lemma pf_dma_state: "fst (edu_pci_dma q (s, w)) = s\<lparr>dma_busy := 0\<rparr>"
  by (simp add: edu_pci_dma_def Let_def split: prod.splits)

lemma pf_dma_copies:
  assumes len: "n = unat (min (dma_len s) DMA_MAX_LEN)"
    and "readable w (dma_src s) n" and "writable w (dma_dst s) n"
  shows "ram (snd (edu_pci_dma q (s, w))) =
         ram_store (ram w) (dma_dst s) (ram_bytes (ram w) (dma_src s) n)"
proof -
  have n: "n \<le> 4096" "n = unat (if dma_len s > DMA_MAX_LEN then DMA_MAX_LEN else dma_len s)"
    using len by (auto simp: min_def word_le_nat_alt word_less_nat_alt)
  show ?thesis
    using assms(2,3) n(1) write_mapped [of w "dma_dst s" "ram_bytes (ram w) (dma_src s) n"]
    by (auto simp: edu_pci_dma_def Let_def n(2) [symmetric] read_mapped uninit_length memcpy_def
        notify_frame split: prod.splits)
qed

end

context dma_bus
begin

text \<open>The result code of the read is ignored: whatever the read left in the buffer is written out.\<close>

lemma pf_dma_writes_buffer:
  assumes len: "n = unat (min (dma_len s) DMA_MAX_LEN)"
    and rd: "pci_dma_read q (dma_src s) (take n (uninit q 4096 w)) w = (r, b, w)" and b: "length b = n"
    and "writable w (dma_dst s) n"
  shows "ram (snd (edu_pci_dma q (s, w))) = ram_store (ram w) (dma_dst s) b"
proof -
  have n: "n \<le> 4096" "n = unat (if dma_len s > DMA_MAX_LEN then DMA_MAX_LEN else dma_len s)"
    using len by (auto simp: min_def word_le_nat_alt word_less_nat_alt)
  have buf: "take n (memcpy (uninit q 4096 w) 0 b) = b"
    using n(1) b by (simp add: memcpy_def uninit_length)
  show ?thesis
    using assms(4) write_ram [of w "dma_dst s" b, unfolded b]
    by (simp only: edu_pci_dma_def Let_def prod.case n(2) [symmetric])
       (simp add: rd buf case_prod_beta notify_frame)
qed

end

subsection \<open>Properties\<close>

abbreviation pf_writes ::
  "'w qemu \<Rightarrow> (u64 \<times> u64) list \<Rightarrow> EduPciState \<times> 'w \<Rightarrow> (EduPciState \<times> 'w) res" where
  "pf_writes q \<equiv> mmio_writes (\<lambda>a v sw. Inr (edu_pci_write q a v 4 sw))"

text \<open>C31. The factorial register: after a write of \<open>n\<close> it reads \<open>n!\<close> for \<open>n\<close> up to 12, the largest
  factorial that fits 32 bits, and \<open>12!\<close> for every larger \<open>n\<close>; the product never wraps.\<close>

theorem pf_factorial_register:
  "unat (edu_pci_read REG_FACTORIAL 4
     (fst (edu_pci_write q REG_FACTORIAL (ucast (n :: u32)) 4 (s, w)))) = fact (min (unat n) 12)"
proof -
  have "(ucast (ucast n :: u64) :: u32) = n" by (rule bit_word_eqI) (simp add: bit_simps)
  moreover have "unat (ucast (factorial n) :: u64) = unat (factorial n)"
    using unsigned_less [of "factorial n", where ?'a = nat]
    by (simp add: unsigned_ucast_eq take_bit_nat_eq_self)
  ultimately show ?thesis by (simp add: edu_pf_defs factorial_fact)
qed

text \<open>C32. The plain registers of BAR0 (scratch, DMA source, destination and length, peer-to-peer
  address and data, ATS address) can be written in any order: afterwards each reads the value
  written to it, and those not written read what they did before.\<close>

theorem pf_registers_read_back:
  assumes "distinct (map fst ws)" and "fst ` set ws \<subseteq> pf_regs"
    and "\<forall>v \<in> snd ` set ws. v < 0x100000000"
  shows "\<exists>s' w'. pf_writes q ws (s, w) = Inr (s', w') \<and>
           (\<forall>(a, v) \<in> set ws. edu_pci_read a 4 s' = v) \<and>
           (\<forall>b \<in> pf_regs. b \<notin> fst ` set ws \<longrightarrow> edu_pci_read b 4 s' = edu_pci_read b 4 s)"
  using pf_bar0.program_registers [where q = q and ws = ws and s = "(s, w)"] assms by (auto simp: case_prod_beta)

theorem pf_registers_read_back_witness:
  "\<exists>s' w'. pf_writes guest_qemu [(REG_DMA_LEN, 64), (REG_SCRATCH, 0xDEADBEEF)]
       (edu_pci_init, small_guest) = Inr (s', w') \<and>
     edu_pci_read REG_DMA_LEN 4 s' = 64 \<and> edu_pci_read REG_SCRATCH 4 s' = 0xDEADBEEF \<and>
     edu_pci_read REG_DMA_SRC 4 s' = edu_pci_read REG_DMA_SRC 4 edu_pci_init"
proof -
  obtain s' w' where
    run: "pf_writes guest_qemu [(REG_DMA_LEN, 64), (REG_SCRATCH, 0xDEADBEEF)]
       (edu_pci_init, small_guest) = Inr (s', w')"
    and written: "\<forall>(a, v) \<in> set [(REG_DMA_LEN, 64), (REG_SCRATCH, 0xDEADBEEF)]. edu_pci_read a 4 s' = v"
    and others: "\<forall>b \<in> pf_regs. b \<notin> fst ` set [(REG_DMA_LEN, 64 :: u64), (REG_SCRATCH, 0xDEADBEEF)] \<longrightarrow>
        edu_pci_read b 4 s' = edu_pci_read b 4 edu_pci_init"
    using pf_registers_read_back [of "[(REG_DMA_LEN, 64), (REG_SCRATCH, 0xDEADBEEF)]" guest_qemu
        edu_pci_init small_guest]
    by (auto simp: pf_regs_def)
  have "REG_DMA_SRC \<in> pf_regs" by (simp add: pf_regs_def)
  then have "edu_pci_read REG_DMA_SRC 4 s' = edu_pci_read REG_DMA_SRC 4 edu_pci_init"
    using others by simp
  then show ?thesis using run written by auto
qed

text \<open>The DMA program of the test drivers: source, destination, length, start.\<close>

definition dma_program :: "u64 \<Rightarrow> u64 \<Rightarrow> u64 \<Rightarrow> (u64 \<times> u64) list" where
  "dma_program src dst len =
     [(REG_DMA_SRC, src), (REG_DMA_DST, dst), (REG_DMA_LEN, len), (REG_DMA_CMD, 1)]"

definition dma_programmed :: "u64 \<Rightarrow> u64 \<Rightarrow> u64 \<Rightarrow> EduPciState \<Rightarrow> EduPciState" where
  "dma_programmed src dst len s = s\<lparr>dma_src := src, dma_dst := dst, dma_len := ucast len\<rparr>"

lemma dma_program_runs:
  assumes "dma_busy s = 0"
  shows "pf_writes q (dma_program src dst len) (s, w) =
         Inr (edu_pci_dma q (dma_programmed src dst len s, w))"
  using assms by (simp add: dma_program_def dma_programmed_def edu_pci_write_def)

text \<open>C11. Single-shot DMA: programming source, destination and length and writing 1 to the command
  register copies the first \<open>min len 4096\<close> bytes of the source to the destination in guest
  memory, even when the two overlap, and leaves the engine idle.\<close>

theorem pf_dma_copies_buffer:
  assumes "dma_bus q ram readable writable"
    and "dma_busy s = 0" and "n = unat (min (ucast len) DMA_MAX_LEN)"
    and "readable w src n" and "writable w dst n"
  shows "\<exists>s' w'. pf_writes q (dma_program src dst len) (s, w) = Inr (s', w') \<and>
           ram w' = ram_store (ram w) dst (ram_bytes (ram w) src n) \<and>
           edu_pci_read REG_STATUS 4 s' = 1"
proof -
  let ?s = "dma_programmed src dst len s"
  obtain s' w' where sw': "edu_pci_dma q (?s, w) = (s', w')" by (cases "edu_pci_dma q (?s, w)")
  have "s' = ?s\<lparr>dma_busy := 0\<rparr>"
    using dma_bus.pf_dma_state [OF assms(1), of ?s w] sw' by simp
  moreover have "ram w' = ram_store (ram w) dst (ram_bytes (ram w) src n)"
    using dma_bus.pf_dma_copies [OF assms(1), of n ?s w] sw' assms(3-5)
    by (simp add: dma_programmed_def)
  ultimately show ?thesis
    using dma_program_runs [OF assms(2), of q src dst len w] sw' by (simp add: edu_pci_read_def)
qed

theorem pf_dma_copies_buffer_witness:
  "\<exists>s' w'. pf_writes guest_qemu (dma_program 0x100 0x108 64) (edu_pci_init, small_guest) =
       Inr (s', w') \<and>
     mem w' = ram_store (mem small_guest) 0x108 (ram_bytes (mem small_guest) 0x100 64) \<and>
     edu_pci_read REG_STATUS 4 s' = 1"
  by (rule pf_dma_copies_buffer [OF guest_bus.dma_bus_axioms])
     (simp_all add: small_guest_mapped edu_pci_init_def min_def)

text \<open>C28. The DMA engine ignores a failed read: when the IOMMU does not map the source, the destination is
  overwritten all the same, with whatever the failed read left in the local buffer, and the engine
  reports what it reports after a good transfer.\<close>

theorem pf_dma_ignores_failed_read:
  assumes "dma_bus q ram readable writable"
    and "dma_busy s = 0" and "n = unat (min (ucast len) DMA_MAX_LEN)"
    and "\<not> readable w src n" and "writable w dst n"
  shows "\<exists>r b s' w'. pci_dma_read q src (take n (uninit q 4096 w)) w = (r, b, w) \<and>
           r \<noteq> MEMTX_OK \<and> length b = n \<and>
           pf_writes q (dma_program src dst len) (s, w) = Inr (s', w') \<and>
           ram w' = ram_store (ram w) dst b \<and> edu_pci_read REG_STATUS 4 s' = 1"
proof -
  let ?s = "dma_programmed src dst len s" and ?u = "take n (uninit q 4096 w)"
  have "n \<le> 4096" using assms(3) by (auto simp: min_def word_le_nat_alt)
  then have u: "length ?u = n" by (simp add: dma_bus.uninit_length [OF assms(1)])
  then obtain r b where rd: "pci_dma_read q src ?u w = (r, b, w)" "r \<noteq> MEMTX_OK" "length b = n"
    using dma_bus.read_failed [OF assms(1), of w src ?u] assms(4) by metis
  obtain s' w' where sw': "edu_pci_dma q (?s, w) = (s', w')" by (cases "edu_pci_dma q (?s, w)")
  have "s' = ?s\<lparr>dma_busy := 0\<rparr>"
    using dma_bus.pf_dma_state [OF assms(1), of ?s w] sw' by simp
  moreover have "ram w' = ram_store (ram w) dst b"
    using dma_bus.pf_dma_writes_buffer [OF assms(1), of n ?s w r b] sw' rd assms(3,5)
    by (simp add: dma_programmed_def)
  ultimately show ?thesis
    using dma_program_runs [OF assms(2), of q src dst len w] sw' rd by (simp add: edu_pci_read_def)
qed

theorem pf_dma_ignores_failed_read_witness:
  "\<exists>r b s' w'. pci_dma_read guest_qemu 0xFFFF0000 (take 8 (uninit guest_qemu 4096 small_guest)) small_guest =
       (r, b, small_guest) \<and> r \<noteq> MEMTX_OK \<and> length b = 8 \<and>
     pf_writes guest_qemu (dma_program 0xFFFF0000 0 8) (edu_pci_init, small_guest) = Inr (s', w') \<and>
     mem w' = ram_store (mem small_guest) 0 b \<and> edu_pci_read REG_STATUS 4 s' = 1"
  by (rule pf_dma_ignores_failed_read [OF guest_bus.dma_bus_axioms])
     (simp_all add: small_guest_mapped edu_pci_init_def min_def)

text \<open>A peer-to-peer command stores the four little-endian bytes of the data register at the
  target address and changes nothing else.\<close>

lemma pf_p2p_writes_word:
  assumes "dma_bus q ram readable writable" and "writable w addr 4"
  shows "\<exists>w'. pf_writes q [(REG_P2P_ADDR, addr), (REG_P2P_DATA, ucast (v :: u32)), (REG_P2P_CMD, 1)]
             (s, w) = Inr (s\<lparr>p2p_addr := addr, p2p_data := v\<rparr>, w') \<and>
           ram w' = ram_store (ram w) addr (le_bytes 4 v)"
proof -
  have "(ucast (ucast v :: u64) :: u32) = v" by (rule bit_word_eqI) (simp add: bit_simps)
  then show ?thesis
    using dma_bus.write_ram [OF assms(1), of w addr "le_bytes 4 v"] assms(2)
    by (simp add: edu_pci_write_def)
qed

lemma pf_p2p_writes_word_example:
  "\<exists>w'. pf_writes guest_qemu [(REG_P2P_ADDR, 0x40), (REG_P2P_DATA, ucast (7 :: u32)), (REG_P2P_CMD, 1)]
       (edu_pci_init, small_guest) =
     Inr (edu_pci_init\<lparr>p2p_addr := 0x40, p2p_data := 7\<rparr>, w') \<and>
     mem w' = ram_store (mem small_guest) 0x40 (le_bytes 4 (7 :: u32))"
  by (rule pf_p2p_writes_word [OF guest_bus.dma_bus_axioms]) (simp add: small_guest_mapped)

end
