(* ===== verification/Cyclic_Queue.thy ===== *)
theory Cyclic_Queue
  imports Prelude
begin

text \<open>
  Head and tail pointers of a ring of slots: the contract that the descriptor ring of
  \<open>edu_pci.c\<close> and the submission queue of \<open>edu_nvme.c\<close> share. \<open>nxt z\<close> advances an index of a ring
  of size \<open>z\<close>; \<open>pos\<close> and \<open>cap\<close> read indices and sizes as natural numbers.
\<close>

text \<open>The number of slots from a head to a tail, and the slots in order.\<close>

definition cyc_dist :: "nat \<Rightarrow> nat \<Rightarrow> nat \<Rightarrow> nat" where
  "cyc_dist n h t = (if h \<le> t then t - h else t + n - h)"

definition cyc_slots :: "('i \<Rightarrow> 'i) \<Rightarrow> nat \<Rightarrow> 'i \<Rightarrow> 'i list" where
  "cyc_slots nx n h = map (\<lambda>k. (nx ^^ k) h) [0..<n]"

locale cyclic_queue =
  fixes nxt :: "'z \<Rightarrow> 'i \<Rightarrow> 'i"
    and pos :: "'i \<Rightarrow> nat"
    and cap :: "'z \<Rightarrow> nat"
  assumes pos_inj: "pos i = pos j \<Longrightarrow> i = j"
    and pos_nxt: "pos i < cap z \<Longrightarrow> pos (nxt z i) = (if pos i + 1 = cap z then 0 else pos i + 1)"
begin

abbreviation dist :: "'z \<Rightarrow> 'i \<Rightarrow> 'i \<Rightarrow> nat" where
  "dist z h t \<equiv> cyc_dist (cap z) (pos h) (pos t)"

abbreviation slots :: "'z \<Rightarrow> 'i \<Rightarrow> 'i \<Rightarrow> 'i list" where
  "slots z h t \<equiv> cyc_slots (nxt z) (dist z h t) h"

lemma nxt_valid: "pos i < cap z \<Longrightarrow> pos (nxt z i) < cap z"
  by (simp add: pos_nxt)

lemma dist_less: "pos h < cap z \<Longrightarrow> pos t < cap z \<Longrightarrow> dist z h t < cap z"
  by (auto simp: cyc_dist_def)

lemma dist_zero: "pos h < cap z \<Longrightarrow> pos t < cap z \<Longrightarrow> dist z h t = 0 \<longleftrightarrow> h = t"
  by (auto simp: cyc_dist_def intro: pos_inj)

lemma dist_nxt:
  assumes "pos h < cap z" and "pos t < cap z" and "h \<noteq> t"
  shows "dist z h t = Suc (dist z (nxt z h) t)"
  using assms pos_inj [of h t] by (auto simp: cyc_dist_def pos_nxt)

lemma slots_same [simp]: "slots z t t = []"
  by (simp add: cyc_slots_def cyc_dist_def)

lemma slots_Cons:
  assumes "pos h < cap z" and "pos t < cap z" and "h \<noteq> t"
  shows "slots z h t = h # slots z (nxt z h) t"
  by (simp add: cyc_slots_def dist_nxt [OF assms] upt_conv_Cons map_Suc_upt [symmetric] funpow_swap1
      del: upt_Suc)

lemma length_slots [simp]: "length (slots z h t) = dist z h t"
  by (simp add: cyc_slots_def)

text \<open>The tail is reached after exactly \<open>dist\<close> steps.\<close>

lemma nxt_dist:
  assumes "pos h < cap z" and "pos t < cap z"
  shows "(nxt z ^^ dist z h t) h = t"
  using assms
proof (induction "dist z h t" arbitrary: h)
  case 0
  then have "h = t" using dist_zero [of h z t] by simp
  then show ?case by (simp add: cyc_dist_def)
next
  case (Suc n)
  then have "h \<noteq> t" using dist_zero [of t z t] by (auto simp: cyc_dist_def)
  then show ?case
    using Suc dist_nxt [of h z t] nxt_valid [of h z] by (simp add: funpow_swap1)
qed

lemma slots_valid: "pos h < cap z \<Longrightarrow> i \<in> set (slots z h t) \<Longrightarrow> pos i < cap z"
proof -
  assume h: "pos h < cap z" and i: "i \<in> set (slots z h t)"
  have "pos ((nxt z ^^ k) h) < cap z" for k by (induction k) (auto simp: h nxt_valid)
  then show ?thesis using i by (auto simp: cyc_slots_def)
qed

end

end
