(* ===== verification/Edu_Ring.thy ===== *)
theory Edu_Ring
  imports Edu_Pf Cyclic_Queue
begin

text \<open>
  BAR4 of \<open>edu_pci.c\<close>: the descriptor ring. The 32-byte descriptors in guest memory, the
  processing of one descriptor and of all pending ones, and the register handlers.
\<close>

subsection \<open>Registers and descriptors\<close>

abbreviation (input) REG_RING_ID :: u64 where "REG_RING_ID \<equiv> 0x00"
abbreviation (input) REG_RING_STATUS :: u64 where "REG_RING_STATUS \<equiv> 0x04"
abbreviation (input) REG_RING_ADDR_LO :: u64 where "REG_RING_ADDR_LO \<equiv> 0x08"
abbreviation (input) REG_RING_ADDR_HI :: u64 where "REG_RING_ADDR_HI \<equiv> 0x0C"
abbreviation (input) REG_RING_SIZE :: u64 where "REG_RING_SIZE \<equiv> 0x10"
abbreviation (input) REG_RING_HEAD :: u64 where "REG_RING_HEAD \<equiv> 0x14"
abbreviation (input) REG_RING_TAIL :: u64 where "REG_RING_TAIL \<equiv> 0x18"
abbreviation (input) REG_RING_CTRL :: u64 where "REG_RING_CTRL \<equiv> 0x1C"

abbreviation (input) RING_CTRL_ENABLE :: u64 where "RING_CTRL_ENABLE \<equiv> 1"
abbreviation (input) DESC_FLAG_VALID :: u32 where "DESC_FLAG_VALID \<equiv> 1"
abbreviation (input) DESC_FLAG_INT :: u32 where "DESC_FLAG_INT \<equiv> 2"
abbreviation (input) DESC_STATUS_COMPLETE :: u32 where "DESC_STATUS_COMPLETE \<equiv> 1"
abbreviation (input) DESC_STATUS_ERROR :: u32 where "DESC_STATUS_ERROR \<equiv> 2"
abbreviation (input) DESC_SIZE :: u32 where "DESC_SIZE \<equiv> 32"
abbreviation (input) MAX_RING_SIZE :: u64 where "MAX_RING_SIZE \<equiv> 256"

record DmaDescriptor =
  src_addr_lo :: u32
  src_addr_hi :: u32
  dst_addr_lo :: u32
  dst_addr_hi :: u32
  desc_length :: u32
  desc_flags :: u32
  desc_status :: u32
  desc_reserved :: u32

text \<open>The structure as the 32 bytes the DMA fills.\<close>

definition desc_of_bytes :: "byte list \<Rightarrow> DmaDescriptor" where
  "desc_of_bytes bs = \<lparr>
     src_addr_lo = le_word (subarr 0 4 bs), src_addr_hi = le_word (subarr 4 4 bs),
     dst_addr_lo = le_word (subarr 8 4 bs), dst_addr_hi = le_word (subarr 12 4 bs),
     desc_length = le_word (subarr 16 4 bs), desc_flags = le_word (subarr 20 4 bs),
     desc_status = le_word (subarr 24 4 bs), desc_reserved = le_word (subarr 28 4 bs)\<rparr>"

definition desc_src :: "DmaDescriptor \<Rightarrow> u64" where
  "desc_src d = push_bit 32 (ucast (src_addr_hi d)) OR ucast (src_addr_lo d)"

definition desc_dst :: "DmaDescriptor \<Rightarrow> u64" where
  "desc_dst d = push_bit 32 (ucast (dst_addr_hi d)) OR ucast (dst_addr_lo d)"

definition desc_len :: "DmaDescriptor \<Rightarrow> u32" where
  "desc_len d = (if desc_length d > DMA_MAX_LEN then DMA_MAX_LEN else desc_length d)"

subsection \<open>One descriptor\<close>

text \<open>
  The head index is multiplied as a 32-bit number before it is added to the 64-bit base. The
  descriptor and the data buffer are one block of uninitialised stack memory.
\<close>

definition desc_addr :: "EduPciState \<Rightarrow> u64" where
  "desc_addr s = ring_addr s + ucast (ring_head s * DESC_SIZE)"

definition edu_ring_process_one ::
  "'w qemu \<Rightarrow> EduPciState \<times> 'w \<Rightarrow> (EduPciState \<times> 'w) res" where
  "edu_ring_process_one q sw =
     (let (s, w) = sw;
          stack = uninit q (32 + 4096) w;
          (res, dbytes, w) = pci_dma_read q (desc_addr s) (take 32 stack) w
      in if res \<noteq> MEMTX_OK then Inr (s, w)
         else let desc = desc_of_bytes dbytes in
           if desc_flags desc AND DESC_FLAG_VALID = 0 then Inr (s, w)
           else let len = unat (desc_len desc);
                    (res, buf, w) = pci_dma_read q (desc_src desc) (take len (drop 32 stack)) w;
                    (desc, w) =
                      (if res \<noteq> MEMTX_OK then (desc\<lparr>desc_status := DESC_STATUS_ERROR\<rparr>, w)
                       else (desc\<lparr>desc_status := DESC_STATUS_COMPLETE\<rparr>,
                             snd (pci_dma_write q (desc_dst desc) buf w)));
                    (_, w) = pci_dma_write q (desc_addr s + 24) (le_bytes 4 (desc_status desc)) w
                in if ring_size s = 0 then Inl Div_By_Zero
                   else let s = s\<lparr>ring_head := (ring_head s + 1) mod ring_size s\<rparr>;
                            w = (if desc_flags desc AND DESC_FLAG_INT \<noteq> 0 \<and> msix_enabled q w
                                 then msix_notify q 1 w else w)
                        in Inr (s, w))"

lemma process_one_frame:
  assumes "edu_ring_process_one q sw = Inr sw'"
  shows "fst sw' = fst sw \<or>
         (ring_size (fst sw) \<noteq> 0 \<and>
          fst sw' = (fst sw)\<lparr>ring_head := (ring_head (fst sw) + 1) mod ring_size (fst sw)\<rparr>)"
  using assms by (auto simp: edu_ring_process_one_def Let_def split: prod.splits if_splits)

lemma process_one_ring_size:
  "edu_ring_process_one q sw = Inr sw' \<Longrightarrow> ring_size (fst sw') = ring_size (fst sw)"
  by (drule process_one_frame) auto

subsection \<open>All pending descriptors\<close>

lemma count_up_decreases:
  fixes count n :: u32
  assumes "count < n"
  shows "unat n - unat (count + 1) < unat n - unat count" "unat (count + 1) = unat count + 1"
proof -
  have "unat n < 4294967296" using unsigned_less [of n] by simp
  then have "unat count + 1 < 2 ^ LENGTH(32)" using assms by (simp add: word_less_nat_alt)
  then show "unat (count + 1) = unat count + 1" by (simp add: unat_word_ariths)
  then show "unat n - unat (count + 1) < unat n - unat count"
    using assms by (simp add: word_less_nat_alt)
qed

function edu_ring_loop ::
  "'w qemu \<Rightarrow> u32 \<Rightarrow> EduPciState \<times> 'w \<Rightarrow> (EduPciState \<times> 'w) res" where
  "edu_ring_loop q count sw =
     (if ring_head (fst sw) \<noteq> ring_tail (fst sw) \<and> count < ring_size (fst sw) then
        (case edu_ring_process_one q sw of
           Inl e \<Rightarrow> Inl e
         | Inr sw' \<Rightarrow> edu_ring_loop q (count + 1) sw')
      else Inr sw)"
  by pat_completeness auto

termination
  by (relation "measure (\<lambda>(q, count, sw). unat (ring_size (fst sw)) - unat count)")
     (auto simp: process_one_ring_size count_up_decreases)

declare edu_ring_loop.simps [simp del]

text \<open>What one descriptor preserves, the loop preserves.\<close>

lemma edu_ring_loop_preserves:
  assumes "edu_ring_loop q count sw = Inr sw'" and "P sw"
    and "\<And>t t'. edu_ring_process_one q t = Inr t' \<Longrightarrow> P t \<Longrightarrow> P t'"
  shows "P sw'"
  using assms
proof (induction q count sw rule: edu_ring_loop.induct)
  case (1 q count sw)
  show ?case
  proof (cases "ring_head (fst sw) \<noteq> ring_tail (fst sw) \<and> count < ring_size (fst sw)")
    case True
    then obtain sw1 where sw1: "edu_ring_process_one q sw = Inr sw1"
      "edu_ring_loop q (count + 1) sw1 = Inr sw'"
      using "1.prems"(1) by (subst (asm) edu_ring_loop.simps) (auto split: sum.splits)
    show ?thesis by (rule "1.IH" [OF True sw1 "1.prems"(3) [OF sw1(1) "1.prems"(2)] "1.prems"(3)])
  next
    case False
    then have "sw' = sw" using "1.prems"(1) by (subst (asm) edu_ring_loop.simps) auto
    then show ?thesis using "1.prems"(2) by simp
  qed
qed

definition edu_ring_process ::
  "'w qemu \<Rightarrow> EduPciState \<times> 'w \<Rightarrow> (EduPciState \<times> 'w) res" where
  "edu_ring_process q sw =
     (if ring_enabled (fst sw) = 0 \<or> ring_size (fst sw) = 0 then Inr sw
      else edu_ring_loop q 0 sw)"

subsection \<open>BAR4 handlers\<close>

definition edu_ring_read :: "u64 \<Rightarrow> nat \<Rightarrow> EduPciState \<Rightarrow> u64" where
  "edu_ring_read addr sz s =
     (if addr = REG_RING_ID then 0x0ED0CAFE
      else if addr = REG_RING_STATUS then
        ucast (ring_enabled s OR push_bit 1 (if ring_head s \<noteq> ring_tail s then 1 else 0))
      else if addr = REG_RING_ADDR_LO then get_lo (ring_addr s)
      else if addr = REG_RING_ADDR_HI then get_hi (ring_addr s)
      else if addr = REG_RING_SIZE then ucast (ring_size s)
      else if addr = REG_RING_HEAD then ucast (ring_head s)
      else if addr = REG_RING_TAIL then ucast (ring_tail s)
      else if addr = REG_RING_CTRL then ucast (ring_enabled s)
      else 0xFFFFFFFF)"

definition edu_ring_write ::
  "'w qemu \<Rightarrow> u64 \<Rightarrow> u64 \<Rightarrow> nat \<Rightarrow> EduPciState \<times> 'w \<Rightarrow> (EduPciState \<times> 'w) res" where
  "edu_ring_write q addr val sz sw =
     (let (s, w) = sw in
      if addr = REG_RING_ADDR_LO then Inr (s\<lparr>ring_addr := set_lo (ring_addr s) val\<rparr>, w)
      else if addr = REG_RING_ADDR_HI then Inr (s\<lparr>ring_addr := set_hi (ring_addr s) val\<rparr>, w)
      else if addr = REG_RING_SIZE then
        (if val > 0 \<and> val \<le> MAX_RING_SIZE \<and> val AND (val - 1) = 0
         then Inr (s\<lparr>ring_size := ucast val, ring_head := 0, ring_tail := 0\<rparr>, w)
         else Inr (s, w))
      else if addr = REG_RING_TAIL then
        (if ring_size s = 0 then Inl Div_By_Zero
         else let s = s\<lparr>ring_tail := ucast (val mod ucast (ring_size s))\<rparr>
              in if ring_enabled s \<noteq> 0 then edu_ring_process q (s, w) else Inr (s, w))
      else if addr = REG_RING_CTRL then
        (let s = s\<lparr>ring_enabled := ucast (val AND RING_CTRL_ENABLE)\<rparr>
         in if ring_enabled s \<noteq> 0 \<and> ring_head s \<noteq> ring_tail s then edu_ring_process q (s, w)
            else Inr (s, w))
      else Inr (s, w))"

lemmas edu_ring_defs [mmio_defs] = edu_ring_read_def edu_ring_write_def

end
