(* ===== verification/Ring_Engine.thy ===== *)
theory Ring_Engine
  imports Edu_Ring
begin

text \<open>
  What the descriptor ring of BAR4 does: its pointers are a cyclic queue, the processing loop
  executes the longest prefix of executable descriptors from head to tail, in order, and stays
  at the first one that is not; every write of BAR4 keeps the pointers inside the ring.
\<close>

subsection \<open>The pointers\<close>

interpretation ring: cyclic_queue "\<lambda>z h. (h + 1) mod z :: u32" unat unat
proof unfold_locales
  fix i z :: u32
  assume i: "unat i < unat z"
  then have "unat (i + 1) = unat i + 1"
    by (intro count_up_decreases) (simp add: word_less_nat_alt)
  then show "unat ((i + 1) mod z) = (if unat i + 1 = unat z then 0 else unat i + 1)"
    using i by (simp add: unat_mod)
qed (rule unsigned_word_eqI)

definition ring_slots :: "EduPciState \<Rightarrow> u32 list" where
  "ring_slots s = cyc_slots (\<lambda>h. (h + 1) mod ring_size s)
     (cyc_dist (unat (ring_size s)) (unat (ring_head s)) (unat (ring_tail s))) (ring_head s)"

text \<open>Size 0 until the driver has set one, then a power of two up to 256 with both pointers in range.\<close>

definition ring_inv :: "EduPciState \<Rightarrow> bool" where
  "ring_inv s \<longleftrightarrow> ring_enabled s \<le> 1 \<and>
     (if ring_size s = 0 then ring_head s = 0 \<and> ring_tail s = 0
      else ring_head s < ring_size s \<and> ring_tail s < ring_size s \<and> ring_size s \<le> 256 \<and>
           ring_size s AND (ring_size s - 1) = 0)"

subsection \<open>The effect of one descriptor\<close>

text \<open>
  The environment after the descriptor of slot \<open>i\<close> is executed, from guest memory alone:
  \<open>None\<close> if the descriptor is not readable or not valid.
\<close>

definition ring_exec ::
  "'w qemu \<Rightarrow> ('w \<Rightarrow> u64 \<Rightarrow> byte) \<Rightarrow> ('w \<Rightarrow> u64 \<Rightarrow> nat \<Rightarrow> bool) \<Rightarrow> u64 \<Rightarrow> u32 \<Rightarrow> 'w \<Rightarrow> 'w option" where
  "ring_exec q ram readable base i w =
     (let a = base + ucast (i * DESC_SIZE);
          d = desc_of_bytes (ram_bytes (ram w) a 32);
          n = unat (desc_len d);
          ok = readable w (desc_src d) n
      in if \<not> readable w a 32 \<or> desc_flags d AND DESC_FLAG_VALID = 0 then None
         else let w = (if ok then snd (pci_dma_write q (desc_dst d) (ram_bytes (ram w) (desc_src d) n) w)
                       else w);
                  w = snd (pci_dma_write q (a + 24)
                        (le_bytes 4 (if ok then DESC_STATUS_COMPLETE else DESC_STATUS_ERROR)) w)
              in Some (if desc_flags d AND DESC_FLAG_INT \<noteq> 0 \<and> msix_enabled q w
                       then msix_notify q 1 w else w))"

text \<open>Execute slots in order up to the first that cannot be; return the slots left.\<close>

fun ring_run ::
  "'w qemu \<Rightarrow> ('w \<Rightarrow> u64 \<Rightarrow> byte) \<Rightarrow> ('w \<Rightarrow> u64 \<Rightarrow> nat \<Rightarrow> bool) \<Rightarrow> u64 \<Rightarrow> u32 list \<Rightarrow> 'w \<Rightarrow>
   u32 list \<times> 'w" where
  "ring_run q ram readable base [] w = ([], w)"
| "ring_run q ram readable base (i # is) w =
     (case ring_exec q ram readable base i w of
        None \<Rightarrow> (i # is, w)
      | Some w' \<Rightarrow> ring_run q ram readable base is w')"

context dma_bus
begin

lemma process_one_exec:
  assumes "ring_size s \<noteq> 0"
  shows "edu_ring_process_one q (s, w) =
    (case ring_exec q ram readable (ring_addr s) (ring_head s) w of
       None \<Rightarrow> Inr (s, w)
     | Some w' \<Rightarrow> Inr (s\<lparr>ring_head := (ring_head s + 1) mod ring_size s\<rparr>, w'))"
proof -
  let ?a = "desc_addr s"
  let ?d = "desc_of_bytes (ram_bytes (ram w) ?a 32)"
  let ?n = "unat (desc_len ?d)"
  have n: "?n \<le> 4096" by (simp add: desc_len_def word_less_nat_alt not_less)
  have l32: "length (take 32 (uninit q 4128 w)) = 32"
    and ln: "length (take ?n (drop 32 (uninit q 4128 w))) = ?n"
    using n by (simp_all add: uninit_length)
  note rd = read_mapped [of w ?a "take 32 (uninit q 4128 w)", unfolded l32]
    read_unmapped [of w ?a "take 32 (uninit q 4128 w)", unfolded l32]
  note rd2 = read_mapped [of w "desc_src ?d" "take ?n (drop 32 (uninit q 4128 w))", unfolded ln]
    read_unmapped [of w "desc_src ?d" "take ?n (drop 32 (uninit q 4128 w))", unfolded ln]
  show ?thesis
  proof (cases "readable w ?a 32 \<and> desc_flags ?d AND DESC_FLAG_VALID \<noteq> 0")
    case False
    then show ?thesis
      using rd by (cases "readable w ?a 32")
        (auto simp: edu_ring_process_one_def ring_exec_def Let_def desc_addr_def [symmetric])
  next
    case True
    then show ?thesis
      using rd rd2 assms
      by (cases "readable w (desc_src ?d) ?n")
         (auto simp: edu_ring_process_one_def ring_exec_def Let_def desc_addr_def [symmetric]
           case_prod_beta)
  qed
qed

text \<open>A descriptor that cannot be executed is read again until the loop's budget is used up.\<close>

lemma loop_stalled:
  assumes "ring_size s \<noteq> 0" and "ring_exec q ram readable (ring_addr s) (ring_head s) w = None"
  shows "edu_ring_loop q count (s, w) = Inr (s, w)"
proof (induction "unat (ring_size s) - unat count" arbitrary: count rule: less_induct)
  case less
  show ?case
  proof (cases "ring_head s \<noteq> ring_tail s \<and> count < ring_size s")
    case True
    then have "edu_ring_loop q (count + 1) (s, w) = Inr (s, w)"
      using less count_up_decreases by auto
    then show ?thesis
      using process_one_exec [OF assms(1)] assms(2)
      by (subst edu_ring_loop.simps) simp
  next
    case False
    then show ?thesis by (subst edu_ring_loop.simps) auto
  qed
qed

lemma loop_runs:
  assumes "ring_head s < ring_size s" and "ring_tail s < ring_size s"
    and "ring.dist (ring_size s) (ring_head s) (ring_tail s) + unat count \<le> unat (ring_size s)"
    and "ring_run q ram readable (ring_addr s) (ring_slots s) w = (rest, w')"
  shows "edu_ring_loop q count (s, w) =
         Inr (s\<lparr>ring_head := (case rest of [] \<Rightarrow> ring_tail s | i # _ \<Rightarrow> i)\<rparr>, w')"
  using assms
proof (induction "unat (ring_size s) - unat count" arbitrary: count s w rule: less_induct)
  case less
  let ?h = "ring_head s" and ?t = "ring_tail s" and ?z = "ring_size s"
  have z: "?z \<noteq> 0" using less.prems(1) by auto
  have valid: "unat ?h < unat ?z" "unat ?t < unat ?z"
    using less.prems(1,2) by (simp_all add: word_less_nat_alt)
  show ?case
  proof (cases "?h = ?t")
    case True
    then have "rest = []" "w' = w"
      using less.prems(4) by (simp_all add: ring_slots_def)
    then show ?thesis using True by (subst edu_ring_loop.simps) simp
  next
    case False
    let ?s = "s\<lparr>ring_head := (?h + 1) mod ?z\<rparr>"
    have slots: "ring_slots s = ?h # ring_slots ?s"
      using ring.slots_Cons [OF valid False] by (simp add: ring_slots_def)
    have "0 < ring.dist ?z ?h ?t" using ring.dist_zero [OF valid] False by auto
    then have count: "count < ?z"
      using less.prems(3) by (simp add: word_less_nat_alt)
    show ?thesis
    proof (cases "ring_exec q ram readable (ring_addr s) ?h w")
      case None
      then have "rest = ring_slots s" "w' = w" using less.prems(4) slots by simp_all
      then show ?thesis using loop_stalled [OF z None] slots by simp
    next
      case (Some w1)
      have "edu_ring_loop q (count + 1) (?s, w1) =
            Inr (?s\<lparr>ring_head := (case rest of [] \<Rightarrow> ring_tail ?s | i # _ \<Rightarrow> i)\<rparr>, w')"
      proof (rule less.hyps)
        show "unat (ring_size ?s) - unat (count + 1) < unat ?z - unat count"
          using count count_up_decreases by simp
        show "ring_head ?s < ring_size ?s" "ring_tail ?s < ring_size ?s"
          using z less.prems(2) ring.nxt_valid [OF valid(1)]
          by (simp_all add: word_less_nat_alt)
        show "ring.dist (ring_size ?s) (ring_head ?s) (ring_tail ?s) + unat (count + 1)
              \<le> unat (ring_size ?s)"
          using ring.dist_nxt [OF valid False] less.prems(3) count_up_decreases(2) [OF count] by simp
        show "ring_run q ram readable (ring_addr ?s) (ring_slots ?s) w1 = (rest, w')"
          using less.prems(4) slots Some by simp
      qed
      then show ?thesis
        using process_one_exec [OF z, of w] Some False count
        by (subst edu_ring_loop.simps) (simp split: list.splits)
    qed
  qed
qed

end

subsection \<open>BAR4 keeps its pointers inside the ring\<close>

lemma process_one_inv:
  assumes "edu_ring_process_one q sw = Inr sw'" and "ring_inv (fst sw)"
  shows "ring_inv (fst sw')"
  using process_one_frame [OF assms(1)] assms(2)
  by (auto simp: ring_inv_def word_less_nat_alt unat_mod unat_gt_0 split: if_splits)

lemma loop_inv:
  assumes "edu_ring_loop q count sw = Inr sw'" and "ring_inv (fst sw)"
  shows "ring_inv (fst sw')"
  by (rule edu_ring_loop_preserves [where P = "\<lambda>t. ring_inv (fst t)", OF assms])
     (rule process_one_inv)

lemma process_inv:
  "edu_ring_process q sw = Inr sw' \<Longrightarrow> ring_inv (fst sw) \<Longrightarrow> ring_inv (fst sw')"
  using loop_inv by (fastforce simp: edu_ring_process_def split: if_splits)

text \<open>Processing never faults: the size is not 0 once the loop runs.\<close>

lemma process_one_ok: "ring_size (fst sw) \<noteq> 0 \<Longrightarrow> \<exists>sw'. edu_ring_process_one q sw = Inr sw'"
  by (auto simp: edu_ring_process_one_def Let_def case_prod_beta)

lemma loop_ok: "ring_size (fst sw) \<noteq> 0 \<Longrightarrow> \<exists>sw'. edu_ring_loop q count sw = Inr sw'"
proof (induction q count sw rule: edu_ring_loop.induct)
  case (1 q count sw)
  obtain sw1 where sw1: "edu_ring_process_one q sw = Inr sw1"
    using process_one_ok [OF "1.prems"] by blast
  then show ?case
    using "1.IH" [OF _ sw1] process_one_ring_size [OF sw1] "1.prems"
    by (subst edu_ring_loop.simps) auto
qed

lemma process_ok: "\<exists>sw'. edu_ring_process q sw = Inr sw'"
  using loop_ok [of sw q 0] by (cases sw) (auto simp: edu_ring_process_def)

text \<open>The sizes the handler accepts.\<close>

lemma ring_size_accepted:
  fixes val :: u64
  assumes "0 < val" and "val \<le> MAX_RING_SIZE" and "val AND (val - 1) = 0"
  shows "(ucast val :: u32) \<in> {1, 2, 4, 8, 16, 32, 64, 128, 256}"
proof -
  have check: "list_all (\<lambda>n. (of_nat n :: u64) AND (of_nat n - 1) = 0 \<longrightarrow>
      n \<in> {1, 2, 4, 8, 16, 32, 64, 128, 256}) [1..<257]"
    by code_simp
  have n: "0 < unat val" "unat val < 257"
    using assms by (simp_all add: word_less_nat_alt word_le_nat_alt unat_gt_0)
  then have "unat val \<in> {1, 2, 4, 8, 16, 32, 64, 128, 256}"
    using check assms(3) by (auto simp: list_all_iff)
  then have "(of_nat (unat val) :: u32) \<in> {1, 2, 4, 8, 16, 32, 64, 128, 256}"
    by (elim insertE emptyE) simp_all
  moreover have "(ucast val :: u32) = of_nat (unat val)" by simp
  ultimately show ?thesis by (simp only:)
qed

lemma tail_in_range:
  fixes val :: u64 and z :: u32
  assumes "z \<noteq> 0"
  shows "(ucast (val mod ucast z) :: u32) < z"
proof -
  have "unat (val mod ucast z) = unat val mod unat z"
    using unsigned_less [of z, where ?'a = nat]
    by (simp add: unat_mod unsigned_ucast_eq take_bit_nat_eq_self)
  moreover have "0 < unat z" using assms by (simp add: unat_gt_0)
  ultimately have "unat (val mod ucast z) < unat z" by simp
  then show ?thesis
    using unsigned_less [of z, where ?'a = nat]
    by (simp add: word_less_nat_alt unsigned_ucast_eq take_bit_nat_eq_self)
qed

lemma ring_write_inv:
  assumes "edu_ring_write q addr val sz sw = Inr sw'" and "ring_inv (fst sw)"
  shows "ring_inv (fst sw')"
proof -
  obtain s w where sw: "sw = (s, w)" by (cases sw)
  consider "addr = REG_RING_SIZE" | "addr = REG_RING_TAIL" | "addr = REG_RING_CTRL"
    | "addr \<noteq> REG_RING_SIZE" "addr \<noteq> REG_RING_TAIL" "addr \<noteq> REG_RING_CTRL" by blast
  then show ?thesis
  proof cases
    case 1
    show ?thesis
    proof (cases "val > 0 \<and> val \<le> MAX_RING_SIZE \<and> val AND (val - 1) = 0")
      case True
      then have "(ucast val :: u32) \<in> {1, 2, 4, 8, 16, 32, 64, 128, 256}"
        using ring_size_accepted by blast
      then show ?thesis using 1 True assms
        by (elim insertE emptyE) (auto simp: sw edu_ring_write_def ring_inv_def)
    next
      case False
      then show ?thesis using 1 assms by (auto simp: sw edu_ring_write_def)
    qed
  next
    case 2
    let ?s = "s\<lparr>ring_tail := ucast (val mod ucast (ring_size s))\<rparr>"
    have z: "ring_size s \<noteq> 0" using 2 assms(1) by (auto simp: sw edu_ring_write_def)
    then have "ring_inv ?s" using assms(2) tail_in_range by (simp add: sw ring_inv_def)
    then show ?thesis
      using 2 z assms(1) process_inv [of q "(?s, w)" sw']
      by (auto simp: sw edu_ring_write_def Let_def split: if_splits)
  next
    case 3
    let ?s = "s\<lparr>ring_enabled := ucast (val AND RING_CTRL_ENABLE)\<rparr>"
    have "(ucast (val AND 1) :: u32) \<le> 1"
      by (simp add: and_one_eq mod_2_eq_odd)
    then have "ring_inv ?s" using assms(2) by (simp add: sw ring_inv_def)
    then show ?thesis
      using 3 assms(1) process_inv [of q "(?s, w)" sw']
      by (auto simp: sw edu_ring_write_def Let_def split: if_splits)
  next
    case 4
    then show ?thesis using assms
      by (auto simp: sw edu_ring_write_def ring_inv_def split: if_splits)
  qed
qed

lemma ring_write_fault:
  "edu_ring_write q addr val sz (s, w) = Inl e \<longleftrightarrow>
   e = Div_By_Zero \<and> addr = REG_RING_TAIL \<and> ring_size s = 0"
  using process_ok [of q "(s\<lparr>ring_tail := ucast (val mod ucast (ring_size s))\<rparr>, w)"]
    process_ok [of q "(s\<lparr>ring_enabled := ucast (val AND RING_CTRL_ENABLE)\<rparr>, w)"]
  by (auto simp: edu_ring_write_def Let_def)

subsection \<open>Doorbell\<close>

context dma_bus
begin

lemma doorbell_runs:
  assumes "ring_inv s" and "ring_size s \<noteq> 0" and "ring_enabled s \<noteq> 0"
    and "s' = s\<lparr>ring_tail := ucast (val mod ucast (ring_size s))\<rparr>"
    and "ring_run q ram readable (ring_addr s) (ring_slots s') w = (rest, w')"
  shows "edu_ring_write q REG_RING_TAIL val 4 (s, w) =
         Inr (s'\<lparr>ring_head := (case rest of [] \<Rightarrow> ring_tail s' | i # _ \<Rightarrow> i)\<rparr>, w')"
proof -
  have z: "ring_head s' < ring_size s'" "ring_tail s' < ring_size s'"
    using assms(1-4) tail_in_range by (auto simp: ring_inv_def)
  then have "ring.dist (ring_size s') (ring_head s') (ring_tail s') + unat (0 :: u32) \<le> unat (ring_size s')"
    using ring.dist_less [of "ring_head s'" "ring_size s'" "ring_tail s'"]
    by (simp add: word_less_nat_alt)
  then have "edu_ring_loop q 0 (s', w) =
      Inr (s'\<lparr>ring_head := (case rest of [] \<Rightarrow> ring_tail s' | i # _ \<Rightarrow> i)\<rparr>, w')"
    using loop_runs [OF z, of 0 w rest w'] assms(4,5) by simp
  then show ?thesis
    using assms(2-4) by (simp add: edu_ring_write_def edu_ring_process_def Let_def)
qed

end

subsection \<open>Descriptors in memory\<close>

definition desc_bytes :: "DmaDescriptor \<Rightarrow> byte list" where
  "desc_bytes d = le_bytes 4 (src_addr_lo d) @ le_bytes 4 (src_addr_hi d) @
     le_bytes 4 (dst_addr_lo d) @ le_bytes 4 (dst_addr_hi d) @ le_bytes 4 (desc_length d) @
     le_bytes 4 (desc_flags d) @ le_bytes 4 (desc_status d) @ le_bytes 4 (desc_reserved d)"

lemma desc_of_desc_bytes [simp]: "desc_of_bytes (desc_bytes d) = d"
  by (simp add: desc_of_bytes_def desc_bytes_def subarr_def le_word_le_bytes)

context dma_bus
begin

text \<open>One descriptor at the head of an empty ring: the copy, the status and the pointers.\<close>

lemma ring_single_copy:
  assumes inv: "ring_inv s" "ring_size s \<noteq> 0" "ring_enabled s \<noteq> 0" "ring_size s \<noteq> 1"
    and empty: "ring_tail s = ring_head s"
    and a: "a = desc_addr s" "readable w a 32" "ram_bytes (ram w) a 32 = desc_bytes d"
    and valid: "desc_flags d AND DESC_FLAG_VALID \<noteq> 0" "n = unat (desc_len d)"
    and maps: "readable w (desc_src d) n" "writable w (desc_dst d) n" "writable w (a + 24) 4"
    and tail: "tail = (ring_head s + 1) mod ring_size s"
  shows "\<exists>w'. edu_ring_write q REG_RING_TAIL (ucast (ring_head s) + 1) 4 (s, w) =
           Inr (s\<lparr>ring_head := tail, ring_tail := tail\<rparr>, w') \<and>
         ram w' = ram_store (ram_store (ram w) (desc_dst d) (ram_bytes (ram w) (desc_src d) n))
           (a + 24) (le_bytes 4 DESC_STATUS_COMPLETE)"
proof -
  let ?h = "ring_head s" and ?z = "ring_size s"
  let ?s = "s\<lparr>ring_tail := tail\<rparr>"
  have h: "?h < ?z" "?z \<le> 256" using inv by (auto simp: ring_inv_def)
  have h1: "unat (?h + 1) = unat ?h + 1" using count_up_decreases(2) [OF h(1)] .
  have z64: "unat (ucast ?z :: u64) = unat ?z" "unat (ucast ?h :: u64) = unat ?h"
    using unsigned_less [of ?z, where ?'a = nat] unsigned_less [of ?h, where ?'a = nat]
    by (simp_all add: unsigned_ucast_eq take_bit_nat_eq_self)
  have small: "unat ?z \<le> 256" "unat ?h < 256" using h by (auto simp: word_le_nat_alt word_less_nat_alt)
  have "unat ((ucast ?h + 1 :: u64)) = unat ?h + 1"
    using small by (simp add: unat_word_ariths z64)
  then have m64: "unat ((ucast ?h + 1 :: u64) mod ucast ?z) = (unat ?h + 1) mod unat ?z"
    by (simp add: unat_mod z64)
  have "(unat ?h + 1) mod unat ?z < unat ?z" using inv by (intro mod_less_divisor) (simp add: unat_gt_0)
  then have "unat (ucast ((ucast ?h + 1 :: u64) mod ucast ?z) :: u32) = (unat ?h + 1) mod unat ?z"
    using small by (simp add: unsigned_ucast_eq m64 take_bit_nat_eq_self)
  then have t: "ucast ((ucast ?h + 1 :: u64) mod ucast ?z) = tail"
    by (simp add: word_eq_iff_unsigned [where ?'a = nat] tail unat_mod h1)
  have ne: "?h \<noteq> tail"
  proof
    assume "?h = tail"
    then have "unat ?h = (if unat ?h + 1 = unat ?z then 0 else unat ?h + 1)"
      using ring.pos_nxt [of ?h ?z] h tail by (simp add: word_less_nat_alt)
    then have "unat ?z = 1" by (simp split: if_splits)
    then show False using inv(4) by (simp add: word_eq_iff_unsigned [where ?'a = nat])
  qed
  have "ring_slots ?s = ?h # ring_slots (?s\<lparr>ring_head := tail\<rparr>)"
    using ring.slots_Cons [of ?h ?z tail] h ne ring.nxt_valid [of ?h ?z]
    by (simp add: ring_slots_def tail word_less_nat_alt)
  then have slots: "ring_slots ?s = [?h]" by (simp add: ring_slots_def)
  obtain w' where w': "ring_exec q ram readable (ring_addr s) ?h w = Some w'"
    "ram w' = ram_store (ram_store (ram w) (desc_dst d) (ram_bytes (ram w) (desc_src d) n))
           (a + 24) (le_bytes 4 DESC_STATUS_COMPLETE)"
    using a maps valid
    by (simp add: ring_exec_def desc_addr_def Let_def write_ram write_maps notify_frame)
  have "edu_ring_write q REG_RING_TAIL (ucast ?h + 1) 4 (s, w) = Inr (?s\<lparr>ring_head := tail\<rparr>, w')"
    using doorbell_runs [OF inv(1-3), of ?s "ucast ?h + 1" w "[]" w'] t slots w'(1) by simp
  then show ?thesis using w'(2) by simp
qed

end

subsection \<open>Properties\<close>

text \<open>A ring of four descriptors at 0x2000, the first of which copies 16 bytes from 0x100 to
  0x200 and asks for an interrupt; 64 KiB are mapped.\<close>

definition copy_desc :: DmaDescriptor where
  "copy_desc = \<lparr>src_addr_lo = 0x100, src_addr_hi = 0, dst_addr_lo = 0x200, dst_addr_hi = 0,
     desc_length = 16, desc_flags = 3, desc_status = 0, desc_reserved = 0\<rparr>"

definition ring_guest :: guest where
  "ring_guest = \<lparr>mem = ram_store (\<lambda>a. ucast a) 0x2000 (desc_bytes copy_desc),
     windows = [(0, 65536)], msix_on = True, vectors = [], intx = False\<rparr>"

definition ring_ready :: EduPciState where
  "ring_ready = edu_pci_init\<lparr>ring_addr := 0x2000, ring_size := 4, ring_enabled := 1\<rparr>"

lemma ring_guest_mapped: "mapped ring_guest a n \<longleftrightarrow> unat a + n \<le> 65536"
  by (simp add: mapped_def ring_guest_def)

lemma ring_ready_simps [simp]:
  "ring_inv ring_ready" "ring_size ring_ready = 4" "ring_enabled ring_ready = 1"
  "ring_addr ring_ready = 0x2000" "ring_head ring_ready = 0" "ring_tail ring_ready = 0"
  by (simp_all add: ring_ready_def ring_inv_def edu_pci_init_def)

lemma copy_desc_simps [simp]:
  "desc_src copy_desc = 0x100" "desc_dst copy_desc = 0x200" "desc_len copy_desc = 16"
  "desc_flags copy_desc = 3"
  by (simp_all add: copy_desc_def desc_src_def desc_dst_def desc_len_def)

lemma ring_guest_a24: "0x2018 = (0x2000 + 24 :: u64)"
  by simp

text \<open>C4. A doorbell on an enabled ring executes, in order from head to tail, the longest prefix
  of readable and valid descriptors (each as \<open>ring_exec\<close> says: copy, status write-back,
  optional interrupt), and leaves the head at the first descriptor it could not execute, or at
  the tail if there is none. It always returns.\<close>

theorem ring_doorbell_executes_prefix:
  assumes "dma_bus q ram readable writable"
    and "ring_inv s" and "ring_size s \<noteq> 0" and "ring_enabled s \<noteq> 0"
    and "s' = s\<lparr>ring_tail := ucast (val mod ucast (ring_size s))\<rparr>"
  shows "edu_ring_write q REG_RING_TAIL val 4 (s, w) =
         (case ring_run q ram readable (ring_addr s) (ring_slots s') w of
            (rest, w') \<Rightarrow>
              Inr (s'\<lparr>ring_head := (case rest of [] \<Rightarrow> ring_tail s' | i # _ \<Rightarrow> i)\<rparr>, w'))"
  using dma_bus.doorbell_runs [OF assms] by (auto split: prod.splits)

theorem ring_doorbell_executes_prefix_witness:
  "edu_ring_write guest_qemu REG_RING_TAIL 3 4 (ring_ready, ring_guest) =
   (case ring_run guest_qemu mem mapped 0x2000 (ring_slots (ring_ready\<lparr>ring_tail := 3\<rparr>)) ring_guest of
      (rest, w') \<Rightarrow>
        Inr (ring_ready\<lparr>ring_tail := 3, ring_head := (case rest of [] \<Rightarrow> 3 | i # _ \<Rightarrow> i)\<rparr>, w'))"
  using ring_doorbell_executes_prefix [OF guest_bus.dma_bus_axioms, of ring_ready
      "ring_ready\<lparr>ring_tail := 3\<rparr>" 3 ring_guest]
  by (simp split: prod.splits list.splits)

text \<open>A driver that puts one valid descriptor at the head of an empty, enabled ring of more
  than one slot and rings the doorbell with the next index finds the source buffer copied to the
  destination, the status word of the descriptor set to complete, and the ring empty again.\<close>

lemma ring_copies_descriptor:
  assumes "dma_bus q ram readable writable"
    and "ring_inv s" and "ring_size s \<noteq> 0" and "ring_enabled s \<noteq> 0" and "ring_size s \<noteq> 1"
    and "ring_tail s = ring_head s"
    and "a = desc_addr s" and "readable w a 32" and "ram_bytes (ram w) a 32 = desc_bytes d"
    and "desc_flags d AND DESC_FLAG_VALID \<noteq> 0" and "n = unat (desc_len d)"
    and "readable w (desc_src d) n" and "writable w (desc_dst d) n" and "writable w (a + 24) 4"
    and "tail = (ring_head s + 1) mod ring_size s"
  shows "\<exists>w'. edu_ring_write q REG_RING_TAIL (ucast (ring_head s) + 1) 4 (s, w) =
           Inr (s\<lparr>ring_head := tail, ring_tail := tail\<rparr>, w') \<and>
         ram w' = ram_store (ram_store (ram w) (desc_dst d) (ram_bytes (ram w) (desc_src d) n))
           (a + 24) (le_bytes 4 DESC_STATUS_COMPLETE)"
  by (rule dma_bus.ring_single_copy [OF assms])

lemma ring_copies_descriptor_example:
  "\<exists>w'. edu_ring_write guest_qemu REG_RING_TAIL (ucast (ring_head ring_ready) + 1) 4
          (ring_ready, ring_guest) =
        Inr (ring_ready\<lparr>ring_head := 1, ring_tail := 1\<rparr>, w') \<and>
      mem w' = ram_store (ram_store (mem ring_guest) 0x200 (ram_bytes (mem ring_guest) 0x100 16))
        0x2018 (le_bytes 4 DESC_STATUS_COMPLETE)"
proof -
  have "ram_bytes (mem ring_guest) 0x2000 32 = desc_bytes copy_desc"
    using ram_bytes_store_same [of "desc_bytes copy_desc" "\<lambda>a. ucast a" "0x2000"]
    by (simp add: ring_guest_def desc_bytes_def)
  then show ?thesis
    by (intro ring_copies_descriptor [OF guest_bus.dma_bus_axioms, where d = copy_desc and n = 16
          and s = ring_ready and tail = 1 and a = "0x2000" and w = ring_guest,
          unfolded copy_desc_simps, folded ring_guest_a24])
       (simp_all add: ring_guest_mapped desc_addr_def)
qed

text \<open>Whatever is written to BAR4, the ring pointers stay inside the ring, its size stays 0
  (not yet set) or a power of two of at most 256, and the enable flag stays 0 or 1.\<close>

lemma ring_write_keeps_invariant:
  assumes "ring_inv s" and "edu_ring_write q addr val sz (s, w) = Inr (s', w')"
  shows "ring_inv s'"
  using ring_write_inv [OF assms(2)] assms(1) by simp

lemma ring_write_keeps_invariant_example:
  "ring_inv (edu_pci_init\<lparr>ring_size := 8, ring_head := 0, ring_tail := 0\<rparr>)"
  by (rule ring_write_keeps_invariant [of edu_pci_init guest_qemu REG_RING_SIZE 8 4 ring_guest _
        ring_guest])
     (simp_all add: ring_inv_def edu_pci_init_def edu_ring_write_def)

text \<open>C18. A BAR4 write fails in exactly one case: a doorbell before the driver has set a ring size
  divides by zero, which kills the emulator. From the reset state a single guest write does it.\<close>

theorem ring_doorbell_without_size_faults:
  "edu_ring_write q addr val sz (s, w) = Inl e \<longleftrightarrow>
   e = Div_By_Zero \<and> addr = REG_RING_TAIL \<and> ring_size s = 0"
  by (rule ring_write_fault)

end
