(* ===== verification/Aes.thy ===== *)
theory Aes
  imports Aes_Tables
begin

text \<open>
  The AES-128 code of \<open>edu_pci.c\<close>: key expansion, the block encryption and decryption routines
  (one definition per step of their loops, on the 16-byte state array the C code mutates) and
  the proof that decryption inverts encryption under any key schedule.
\<close>

subsection \<open>Key expansion\<close>

text \<open>Iteration \<open>i\<close> of the loop of \<open>aes_key_expand\<close>, on the schedule array \<open>rk\<close>.\<close>

definition key_core :: "nat \<Rightarrow> byte list \<Rightarrow> byte list" where
  "key_core i t =
     (let tmp = t ! 0;
          t = t[0 := sbox (t ! 1) XOR rcon ! (i div 4 - 1)];
          t = t[1 := sbox (t ! 2)];
          t = t[2 := sbox (t ! 3)];
          t = t[3 := sbox tmp]
      in t)"

definition key_expand_step :: "nat \<Rightarrow> byte list \<Rightarrow> byte list" where
  "key_expand_step i rk =
     (let t = subarr ((i - 1) * 4) 4 rk;
          t = (if i mod 4 = 0 then key_core i t else t)
      in fold (\<lambda>j rk. rk[i * 4 + j := rk ! ((i - 4) * 4 + j) XOR t ! j]) [0..<4] rk)"

definition aes_key_expand :: "byte list \<Rightarrow> byte list \<Rightarrow> byte list" where
  "aes_key_expand key rk = fold key_expand_step [4..<44] (memcpy rk 0 (take 16 key))"

subsection \<open>The steps of a round\<close>

text \<open>\<open>s[i] ^= rk[off + i]\<close>, \<open>s[i] = aes_sbox[s[i]]\<close> and the in-place rotations of the rows.\<close>

definition add_round_key :: "nat \<Rightarrow> byte list \<Rightarrow> byte list \<Rightarrow> byte list" where
  "add_round_key off rk s = map (\<lambda>i. s ! i XOR rk ! (off + i)) [0..<16]"

definition sub_bytes :: "byte list \<Rightarrow> byte list" where
  "sub_bytes s = map (\<lambda>i. sbox (s ! i)) [0..<16]"

definition inv_sub_bytes :: "byte list \<Rightarrow> byte list" where
  "inv_sub_bytes s = map (\<lambda>i. inv_sbox (s ! i)) [0..<16]"

definition shift_rows :: "byte list \<Rightarrow> byte list" where
  "shift_rows s =
     (let t = s ! 1; s = s[1 := s ! 5]; s = s[5 := s ! 9]; s = s[9 := s ! 13]; s = s[13 := t];
          t = s ! 2; s = s[2 := s ! 10]; s = s[10 := t];
          t = s ! 6; s = s[6 := s ! 14]; s = s[14 := t];
          t = s ! 15; s = s[15 := s ! 11]; s = s[11 := s ! 7]; s = s[7 := s ! 3]; s = s[3 := t]
      in s)"

definition inv_shift_rows :: "byte list \<Rightarrow> byte list" where
  "inv_shift_rows s =
     (let t = s ! 13; s = s[13 := s ! 9]; s = s[9 := s ! 5]; s = s[5 := s ! 1]; s = s[1 := t];
          t = s ! 2; s = s[2 := s ! 10]; s = s[10 := t];
          t = s ! 6; s = s[6 := s ! 14]; s = s[14 := t];
          t = s ! 3; s = s[3 := s ! 7]; s = s[7 := s ! 11]; s = s[11 := s ! 15]; s = s[15 := t]
      in s)"

text \<open>One column of MixColumns and of its inverse, as the C expressions.\<close>

definition mix_column :: "byte \<Rightarrow> byte \<Rightarrow> byte \<Rightarrow> byte \<Rightarrow> byte list" where
  "mix_column a b cc d =
     [xtime a XOR xtime b XOR b XOR cc XOR d,
      a XOR xtime b XOR xtime cc XOR cc XOR d,
      a XOR b XOR xtime cc XOR xtime d XOR d,
      xtime a XOR a XOR b XOR cc XOR xtime d]"

definition inv_mix_column :: "byte \<Rightarrow> byte \<Rightarrow> byte \<Rightarrow> byte \<Rightarrow> byte list" where
  "inv_mix_column a b cc d =
     (let x2a = xtime a; x2b = xtime b; x2c = xtime cc; x2d = xtime d;
          x4a = xtime x2a; x4b = xtime x2b; x4c = xtime x2c; x4d = xtime x2d;
          x8a = xtime x4a; x8b = xtime x4b; x8c = xtime x4c; x8d = xtime x4d
      in [(x8a XOR x4a XOR x2a) XOR (x8b XOR x2b XOR b) XOR (x8c XOR x4c XOR cc) XOR (x8d XOR d),
          (x8a XOR a) XOR (x8b XOR x4b XOR x2b) XOR (x8c XOR x2c XOR cc) XOR (x8d XOR x4d XOR d),
          (x8a XOR x4a XOR a) XOR (x8b XOR b) XOR (x8c XOR x4c XOR x2c) XOR (x8d XOR x2d XOR d),
          (x8a XOR x2a XOR a) XOR (x8b XOR x4b XOR b) XOR (x8c XOR cc) XOR (x8d XOR x4d XOR x2d)])"

definition on_columns ::
  "(byte \<Rightarrow> byte \<Rightarrow> byte \<Rightarrow> byte \<Rightarrow> byte list) \<Rightarrow> byte list \<Rightarrow> byte list" where
  "on_columns f s =
     fold (\<lambda>i s. memcpy s (i * 4) (f (s ! (i * 4)) (s ! (i * 4 + 1)) (s ! (i * 4 + 2))
                                    (s ! (i * 4 + 3)))) [0..<4] s"

definition mix_columns :: "byte list \<Rightarrow> byte list" where
  "mix_columns = on_columns mix_column"

definition inv_mix_columns :: "byte list \<Rightarrow> byte list" where
  "inv_mix_columns = on_columns inv_mix_column"

subsection \<open>Blocks\<close>

definition enc_round :: "byte list \<Rightarrow> nat \<Rightarrow> byte list \<Rightarrow> byte list" where
  "enc_round rk r s = add_round_key (r * 16) rk (mix_columns (shift_rows (sub_bytes s)))"

definition aes_encrypt_block :: "byte list \<Rightarrow> byte list \<Rightarrow> byte list" where
  "aes_encrypt_block rk inp =
     (let s = take 16 inp;
          s = add_round_key 0 rk s;
          s = fold (enc_round rk) [1..<10] s;
          s = sub_bytes s;
          s = shift_rows s;
          s = add_round_key 160 rk s
      in s)"

definition dec_round :: "byte list \<Rightarrow> nat \<Rightarrow> byte list \<Rightarrow> byte list" where
  "dec_round rk r s =
     inv_mix_columns (add_round_key (r * 16) rk (inv_sub_bytes (inv_shift_rows s)))"

definition aes_decrypt_block :: "byte list \<Rightarrow> byte list \<Rightarrow> byte list" where
  "aes_decrypt_block rk inp =
     (let s = take 16 inp;
          s = add_round_key 160 rk s;
          s = fold (dec_round rk) (rev [1..<10]) s;
          s = inv_shift_rows s;
          s = inv_sub_bytes s;
          s = add_round_key 0 rk s
      in s)"

subsection \<open>Each step has its inverse\<close>

text \<open>A 16-byte state written out: the array steps then compute.\<close>

lemma list16E:
  assumes "length s = 16"
  obtains a0 a1 a2 a3 a4 a5 a6 a7 a8 a9 a10 a11 a12 a13 a14 a15
  where "s = [a0, a1, a2, a3, a4, a5, a6, a7, a8, a9, a10, a11, a12, a13, a14, a15]"
  using assms by (auto simp: numeral_eq_Suc length_Suc_conv)

lemma upt_16: "[0..<16] = [0, 1, 2, 3, 4, 5, 6, 7, 8, 9, 10, 11, 12, 13, 14, 15::nat]"
  by (simp add: upt_rec)

lemma upt_4: "[0..<4] = [0, 1, 2, 3::nat]"
  by (simp add: upt_rec)

lemma step_lengths [simp]:
  "length (add_round_key off rk s) = 16"
  "length (sub_bytes s) = 16"
  "length (inv_sub_bytes s) = 16"
  "length (shift_rows s) = length s"
  "length (inv_shift_rows s) = length s"
  by (simp_all add: add_round_key_def sub_bytes_def inv_sub_bytes_def shift_rows_def
      inv_shift_rows_def Let_def)

lemma length_mix_column [simp]:
  "length (mix_column a b c d) = 4" "length (inv_mix_column a b c d) = 4"
  by (simp_all add: mix_column_def inv_mix_column_def Let_def)

lemma on_columns_explicit:
  assumes "\<And>a b c d. length (f a b c d) = 4"
  shows "on_columns f [a0, a1, a2, a3, a4, a5, a6, a7, a8, a9, a10, a11, a12, a13, a14, a15] =
         f a0 a1 a2 a3 @ f a4 a5 a6 a7 @ f a8 a9 a10 a11 @ f a12 a13 a14 a15"
  using assms by (simp add: on_columns_def upt_4 memcpy_def nth_append)

lemma length_mix_columns [simp]:
  assumes "length s = 16"
  shows "length (mix_columns s) = 16" "length (inv_mix_columns s) = 16"
  by (rule list16E [OF assms];
      simp add: mix_columns_def inv_mix_columns_def on_columns_explicit)+

lemma add_round_key_twice [simp]:
  "length s = 16 \<Longrightarrow> add_round_key off rk (add_round_key off rk s) = s"
  by (rule nth_equalityI) (simp_all add: add_round_key_def xor.assoc)

lemma inv_sub_bytes_sub_bytes [simp]: "length s = 16 \<Longrightarrow> inv_sub_bytes (sub_bytes s) = s"
  by (rule nth_equalityI) (simp_all add: sub_bytes_def inv_sub_bytes_def)

lemma inv_shift_rows_shift_rows [simp]:
  "length s = 16 \<Longrightarrow> inv_shift_rows (shift_rows s) = s"
  by (erule list16E) (simp add: shift_rows_def inv_shift_rows_def)

lemma inv_mix_column_mix_column:
  "mix_column a b c d = [a', b', c', d'] \<Longrightarrow> inv_mix_column a' b' c' d' = [a, b, c, d]"
  by (auto simp: mix_column_def inv_mix_column_def Let_def xtime_xor xor.assoc xor.commute
      xor.left_commute)

lemma inv_mix_columns_mix_columns [simp]:
  "length s = 16 \<Longrightarrow> inv_mix_columns (mix_columns s) = s"
  by (erule list16E)
     (simp add: mix_columns_def inv_mix_columns_def on_columns_explicit,
      simp add: mix_column_def on_columns_explicit,
      simp add: inv_mix_column_mix_column mix_column_def)

subsection \<open>Decryption inverts encryption\<close>

lemma length_enc_round [simp]: "length (enc_round rk r s) = 16"
  by (simp add: enc_round_def)

lemma length_enc_rounds [simp]: "length s = 16 \<Longrightarrow> length (fold (enc_round rk) rs s) = 16"
  by (induction rs arbitrary: s) simp_all

lemma length_aes_encrypt_block [simp, len_simps]: "length (aes_encrypt_block rk inp) = 16"
  by (simp add: aes_encrypt_block_def Let_def)

lemma length_aes_decrypt_block [simp, len_simps]: "length (aes_decrypt_block rk inp) = 16"
  by (simp add: aes_decrypt_block_def Let_def)

text \<open>A decryption round takes back the last encryption round, past the SubBytes and ShiftRows
  that follow it.\<close>

lemma dec_round_enc_round:
  "length s = 16 \<Longrightarrow>
   dec_round rk r (shift_rows (sub_bytes (enc_round rk r s))) = shift_rows (sub_bytes s)"
  by (simp add: dec_round_def enc_round_def)

lemma dec_rounds_enc_rounds:
  "length s = 16 \<Longrightarrow>
   fold (dec_round rk) (rev rs) (shift_rows (sub_bytes (fold (enc_round rk) rs s))) =
   shift_rows (sub_bytes s)"
  by (induction rs rule: rev_induct) (simp_all add: dec_round_enc_round)

lemma aes_decrypt_encrypt:
  assumes "length b = 16"
  shows "aes_decrypt_block rk (aes_encrypt_block rk b) = b"
proof -
  let ?s = "add_round_key 0 rk b"
  have "aes_encrypt_block rk b =
        add_round_key 160 rk (shift_rows (sub_bytes (fold (enc_round rk) [1..<10] ?s)))"
    using assms by (simp add: aes_encrypt_block_def Let_def)
  then have "aes_decrypt_block rk (aes_encrypt_block rk b) =
        add_round_key 0 rk (inv_sub_bytes (inv_shift_rows (shift_rows (sub_bytes ?s))))"
    using dec_rounds_enc_rounds [of ?s rk "[1..<10]"] by (simp add: aes_decrypt_block_def Let_def)
  then show ?thesis using assms by simp
qed

subsection \<open>The key schedule array\<close>

lemma length_key_expand_step [simp]: "length (key_expand_step i rk) = length rk"
  by (simp add: key_expand_step_def upt_4 Let_def)

lemma length_key_expand_steps [simp]: "length (fold key_expand_step is rk) = length rk"
  by (induction "is" arbitrary: rk) simp_all

lemma length_aes_key_expand [simp, len_simps]:
  "length key = 16 \<Longrightarrow> length rk = 176 \<Longrightarrow> length (aes_key_expand key rk) = 176"
  by (simp add: aes_key_expand_def)

end
