(* ===== verification/Cbc.thy ===== *)
theory Cbc
  imports Aes
begin

text \<open>
  CBC mode of \<open>edu_pci.c\<close>: the encryption and decryption loops over the buffers, textbook CBC on
  lists of blocks, and the proofs, for any block cipher, that the loops compute textbook CBC and
  that decryption recovers the plaintext. \<open>aes\<close> interprets the cipher as the AES routines.

  The loop index of the C code is a \<open>uint32_t\<close> that steps by 16 up to \<open>len\<close>; its only callers
  bound \<open>len\<close> by \<open>DMA_MAX_LEN\<close>, so it does not wrap and is a natural number here.
\<close>

subsection \<open>The loops\<close>

function cbc_encrypt_loop ::
  "(byte list \<Rightarrow> byte list) \<Rightarrow> byte list \<Rightarrow> nat \<Rightarrow> nat \<Rightarrow> byte list \<Rightarrow> byte list \<Rightarrow> byte list" where
  "cbc_encrypt_loop encrypt inp len i prev out =
     (if i < len then
        (let block = map (\<lambda>j. inp ! (i + j) XOR prev ! j) [0..<16];
             out = memcpy out i (encrypt block);
             prev = subarr i 16 out
         in cbc_encrypt_loop encrypt inp len (i + 16) prev out)
      else out)"
  by pat_completeness auto
termination
  by (relation "measure (\<lambda>(e, inp, len, i, prev, out). len - i)") auto

function cbc_decrypt_loop ::
  "(byte list \<Rightarrow> byte list) \<Rightarrow> byte list \<Rightarrow> nat \<Rightarrow> nat \<Rightarrow> byte list \<Rightarrow> byte list \<Rightarrow> byte list" where
  "cbc_decrypt_loop decrypt inp len i prev out =
     (if i < len then
        (let block = decrypt (subarr i 16 inp);
             out = memcpy out i (map (\<lambda>j. block ! j XOR prev ! j) [0..<16]);
             prev = subarr i 16 inp
         in cbc_decrypt_loop decrypt inp len (i + 16) prev out)
      else out)"
  by pat_completeness auto
termination
  by (relation "measure (\<lambda>(d, inp, len, i, prev, out). len - i)") auto

declare cbc_encrypt_loop.simps [simp del] cbc_decrypt_loop.simps [simp del]

definition aes_cbc_encrypt ::
  "byte list \<Rightarrow> byte list \<Rightarrow> byte list \<Rightarrow> byte list \<Rightarrow> nat \<Rightarrow> byte list" where
  "aes_cbc_encrypt rk iv inp out len =
     cbc_encrypt_loop (aes_encrypt_block rk) inp len 0 (take 16 iv) out"

definition aes_cbc_decrypt ::
  "byte list \<Rightarrow> byte list \<Rightarrow> byte list \<Rightarrow> byte list \<Rightarrow> nat \<Rightarrow> byte list" where
  "aes_cbc_decrypt rk iv inp out len =
     cbc_decrypt_loop (aes_decrypt_block rk) inp len 0 (take 16 iv) out"

subsection \<open>Textbook CBC\<close>

definition xor_block :: "byte list \<Rightarrow> byte list \<Rightarrow> byte list" where
  "xor_block a b = map (\<lambda>j. a ! j XOR b ! j) [0..<16]"

fun cbc_enc :: "(byte list \<Rightarrow> byte list) \<Rightarrow> byte list \<Rightarrow> byte list list \<Rightarrow> byte list list" where
  "cbc_enc encrypt iv [] = []"
| "cbc_enc encrypt iv (b # bs) =
     (let c = encrypt (xor_block b iv) in c # cbc_enc encrypt c bs)"

fun cbc_dec :: "(byte list \<Rightarrow> byte list) \<Rightarrow> byte list \<Rightarrow> byte list list \<Rightarrow> byte list list" where
  "cbc_dec decrypt iv [] = []"
| "cbc_dec decrypt iv (c # cs) = xor_block (decrypt c) iv # cbc_dec decrypt c cs"

definition blocks :: "nat \<Rightarrow> nat \<Rightarrow> byte list \<Rightarrow> byte list list" where
  "blocks k n xs = map (\<lambda>i. subarr (16 * i) 16 xs) [k..<n]"

lemma length_xor_block [simp]: "length (xor_block a b) = 16"
  by (simp add: xor_block_def)

lemma xor_block_twice: "length a = 16 \<Longrightarrow> xor_block (xor_block a b) b = a"
  by (rule nth_equalityI) (simp_all add: xor_block_def xor.assoc)

lemma blocks_Cons: "k < n \<Longrightarrow> blocks k n xs = subarr (16 * k) 16 xs # blocks (Suc k) n xs"
  by (simp add: blocks_def upt_conv_Cons)

lemma concat_blocks: "16 * n \<le> length xs \<Longrightarrow> concat (blocks 0 n xs) = take (16 * n) xs"
proof (induction n)
  case (Suc n)
  then have "concat (blocks 0 (Suc n) xs) = take (16 * n) xs @ subarr (16 * n) 16 xs"
    by (simp add: blocks_def)
  then show ?case by (simp add: subarr_def take_add [symmetric] add.commute)
qed (simp add: blocks_def)

lemma length_concat_blocks:
  "\<forall>b \<in> set bs. length b = 16 \<Longrightarrow> length (concat bs) = 16 * length bs"
  by (induction bs) auto

lemma blocks_concat:
  assumes "\<forall>b \<in> set bs. length b = 16"
  shows "blocks 0 (length bs) (concat bs @ rest) = bs"
  using assms
proof (induction bs arbitrary: rest rule: rev_induct)
  case (snoc b bs)
  have "length (concat bs) = 16 * length bs"
    using snoc.prems by (intro length_concat_blocks) simp
  then show ?case
    using snoc.IH [of "b @ rest"] snoc.prems by (simp add: blocks_def subarr_def)
qed (simp add: blocks_def)

subsection \<open>The contract of a block cipher\<close>

locale block_cipher =
  fixes encrypt :: "byte list \<Rightarrow> byte list"
    and decrypt :: "byte list \<Rightarrow> byte list"
  assumes length_encrypt: "length (encrypt b) = 16"
    and length_decrypt: "length (decrypt b) = 16"
    and decrypt_encrypt: "length b = 16 \<Longrightarrow> decrypt (encrypt b) = b"
begin

lemma cbc_round_trip:
  assumes "\<forall>b \<in> set bs. length b = 16"
  shows "cbc_dec decrypt iv (cbc_enc encrypt iv bs) = bs"
  using assms
  by (induction bs arbitrary: iv) (simp_all add: Let_def decrypt_encrypt xor_block_twice)

lemma cbc_enc_lengths: "\<forall>c \<in> set (cbc_enc encrypt iv bs). length c = 16"
  by (induction bs arbitrary: iv) (auto simp: Let_def length_encrypt)

lemma cbc_enc_count: "length (cbc_enc encrypt iv bs) = length bs"
  by (induction bs arbitrary: iv) (simp_all add: Let_def)

lemma cbc_dec_lengths: "\<forall>c \<in> set (cbc_dec decrypt iv bs). length c = 16"
  by (induction bs arbitrary: iv) auto

lemma cbc_dec_count: "length (cbc_dec decrypt iv bs) = length bs"
  by (induction bs arbitrary: iv) simp_all

text \<open>The encryption loop from block \<open>k\<close>: what is before stays, the rest is textbook CBC.\<close>

lemma encrypt_loop:
  assumes "16 * n \<le> length inp" and "16 * n \<le> length out" and "k \<le> n"
  shows "cbc_encrypt_loop encrypt inp (16 * n) (16 * k) prev out =
         take (16 * k) out @ concat (cbc_enc encrypt prev (blocks k n inp)) @ drop (16 * n) out"
  using assms
proof (induction "n - k" arbitrary: k prev out)
  case 0
  then have "k = n" by simp
  then show ?case by (subst cbc_encrypt_loop.simps) (simp add: blocks_def)
next
  case (Suc d)
  then have k: "k < n" by simp
  define c where "c = encrypt (xor_block (subarr (16 * k) 16 inp) prev)"
  have c: "length c = 16" by (simp add: c_def length_encrypt)
  have block: "map (\<lambda>j. inp ! (16 * k + j) XOR prev ! j) [0..<16] =
               xor_block (subarr (16 * k) 16 inp) prev"
    using k Suc.prems by (auto simp: xor_block_def nth_subarr)
  have "cbc_encrypt_loop encrypt inp (16 * n) (16 * k) prev out =
        cbc_encrypt_loop encrypt inp (16 * n) (16 * Suc k) c (memcpy out (16 * k) c)"
    using k c Suc.prems
    by (subst cbc_encrypt_loop.simps)
       (simp add: block Let_def flip: c_def, simp add: subarr_memcpy_same add.commute)
  also have "\<dots> = take (16 * Suc k) (memcpy out (16 * k) c) @
      concat (cbc_enc encrypt c (blocks (Suc k) n inp)) @ drop (16 * n) (memcpy out (16 * k) c)"
    using Suc.hyps(1) [of "Suc k" "memcpy out (16 * k) c" c] Suc.hyps(2) Suc.prems k c by simp
  also have "take (16 * Suc k) (memcpy out (16 * k) c) = take (16 * k) out @ c"
    using k c Suc.prems by (simp add: memcpy_def)
  also have "drop (16 * n) (memcpy out (16 * k) c) = drop (16 * n) out"
    using k c Suc.prems by (simp add: memcpy_def)
  finally show ?case using k by (simp add: blocks_Cons Let_def c_def)
qed

lemma decrypt_loop:
  assumes "16 * n \<le> length inp" and "16 * n \<le> length out" and "k \<le> n"
  shows "cbc_decrypt_loop decrypt inp (16 * n) (16 * k) prev out =
         take (16 * k) out @ concat (cbc_dec decrypt prev (blocks k n inp)) @ drop (16 * n) out"
  using assms
proof (induction "n - k" arbitrary: k prev out)
  case 0
  then have "k = n" by simp
  then show ?case by (subst cbc_decrypt_loop.simps) (simp add: blocks_def)
next
  case (Suc d)
  then have k: "k < n" by simp
  define b where "b = subarr (16 * k) 16 inp"
  define p where "p = xor_block (decrypt b) prev"
  have p: "length p = 16" by (simp add: p_def)
  have "cbc_decrypt_loop decrypt inp (16 * n) (16 * k) prev out =
        cbc_decrypt_loop decrypt inp (16 * n) (16 * Suc k) b (memcpy out (16 * k) p)"
    using k by (subst cbc_decrypt_loop.simps)
       (simp add: Let_def p_def b_def xor_block_def add.commute)
  also have "\<dots> = take (16 * Suc k) (memcpy out (16 * k) p) @
      concat (cbc_dec decrypt b (blocks (Suc k) n inp)) @ drop (16 * n) (memcpy out (16 * k) p)"
    using Suc.hyps(1) [of "Suc k" "memcpy out (16 * k) p" b] Suc.hyps(2) Suc.prems k p by simp
  also have "take (16 * Suc k) (memcpy out (16 * k) p) = take (16 * k) out @ p"
    using k p Suc.prems by (simp add: memcpy_def)
  also have "drop (16 * n) (memcpy out (16 * k) p) = drop (16 * n) out"
    using k p Suc.prems by (simp add: memcpy_def)
  finally show ?case using k by (simp add: blocks_Cons p_def b_def)
qed

text \<open>Buffers: decrypting the output of an encryption gives back the input bytes.\<close>

lemma loop_round_trip:
  assumes "16 * n \<le> length inp" and "16 * n \<le> length out" and "16 * n \<le> length out'"
  shows "take (16 * n) (cbc_decrypt_loop decrypt (cbc_encrypt_loop encrypt inp (16 * n) 0 iv out)
           (16 * n) 0 iv out') = take (16 * n) inp"
proof -
  let ?cs = "cbc_enc encrypt iv (blocks 0 n inp)"
  let ?ct = "cbc_encrypt_loop encrypt inp (16 * n) 0 iv out"
  have ct: "?ct = concat ?cs @ drop (16 * n) out"
    using encrypt_loop [of n inp out 0 iv] assms by simp
  have lens: "\<forall>b \<in> set (blocks 0 n inp). length b = 16"
    using assms by (auto simp: blocks_def)
  have n: "length ?cs = n" by (simp add: cbc_enc_count blocks_def)
  have "length (concat ?cs) = 16 * n"
    using length_concat_blocks [OF cbc_enc_lengths [of iv "blocks 0 n inp"]] n by simp
  then have "16 * n \<le> length ?ct" by (simp add: ct)
  then have "take (16 * n) (cbc_decrypt_loop decrypt ?ct (16 * n) 0 iv out') =
             take (16 * n) (concat (cbc_dec decrypt iv (blocks 0 n ?ct)) @ drop (16 * n) out')"
    using decrypt_loop [of n ?ct out' 0 iv] assms by simp
  also have "blocks 0 n ?ct = ?cs"
    using blocks_concat [OF cbc_enc_lengths, of iv "blocks 0 n inp"] n by (simp add: ct)
  also have "cbc_dec decrypt iv ?cs = blocks 0 n inp" by (rule cbc_round_trip [OF lens])
  finally show ?thesis using assms by (simp add: concat_blocks)
qed

end

interpretation aes: block_cipher "aes_encrypt_block rk" "aes_decrypt_block rk" for rk
  by unfold_locales (simp_all add: aes_decrypt_encrypt)

end
