(* ===== verification/Edu_Crypto.thy ===== *)
theory Edu_Crypto
  imports Edu_Pf Cbc
begin

text \<open>
  BAR5 of \<open>edu_pci.c\<close>: the AES-128-CBC engine. Register reads and writes, the key and IV windows,
  and the command that reads a buffer from guest memory, runs CBC on it and writes it back.
\<close>

subsection \<open>Registers\<close>

abbreviation (input) REG_CRYPTO_ID :: u64 where "REG_CRYPTO_ID \<equiv> 0x00"
abbreviation (input) REG_CRYPTO_STATUS :: u64 where "REG_CRYPTO_STATUS \<equiv> 0x04"
abbreviation (input) REG_CRYPTO_SRC_LO :: u64 where "REG_CRYPTO_SRC_LO \<equiv> 0x08"
abbreviation (input) REG_CRYPTO_SRC_HI :: u64 where "REG_CRYPTO_SRC_HI \<equiv> 0x0C"
abbreviation (input) REG_CRYPTO_DST_LO :: u64 where "REG_CRYPTO_DST_LO \<equiv> 0x10"
abbreviation (input) REG_CRYPTO_DST_HI :: u64 where "REG_CRYPTO_DST_HI \<equiv> 0x14"
abbreviation (input) REG_CRYPTO_LEN :: u64 where "REG_CRYPTO_LEN \<equiv> 0x18"
abbreviation (input) REG_CRYPTO_CMD :: u64 where "REG_CRYPTO_CMD \<equiv> 0x1C"
abbreviation (input) REG_CRYPTO_KEY :: u64 where "REG_CRYPTO_KEY \<equiv> 0x20"
abbreviation (input) REG_CRYPTO_IV :: u64 where "REG_CRYPTO_IV \<equiv> 0x30"

abbreviation (input) CRYPTO_CMD_START :: u64 where "CRYPTO_CMD_START \<equiv> 1"
abbreviation (input) CRYPTO_CMD_ENCRYPT :: u64 where "CRYPTO_CMD_ENCRYPT \<equiv> 2"

subsection \<open>The key material in memory\<close>

text \<open>
  \<open>crypto_key[16]\<close>, \<open>crypto_iv[16]\<close> and \<open>round_keys[176]\<close> are adjacent byte arrays of the C
  structure, so a \<open>memcpy\<close> that runs past the end of one of the first two lands in the next. The
  accesses below go to the 208 bytes they form together.
\<close>

definition crypto_mem :: "EduPciState \<Rightarrow> byte list" where
  "crypto_mem s = crypto_key s @ crypto_iv s @ round_keys s"

definition put_crypto_mem :: "byte list \<Rightarrow> EduPciState \<Rightarrow> EduPciState" where
  "put_crypto_mem m s =
     s\<lparr>crypto_key := take 16 m, crypto_iv := subarr 16 16 m, round_keys := drop 32 m\<rparr>"

definition crypto_wf :: "EduPciState \<Rightarrow> bool" where
  "crypto_wf s \<longleftrightarrow> length (crypto_key s) = 16 \<and> length (crypto_iv s) = 16 \<and>
     length (round_keys s) = 176"

subsection \<open>BAR5 read\<close>

text \<open>
  The local \<open>val\<close> is uninitialised when \<open>size\<close> bytes of the IV are copied into it, so its
  remaining bytes are whatever the stack held; QEMU keeps the low \<open>size\<close> bytes of the result.
\<close>

definition edu_crypto_read :: "'w qemu \<Rightarrow> u64 \<Rightarrow> nat \<Rightarrow> EduPciState \<times> 'w \<Rightarrow> u64" where
  "edu_crypto_read q addr sz sw =
     (let (s, w) = sw in
      if addr = REG_CRYPTO_ID then 0x0ED0AE55
      else if addr = REG_CRYPTO_STATUS then ucast (1 OR push_bit 1 (crypto_busy s))
      else if addr = REG_CRYPTO_SRC_LO then get_lo (crypto_src s)
      else if addr = REG_CRYPTO_SRC_HI then get_hi (crypto_src s)
      else if addr = REG_CRYPTO_DST_LO then get_lo (crypto_dst s)
      else if addr = REG_CRYPTO_DST_HI then get_hi (crypto_dst s)
      else if addr = REG_CRYPTO_LEN then ucast (crypto_len s)
      else if addr = REG_CRYPTO_CMD then ucast (crypto_busy s)
      else if addr \<ge> REG_CRYPTO_IV \<and> addr < REG_CRYPTO_IV + 16 then
        (let idx = unat (addr - REG_CRYPTO_IV)
         in le_word (memcpy (uninit q 8 w) 0 (subarr (16 + idx) sz (crypto_mem s))))
      else 0xFFFFFFFF)"

subsection \<open>BAR5 write\<close>

text \<open>
  The command. The two local buffers of \<open>DMA_MAX_LEN\<close> bytes start uninitialised; the result code
  of the DMA read is ignored.
\<close>

definition edu_crypto_cmd :: "'w qemu \<Rightarrow> u64 \<Rightarrow> EduPciState \<times> 'w \<Rightarrow> EduPciState \<times> 'w" where
  "edu_crypto_cmd q val sw =
     (let (s, w) = sw in
      if val AND CRYPTO_CMD_START \<noteq> 0 \<and> crypto_busy s = 0 then
        (let buf = take 4096 (uninit q 8192 w);
             out = drop 4096 (uninit q 8192 w);
             len = crypto_len s;
             encrypt = (val AND CRYPTO_CMD_ENCRYPT \<noteq> 0);
             len = (if len > DMA_MAX_LEN then DMA_MAX_LEN else len)
         in if len mod 16 \<noteq> 0 then (s, w)
            else (let s = s\<lparr>crypto_busy := 1\<rparr>;
                      n = unat len;
                      (_, rbuf, w) = pci_dma_read q (crypto_src s) (take n buf) w;
                      buf = memcpy buf 0 rbuf;
                      out = (if encrypt
                             then aes_cbc_encrypt (round_keys s) (crypto_iv s) buf out n
                             else aes_cbc_decrypt (round_keys s) (crypto_iv s) buf out n);
                      (_, w) = pci_dma_write q (crypto_dst s) (take n out) w;
                      s = s\<lparr>crypto_busy := 0\<rparr>;
                      w = (if msix_enabled q w then msix_notify q 2 w else w)
                  in (s, w)))
      else (s, w))"

definition edu_crypto_write_key :: "nat \<Rightarrow> nat \<Rightarrow> u64 \<Rightarrow> EduPciState \<Rightarrow> EduPciState" where
  "edu_crypto_write_key idx sz val s =
     (let s = put_crypto_mem (memcpy (crypto_mem s) idx (take sz (le_bytes 8 val))) s
      in if idx + sz \<ge> 16
         then s\<lparr>round_keys := aes_key_expand (crypto_key s) (round_keys s)\<rparr>
         else s)"

definition edu_crypto_write ::
  "'w qemu \<Rightarrow> u64 \<Rightarrow> u64 \<Rightarrow> nat \<Rightarrow> EduPciState \<times> 'w \<Rightarrow> EduPciState \<times> 'w" where
  "edu_crypto_write q addr val sz sw =
     (let (s, w) = sw in
      if addr = REG_CRYPTO_SRC_LO then (s\<lparr>crypto_src := set_lo (crypto_src s) val\<rparr>, w)
      else if addr = REG_CRYPTO_SRC_HI then (s\<lparr>crypto_src := set_hi (crypto_src s) val\<rparr>, w)
      else if addr = REG_CRYPTO_DST_LO then (s\<lparr>crypto_dst := set_lo (crypto_dst s) val\<rparr>, w)
      else if addr = REG_CRYPTO_DST_HI then (s\<lparr>crypto_dst := set_hi (crypto_dst s) val\<rparr>, w)
      else if addr = REG_CRYPTO_LEN then (s\<lparr>crypto_len := ucast val\<rparr>, w)
      else if addr = REG_CRYPTO_CMD then edu_crypto_cmd q val (s, w)
      else if addr \<ge> REG_CRYPTO_KEY \<and> addr < REG_CRYPTO_KEY + 16 then
        (edu_crypto_write_key (unat (addr - REG_CRYPTO_KEY)) sz val s, w)
      else if addr \<ge> REG_CRYPTO_IV \<and> addr < REG_CRYPTO_IV + 16 then
        (let idx = unat (addr - REG_CRYPTO_IV)
         in (put_crypto_mem (memcpy (crypto_mem s) (16 + idx) (take sz (le_bytes 8 val))) s, w))
      else (s, w))"

lemmas edu_crypto_defs [mmio_defs] = edu_crypto_read_def edu_crypto_write_def


subsection \<open>The key memory\<close>

lemma crypto_mem_put [simp]: "32 \<le> length m \<Longrightarrow> crypto_mem (put_crypto_mem m s) = m"
  by (simp add: crypto_mem_def put_crypto_mem_def subarr_def)
     (metis add.commute append_take_drop_id drop_drop numeral_Bit0)

lemma length_crypto_mem [simp]: "crypto_wf s \<Longrightarrow> length (crypto_mem s) = 208"
  by (simp add: crypto_mem_def crypto_wf_def)

lemma crypto_wf_put [simp]: "length m = 208 \<Longrightarrow> crypto_wf (put_crypto_mem m s)"
  by (simp add: crypto_wf_def put_crypto_mem_def subarr_def)

lemma put_crypto_mem_frame [simp]:
  "crypto_src (put_crypto_mem m s) = crypto_src s"
  "crypto_dst (put_crypto_mem m s) = crypto_dst s"
  "crypto_len (put_crypto_mem m s) = crypto_len s"
  "crypto_busy (put_crypto_mem m s) = crypto_busy s"
  by (simp_all add: put_crypto_mem_def)

lemma crypto_mem_frame [simp]:
  "crypto_mem (s\<lparr>crypto_src := a\<rparr>) = crypto_mem s"
  "crypto_mem (s\<lparr>crypto_dst := a\<rparr>) = crypto_mem s"
  "crypto_mem (s\<lparr>crypto_len := n\<rparr>) = crypto_mem s"
  "crypto_wf (s\<lparr>crypto_src := a\<rparr>) = crypto_wf s"
  "crypto_wf (s\<lparr>crypto_dst := a\<rparr>) = crypto_wf s"
  "crypto_wf (s\<lparr>crypto_len := n\<rparr>) = crypto_wf s"
  "crypto_wf (s\<lparr>crypto_busy := n\<rparr>) = crypto_wf s"
  by (simp_all add: crypto_mem_def crypto_wf_def)

lemma take_le_bytes: "n \<le> m \<Longrightarrow> take n (le_bytes m x) = le_bytes n x"
  by (simp add: le_bytes_def take_map)

lemma le_word_le_bytes_4: "v < 0x100000000 \<Longrightarrow> (le_word (le_bytes 4 v) :: u64) = v"
  for v :: u64
  by (rule bit_word_eqI)
     (auto simp: bit_le_word le_bytes_def bit_simps dest: small_high_bits)

subsection \<open>Plain registers\<close>

definition crypto_regs :: "u64 set" where
  "crypto_regs = {REG_CRYPTO_SRC_LO, REG_CRYPTO_SRC_HI, REG_CRYPTO_DST_LO, REG_CRYPTO_DST_HI,
     REG_CRYPTO_LEN, 0x30, 0x34, 0x38, 0x3C}"

text \<open>An aligned IV word on the bus, and after a write of the same or of another word.\<close>

lemma iv_word:
  assumes "length m = 208" and "i \<le> 204"
  shows "bus_value 4 (le_word (memcpy u 0 (subarr i 4 m))) = le_word (subarr i 4 m)"
  using assms by (simp add: memcpy_def bus_value_le_word)

lemma iv_word_write:
  fixes v :: u64
  assumes "length m = 208" and "i \<le> 204" and "j \<le> 204" and "v < 0x100000000"
    and "i = j \<or> i + 4 \<le> j \<or> j + 4 \<le> i"
  shows "le_word (subarr i 4 (memcpy m j (take 4 (le_bytes 8 v)))) =
         (if i = j then v else le_word (subarr i 4 m))"
  using assms
  by (auto simp: subarr_memcpy_same subarr_memcpy_before subarr_memcpy_after take_le_bytes
      le_word_le_bytes_4)

interpretation pf_bar5: regfile
  "\<lambda>a sw. bus_value 4 (edu_crypto_read q a 4 sw)" "\<lambda>a v sw. Inr (edu_crypto_write q a v 4 sw)"
  crypto_regs "\<lambda>sw. crypto_wf (fst sw)"
  for q :: "'w qemu"
  by unfold_locales
     (unfold crypto_regs_def, elim insertE emptyE;
      simp add: edu_crypto_defs case_prod_beta Let_def iv_word iv_word_write bus_value_small)

end
