(* ===== verification/Aes_Spec.thy ===== *)
theory Aes_Spec
  imports Aes
begin

text \<open>
  AES-128 as the standard (FIPS 197) states it: arithmetic of polynomials over GF(2) modulo
  \<open>x^8 + x^4 + x^3 + x + 1\<close>, the S-box as inverse and affine map, the steps by row and column
  indices, the key schedule as a recursion on words. The C routines are shown to compute it.
\<close>

subsection \<open>The field\<close>

text \<open>
  \<open>mul_x\<close> multiplies a polynomial of degree at most 7 by \<open>x\<close> and reduces the 9-bit product by
  \<open>0x11b\<close>; \<open>gf_mul a b\<close> sums \<open>x^i b\<close> over the terms \<open>x^i\<close> of \<open>a\<close>.
\<close>

definition mul_x :: "byte \<Rightarrow> byte" where
  "mul_x b = (let p = push_bit 1 (ucast b :: 9 word)
              in ucast (if bit p 8 then p XOR 0x11b else p))"

definition gf_mul :: "byte \<Rightarrow> byte \<Rightarrow> byte" where
  "gf_mul a b = fold (\<lambda>i p. p XOR (if bit a i then (mul_x ^^ i) b else 0)) [0..<8] 0"

text \<open>The inverse of a byte, with 0 mapped to itself, and the affine map of the S-box.\<close>

definition gf_inverse :: "byte \<Rightarrow> byte \<Rightarrow> bool" where
  "gf_inverse x y \<longleftrightarrow> (if x = 0 then y = 0 else gf_mul x y = 1)"

definition rotl8 :: "nat \<Rightarrow> byte \<Rightarrow> byte" where
  "rotl8 n x = push_bit n (take_bit (8 - n) x) OR drop_bit (8 - n) x"

definition affine :: "byte \<Rightarrow> byte" where
  "affine x = x XOR rotl8 1 x XOR rotl8 2 x XOR rotl8 3 x XOR rotl8 4 x XOR 0x63"

text \<open>The inverse of the affine map.\<close>

definition inv_affine :: "byte \<Rightarrow> byte" where
  "inv_affine z = rotl8 1 z XOR rotl8 3 z XOR rotl8 6 z XOR 0x05"

subsection \<open>The cipher\<close>

definition st :: "byte list \<Rightarrow> nat \<Rightarrow> nat \<Rightarrow> byte" where
  "st s r c = s ! (r + 4 * c)"

definition of_rc :: "(nat \<Rightarrow> nat \<Rightarrow> byte) \<Rightarrow> byte list" where
  "of_rc f = map (\<lambda>k. f (k mod 4) (k div 4)) [0..<16]"

definition fips_sub_bytes :: "byte list \<Rightarrow> byte list" where
  "fips_sub_bytes s = of_rc (\<lambda>r c. sbox (st s r c))"

definition fips_shift_rows :: "byte list \<Rightarrow> byte list" where
  "fips_shift_rows s = of_rc (\<lambda>r c. st s r ((c + r) mod 4))"

definition fips_mix_columns :: "byte list \<Rightarrow> byte list" where
  "fips_mix_columns s = of_rc (\<lambda>r c.
     gf_mul 2 (st s r c) XOR gf_mul 3 (st s ((r + 1) mod 4) c) XOR
     st s ((r + 2) mod 4) c XOR st s ((r + 3) mod 4) c)"

definition fips_add_round_key :: "(nat \<Rightarrow> byte list) \<Rightarrow> nat \<Rightarrow> byte list \<Rightarrow> byte list" where
  "fips_add_round_key w rnd s = of_rc (\<lambda>r c. st s r c XOR w (4 * rnd + c) ! r)"

definition fips_cipher :: "(nat \<Rightarrow> byte list) \<Rightarrow> byte list \<Rightarrow> byte list" where
  "fips_cipher w inp =
     (let s = fips_add_round_key w 0 inp;
          s = fold (\<lambda>rnd s. fips_add_round_key w rnd
                (fips_mix_columns (fips_shift_rows (fips_sub_bytes s)))) [1..<10] s
      in fips_add_round_key w 10 (fips_shift_rows (fips_sub_bytes s)))"

subsection \<open>The key schedule\<close>

definition rot_word :: "byte list \<Rightarrow> byte list" where
  "rot_word w = [w ! 1, w ! 2, w ! 3, w ! 0]"

definition sub_word :: "byte list \<Rightarrow> byte list" where
  "sub_word w = map sbox w"

fun gf_pow2 :: "nat \<Rightarrow> byte" where
  "gf_pow2 0 = 1"
| "gf_pow2 (Suc n) = gf_mul 2 (gf_pow2 n)"

definition xor_word :: "byte list \<Rightarrow> byte list \<Rightarrow> byte list" where
  "xor_word a b = map (\<lambda>j. a ! j XOR b ! j) [0..<4]"

fun fips_w :: "byte list \<Rightarrow> nat \<Rightarrow> byte list" where
  "fips_w key i =
     (if i < 4 then subarr (4 * i) 4 key
      else let t = fips_w key (i - 1);
               t = (if i mod 4 = 0
                    then xor_word (sub_word (rot_word t)) [gf_pow2 (i div 4 - 1), 0, 0, 0]
                    else t)
           in xor_word (fips_w key (i - 4)) t)"

declare fips_w.simps [simp del]

subsection \<open>The tables and \<open>xtime\<close> are the field operations\<close>

lemma upt_8: "[0..<8] = [0, 1, 2, 3, 4, 5, 6, 7::nat]"
  by (simp add: upt_rec)

lemma byte_bit_high [simp]: "8 \<le> n \<Longrightarrow> \<not> bit (x :: byte) n"
  using bit_imp_le_length [of x n] by auto

lemma mul_x_xtime: "mul_x = xtime"
proof
  fix b :: byte
  show "mul_x b = xtime b"
    by (rule byte_rows, simp only: upt_16 list.pred_inject) (simp add: mul_x_def xtime_simps)
qed

lemma gf_mul_xtime:
  "gf_mul a b =
     (if bit a 0 then b else 0) XOR
     (if bit a 1 then xtime b else 0) XOR
     (if bit a 2 then xtime (xtime b) else 0) XOR
     (if bit a 3 then xtime (xtime (xtime b)) else 0) XOR
     (if bit a 4 then xtime (xtime (xtime (xtime b))) else 0) XOR
     (if bit a 5 then xtime (xtime (xtime (xtime (xtime b)))) else 0) XOR
     (if bit a 6 then xtime (xtime (xtime (xtime (xtime (xtime b))))) else 0) XOR
     (if bit a 7 then xtime (xtime (xtime (xtime (xtime (xtime (xtime b)))))) else 0)"
  by (simp add: gf_mul_def mul_x_xtime upt_8 numeral_eq_Suc xor.assoc)

lemma gf_mul_2: "gf_mul 2 x = xtime x"
  by (simp add: gf_mul_xtime)

lemma gf_mul_3: "gf_mul 3 x = xtime x XOR x"
  by (simp add: gf_mul_xtime xor.commute)

text \<open>The S-box, checked byte by byte in four blocks of four rows.\<close>

definition sbox_ok :: "byte \<Rightarrow> bool" where
  "sbox_ok x \<longleftrightarrow> gf_inverse x (inv_affine (sbox x)) \<and> affine (inv_affine (sbox x)) = sbox x"

definition row_ok :: "nat \<Rightarrow> bool" where
  "row_ok r = list_all (\<lambda>c. sbox_ok (of_nat (16 * r + c))) [0..<16]"

lemmas row_eval = row_ok_def upt_16 list.pred_inject
lemmas sbox_eval = sbox_ok_def sbox_simps xtime_simps gf_inverse_def gf_mul_xtime inv_affine_def
  affine_def rotl8_def

lemma rows_0_3: "row_ok 0 \<and> row_ok 1 \<and> row_ok 2 \<and> row_ok 3"
  by (simp only: row_eval) (simp add: sbox_eval)

lemma rows_4_7: "row_ok 4 \<and> row_ok 5 \<and> row_ok 6 \<and> row_ok 7"
  by (simp only: row_eval) (simp add: sbox_eval)

lemma rows_8_11: "row_ok 8 \<and> row_ok 9 \<and> row_ok 10 \<and> row_ok 11"
  by (simp only: row_eval) (simp add: sbox_eval)

lemma rows_12_15: "row_ok 12 \<and> row_ok 13 \<and> row_ok 14 \<and> row_ok 15"
  by (simp only: row_eval) (simp add: sbox_eval)

lemma sbox_affine_inverse: "sbox_ok x"
proof (rule byte_rows)
  have "list_all row_ok [0..<16]"
    using rows_0_3 rows_4_7 rows_8_11 rows_12_15 by (simp only: upt_16 list.pred_inject)
  then show "list_all (\<lambda>r. list_all (\<lambda>c. sbox_ok (of_nat (16 * r + c))) [0..<16]) [0..<16]"
    by (simp only: row_ok_def [abs_def])
qed

subsection \<open>The C steps are the steps of the standard\<close>

lemma of_rc_nth: "k < 16 \<Longrightarrow> of_rc f ! k = f (k mod 4) (k div 4)"
  by (simp add: of_rc_def)

lemma st_nth: "st s (k mod 4) (k div 4) = s ! k"
  by (simp add: st_def)

lemma length_of_rc [simp]: "length (of_rc f) = 16"
  by (simp add: of_rc_def)

lemma length_fips_add_round_key [simp]: "length (fips_add_round_key w rnd s) = 16"
  by (simp add: fips_add_round_key_def)

lemma sub_bytes_fips: "sub_bytes s = fips_sub_bytes s"
  by (simp add: sub_bytes_def fips_sub_bytes_def of_rc_def st_nth)

lemma shift_rows_fips: "length s = 16 \<Longrightarrow> shift_rows s = fips_shift_rows s"
  by (erule list16E) (simp add: shift_rows_def fips_shift_rows_def of_rc_def st_def upt_16)

lemma mix_columns_fips: "length s = 16 \<Longrightarrow> mix_columns s = fips_mix_columns s"
  by (erule list16E)
     (simp add: mix_columns_def on_columns_explicit mix_column_def fips_mix_columns_def of_rc_def
      st_def upt_16 gf_mul_2 gf_mul_3 xor.assoc xor.commute xor.left_commute)

lemma add_round_key_fips:
  assumes "\<And>i. i < 44 \<Longrightarrow> w i = subarr (4 * i) 4 rk" and "rnd \<le> 10" and "length rk = 176"
  shows "add_round_key (rnd * 16) rk s = fips_add_round_key w rnd s"
proof (rule nth_equalityI)
  fix k assume "k < length (add_round_key (rnd * 16) rk s)"
  then have k: "k < 16" by simp
  then have "4 * rnd + k div 4 < 44" using assms(2) by auto
  moreover have "4 * (4 * rnd + k div 4) + k mod 4 = rnd * 16 + k" by simp
  ultimately have "w (4 * rnd + k div 4) ! (k mod 4) = rk ! (rnd * 16 + k)"
    using assms by (simp add: nth_subarr algebra_simps)
  then show "add_round_key (rnd * 16) rk s ! k = fips_add_round_key w rnd s ! k"
    using k by (simp add: add_round_key_def fips_add_round_key_def of_rc_nth st_nth)
qed (simp add: fips_add_round_key_def of_rc_def)

lemma aes_encrypt_block_fips:
  assumes w: "\<And>i. i < 44 \<Longrightarrow> w i = subarr (4 * i) 4 rk"
    and rk: "length rk = 176" and b: "length b = 16"
  shows "aes_encrypt_block rk b = fips_cipher w b"
proof -
  note ark = add_round_key_fips [OF w _ rk]
  have rounds: "fold (enc_round rk) rs s = fold (\<lambda>rnd s. fips_add_round_key w rnd
      (fips_mix_columns (fips_shift_rows (fips_sub_bytes s)))) rs s"
    if "\<forall>r \<in> set rs. r \<le> 10" "length s = 16" for rs s
    using that
  proof (induction rs arbitrary: s)
    case (Cons r rs)
    have "enc_round rk r s =
          fips_add_round_key w r (fips_mix_columns (fips_shift_rows (fips_sub_bytes s)))"
      using Cons.prems
      by (simp add: enc_round_def ark mix_columns_fips shift_rows_fips fips_shift_rows_def
          flip: sub_bytes_fips)
    then show ?case using Cons.IH [of "enc_round rk r s"] Cons.prems by simp
  qed simp
  have "add_round_key 0 rk b = fips_add_round_key w 0 b" using ark [of 0 b] by simp
  moreover have "length (fips_add_round_key w 0 b) = 16"
    by (simp add: fips_add_round_key_def of_rc_def)
  moreover have "add_round_key 160 rk s = fips_add_round_key w 10 s" for s
    using ark [of 10 s] by simp
  ultimately show ?thesis
    using b by (simp add: aes_encrypt_block_def fips_cipher_def Let_def rounds shift_rows_fips
        flip: sub_bytes_fips)
qed

subsection \<open>The C key expansion is the key schedule of the standard\<close>

lemma gf_pow2_numeral: "gf_pow2 (numeral v) = xtime (gf_pow2 (pred_numeral v))"
  by (simp add: numeral_eq_Suc gf_mul_2)

lemma rcon_gf_pow2:
  assumes "k < 10"
  shows "rcon ! k = gf_pow2 k"
proof -
  have "rcon = map gf_pow2 [0, 1, 2, 3, 4, 5, 6, 7, 8, 9]"
    by (simp add: rcon_def gf_pow2_numeral gf_mul_2 xtime_simps)
  also have "[0, 1, 2, 3, 4, 5, 6, 7, 8, 9] = [0..<10::nat]" by (simp add: upt_rec)
  finally have "rcon ! k = map gf_pow2 [0..<10] ! k" by (rule arg_cong)
  also have "\<dots> = gf_pow2 ([0..<10] ! k)" using assms by (intro nth_map) simp
  also have "[0..<10] ! k = k" using assms nth_upt [of 0 k 10] by simp
  finally show ?thesis .
qed

lemma key_expand_step_memcpy:
  assumes "4 \<le> i" and "i < 44" and "length rk = 176"
  shows "key_expand_step i rk = memcpy rk (4 * i)
     (xor_word (subarr (4 * (i - 4)) 4 rk)
       (let t = subarr (4 * (i - 1)) 4 rk in if i mod 4 = 0 then key_core i t else t))"
proof -
  define a where "a = 4 * i"
  obtain d where i: "i = d + 4" using assms(1) le_Suc_ex by (metis add.commute)
  have lists: "rk[a := x0, a + 1 := x1, a + 2 := x2, a + 3 := x3] = memcpy rk a [x0, x1, x2, x3]"
    if "a + 4 \<le> length rk" for x0 x1 x2 x3
    using that by (intro nth_equalityI) (auto simp: nth_memcpy nth_list_update nth_Cons')
  show ?thesis
    using assms lists [unfolded a_def]
    by (simp add: key_expand_step_def Let_def upt_4 i xor_word_def nth_subarr algebra_simps)
qed

lemma key_core_word:
  assumes "length t = 4" and "4 \<le> i" and "i < 44" and "i mod 4 = 0"
  shows "key_core i t = xor_word (sub_word (rot_word t)) [gf_pow2 (i div 4 - 1), 0, 0, 0]"
proof -
  have "i div 4 - 1 < 10" using assms(2,3) by auto
  moreover obtain a b c d where "t = [a, b, c, d]"
    using assms(1) by (auto simp: numeral_eq_Suc length_Suc_conv)
  ultimately show ?thesis
    by (simp add: key_core_def Let_def xor_word_def sub_word_def rot_word_def upt_4 rcon_gf_pow2)
qed

lemma length_fips_w: "length key = 16 \<Longrightarrow> length (fips_w key i) = 4"
  by (subst fips_w.simps) (simp add: Let_def xor_word_def)

lemma length_xor_word [simp]: "length (xor_word a b) = 4"
  by (simp add: xor_word_def)

text \<open>After the iterations below \<open>m\<close>, the first \<open>m\<close> words of the array are the schedule.\<close>

lemma key_schedule_prefix:
  assumes key: "length key = 16" and rk: "length rk = 176" and "4 \<le> m" and "m \<le> 44" and "i < m"
  shows "subarr (4 * i) 4 (fold key_expand_step [4..<m] (memcpy rk 0 key)) = fips_w key i"
  using assms(3-5)
proof (induction m arbitrary: i)
  case (Suc m)
  show ?case
  proof (cases "m < 4")
    case True
    then have "i < 4" "[4..<Suc m] = []" using Suc.prems by auto
    then show ?thesis
      using key rk by (subst fips_w.simps) (auto simp: subarr_def memcpy_def drop_take)
  next
    case False
    let ?r = "fold key_expand_step [4..<m] (memcpy rk 0 key)"
    have len: "length ?r = 176" using key rk by simp
    have IH: "subarr (4 * j) 4 ?r = fips_w key j" if "j < m" for j
      using Suc.IH [of j] False Suc.prems that by simp
    define t where "t = fips_w key (m - 1)"
    define v where "v = xor_word (fips_w key (m - 4)) (if m mod 4 = 0 then key_core m t else t)"
    have step: "key_expand_step m ?r = memcpy ?r (4 * m) v"
      using key_expand_step_memcpy [of m ?r] False Suc.prems len
      by (simp add: IH v_def t_def Let_def)
    have v: "v = fips_w key m"
      using False Suc.prems key_core_word [of t m] length_fips_w [OF key, of "m - 1"]
      by (subst fips_w.simps) (simp add: v_def t_def Let_def)
    have lv: "length v = 4" by (simp add: v_def)
    have fits: "4 * m + length v \<le> length ?r" using len Suc.prems lv by simp
    have "fold key_expand_step [4..<Suc m] (memcpy rk 0 key) = memcpy ?r (4 * m) v"
      using False step by simp
    moreover have "subarr (4 * i) 4 (memcpy ?r (4 * m) v) = fips_w key i"
    proof (cases "i = m")
      case True
      then show ?thesis using subarr_memcpy_same [OF fits, of 4] lv v by simp
    next
      case False
      then have "subarr (4 * i) 4 (memcpy ?r (4 * m) v) = subarr (4 * i) 4 ?r"
        using Suc.prems fits by (intro subarr_memcpy_before) auto
      then show ?thesis using IH [of i] False Suc.prems by simp
    qed
    ultimately show ?thesis by (simp only:)
  qed
qed simp

lemma aes_key_expand_fips:
  assumes "length key = 16" and "length rk = 176" and "i < 44"
  shows "subarr (4 * i) 4 (aes_key_expand key rk) = fips_w key i"
  using key_schedule_prefix [of key rk 44 i] assms by (simp add: aes_key_expand_def)

end
