(* ===== verification/Crypto_Engine.thy ===== *)
theory Crypto_Engine
  imports Edu_Crypto Aes_Spec
begin

text \<open>
  What the BAR5 engine computes: the command is textbook CBC over the block cipher, applied to
  the source buffer in guest memory and stored at the destination; a key written word by word
  yields the FIPS-197 key schedule; decryption of the result of an encryption is the input; the
  key cannot be read back.
\<close>

subsection \<open>The CBC routines on buffers\<close>

definition textbook_cbc :: "bool \<Rightarrow> byte list \<Rightarrow> byte list \<Rightarrow> byte list \<Rightarrow> byte list" where
  "textbook_cbc encrypt rk iv inp = concat
     ((if encrypt then cbc_enc (aes_encrypt_block rk) else cbc_dec (aes_decrypt_block rk))
        iv (blocks 0 (length inp div 16) inp))"

lemma blocks_take: "16 * n \<le> length xs \<Longrightarrow> blocks 0 n (take (16 * n) xs) = blocks 0 n xs"
  by (auto simp: blocks_def subarr_def drop_take min_def)

lemma length_textbook_cbc: "length inp = 16 * n \<Longrightarrow> length (textbook_cbc e rk iv inp) = 16 * n"
  unfolding textbook_cbc_def
  using length_concat_blocks [OF aes.cbc_enc_lengths [of rk iv "blocks 0 n inp"]]
    length_concat_blocks [OF aes.cbc_dec_lengths [of rk iv "blocks 0 n inp"]]
  by (simp add: aes.cbc_enc_count aes.cbc_dec_count blocks_def)

lemma aes_cbc_textbook:
  assumes "16 * n \<le> length inp" and "16 * n \<le> length out" and "length iv = 16"
  shows "take (16 * n) (if e then aes_cbc_encrypt rk iv inp out (16 * n)
                             else aes_cbc_decrypt rk iv inp out (16 * n)) =
         textbook_cbc e rk iv (take (16 * n) inp)"
  using assms aes.encrypt_loop [of n inp out 0 rk iv] aes.decrypt_loop [of n inp out 0 rk iv]
    length_textbook_cbc [of "take (16 * n) inp" n e rk iv]
  by (cases e) (simp_all add: aes_cbc_encrypt_def aes_cbc_decrypt_def textbook_cbc_def blocks_take)

lemma textbook_cbc_inverse:
  assumes "length inp = 16 * n"
  shows "textbook_cbc False rk iv (textbook_cbc True rk iv inp) = inp"
proof -
  let ?cs = "cbc_enc (aes_encrypt_block rk) iv (blocks 0 n inp)"
  have n: "length ?cs = n" by (simp add: aes.cbc_enc_count blocks_def)
  have l: "length (textbook_cbc True rk iv inp) = 16 * n"
    by (rule length_textbook_cbc [OF assms])
  have "blocks 0 n (concat ?cs) = ?cs"
    using blocks_concat [OF aes.cbc_enc_lengths, of rk iv "blocks 0 n inp" "[]"] n by simp
  then have "textbook_cbc False rk iv (textbook_cbc True rk iv inp) =
             concat (cbc_dec (aes_decrypt_block rk) iv ?cs)"
    using l assms by (simp add: textbook_cbc_def)
  also have "\<dots> = concat (blocks 0 n inp)"
    using assms by (subst aes.cbc_round_trip) (auto simp: blocks_def)
  finally show ?thesis using assms by (simp add: concat_blocks)
qed

subsection \<open>The command\<close>

definition crypto_ready :: "EduPciState \<Rightarrow> nat \<Rightarrow> bool" where
  "crypto_ready s n \<longleftrightarrow> crypto_wf s \<and> crypto_busy s = 0 \<and> n mod 16 = 0 \<and>
     n = unat (min (crypto_len s) DMA_MAX_LEN)"

definition crypto_result :: "u64 \<Rightarrow> EduPciState \<Rightarrow> byte list \<Rightarrow> byte list" where
  "crypto_result val s inp =
     textbook_cbc (val AND CRYPTO_CMD_ENCRYPT \<noteq> 0) (round_keys s) (crypto_iv s) inp"

context dma_bus
begin

lemma crypto_cmd:
  assumes "crypto_ready s n" and "val AND CRYPTO_CMD_START \<noteq> 0" and "readable w (crypto_src s) n"
  shows "edu_crypto_cmd q val (s, w) =
    (s, let w1 = snd (pci_dma_write q (crypto_dst s)
                   (crypto_result val s (ram_bytes (ram w) (crypto_src s) n)) w)
        in if msix_enabled q w1 then msix_notify q 2 w1 else w1)"
proof -
  obtain k where n: "n = 16 * k" using assms(1) by (auto simp: crypto_ready_def elim: dvdE)
  define len where "len = (if crypto_len s > DMA_MAX_LEN then DMA_MAX_LEN else crypto_len s)"
  have len: "unat len = n" "n \<le> 4096" "len mod 16 = 0"
    using assms(1)
    by (auto simp: crypto_ready_def len_def min_def word_le_nat_alt word_less_nat_alt
        word_arith_nat_mod split: if_splits)
  define buf where "buf = memcpy (take 4096 (uninit q 8192 w)) 0 (ram_bytes (ram w) (crypto_src s) n)"
  define out where "out = drop 4096 (uninit q 8192 w)"
  have buf: "length buf = 4096" "take n buf = ram_bytes (ram w) (crypto_src s) n"
    using len by (simp_all add: buf_def uninit_length memcpy_def)
  have out: "length out = 4096" by (simp add: out_def uninit_length)
  let ?e = "val AND CRYPTO_CMD_ENCRYPT \<noteq> 0"
  have result: "take n (if ?e then aes_cbc_encrypt (round_keys s) (crypto_iv s) buf out n
                        else aes_cbc_decrypt (round_keys s) (crypto_iv s) buf out n) =
                crypto_result val s (ram_bytes (ram w) (crypto_src s) n)"
    using aes_cbc_textbook [of k buf out "crypto_iv s" ?e "round_keys s", folded n] len buf out
      assms(1)
    by (simp add: crypto_result_def crypto_ready_def crypto_wf_def)
  have rd: "pci_dma_read q (crypto_src s) (take n (uninit q 8192 w)) w =
            (MEMTX_OK, ram_bytes (ram w) (crypto_src s) n, w)"
    using read_mapped [of w "crypto_src s" "take n (uninit q 8192 w)"] assms(3) len(2)
    by (simp add: uninit_length)
  have idle: "crypto_busy s = 0" using assms(1) by (simp add: crypto_ready_def)
  have restore: "s\<lparr>crypto_busy := 1, crypto_busy := 0\<rparr> = s" using idle by simp
  show ?thesis
    using result len(2) restore
    by (cases "val AND CRYPTO_CMD_ENCRYPT = 0")
       (simp_all add: edu_crypto_cmd_def len_def [symmetric] len(1,3) rd buf_def [symmetric]
        out_def [symmetric] idle assms(2) case_prod_beta Let_def min_absorb1)
qed

end

lemma crypto_cmd_rejected:
  assumes "val AND CRYPTO_CMD_START = 0 \<or> crypto_busy s \<noteq> 0 \<or> min (crypto_len s) DMA_MAX_LEN mod 16 \<noteq> 0"
  shows "edu_crypto_cmd q val (s, w) = (s, w)"
proof -
  define len where "len = (if crypto_len s > DMA_MAX_LEN then DMA_MAX_LEN else crypto_len s)"
  have "len = min (crypto_len s) DMA_MAX_LEN" by (auto simp: len_def min_def not_less not_le)
  with assms have "val AND CRYPTO_CMD_START = 0 \<or> crypto_busy s \<noteq> 0 \<or> len mod 16 \<noteq> 0" by simp
  then show ?thesis
    by (elim disjE) (simp_all add: edu_crypto_cmd_def Let_def flip: len_def)
qed

subsection \<open>Programming the engine\<close>

abbreviation crypto_writes ::
  "'w qemu \<Rightarrow> (u64 \<times> u64) list \<Rightarrow> EduPciState \<times> 'w \<Rightarrow> (EduPciState \<times> 'w) res" where
  "crypto_writes q \<equiv> mmio_writes (\<lambda>a v sw. Inr (edu_crypto_write q a v 4 sw))"

text \<open>Sixteen bytes written as four words from register \<open>r\<close> on.\<close>

definition window_program :: "u64 \<Rightarrow> byte list \<Rightarrow> (u64 \<times> u64) list" where
  "window_program r bs = [(r, le_word (subarr 0 4 bs)), (r + 4, le_word (subarr 4 4 bs)),
     (r + 8, le_word (subarr 8 4 bs)), (r + 12, le_word (subarr 12 4 bs))]"

definition crypto_program :: "u64 \<Rightarrow> u64 \<Rightarrow> nat \<Rightarrow> u64 \<Rightarrow> (u64 \<times> u64) list" where
  "crypto_program a b n cmd =
     [(REG_CRYPTO_SRC_LO, get_lo a), (REG_CRYPTO_SRC_HI, get_hi a),
      (REG_CRYPTO_DST_LO, get_lo b), (REG_CRYPTO_DST_HI, get_hi b),
      (REG_CRYPTO_LEN, of_nat n), (REG_CRYPTO_CMD, cmd)]"

lemma take4_le_bytes_word: "length bs = 4 \<Longrightarrow> take 4 (le_bytes 8 (le_word bs :: u64)) = bs"
  by (rule nth_equalityI)
     (auto intro!: bit_word_eqI simp: le_bytes_def bit_simps bit_le_word)

lemma split_16: "length bs = 16 \<Longrightarrow>
  subarr 0 4 bs @ subarr 4 4 bs @ subarr 8 4 bs @ subarr 12 4 bs @ xs = bs @ xs"
  by (erule list16E) (simp add: subarr_def)

lemma memcpy_words:
  assumes "o16 + 16 \<le> length m" "length a = 4" "length b = 4" "length c = 4" "length d = 4"
  shows "memcpy (memcpy (memcpy (memcpy m o16 a) (o16 + 4) b) (o16 + 8) c) (o16 + 12) d =
         memcpy m o16 (a @ b @ c @ d)"
  using assms by (simp add: memcpy_def add.commute)

lemma put_crypto_mem_twice [simp]: "put_crypto_mem m (put_crypto_mem m' s) = put_crypto_mem m s"
  by (simp add: put_crypto_mem_def)

lemma put_crypto_mem_key:
  "crypto_wf s \<Longrightarrow> length key = 16 \<Longrightarrow>
   put_crypto_mem (memcpy (crypto_mem s) 0 key) s = s\<lparr>crypto_key := key\<rparr>"
  by (simp add: put_crypto_mem_def crypto_mem_def memcpy_def crypto_wf_def subarr_def)

lemma put_crypto_mem_iv:
  "crypto_wf s \<Longrightarrow> length iv = 16 \<Longrightarrow>
   put_crypto_mem (memcpy (crypto_mem s) 16 iv) s = s\<lparr>crypto_iv := iv\<rparr>"
  by (simp add: put_crypto_mem_def crypto_mem_def memcpy_def crypto_wf_def subarr_def)

lemma program_key:
  assumes "crypto_wf s" and "length key = 16"
  shows "crypto_writes q (window_program REG_CRYPTO_KEY key) (s, w) =
         Inr (s\<lparr>crypto_key := key, round_keys := aes_key_expand key (round_keys s)\<rparr>, w)"
proof -
  have m: "memcpy (memcpy (memcpy (memcpy (crypto_mem s) 0 (subarr 0 4 key)) 4 (subarr 4 4 key)) 8
             (subarr 8 4 key)) 12 (subarr 12 4 key) = memcpy (crypto_mem s) 0 key"
    using memcpy_words [of 0 "crypto_mem s" "subarr 0 4 key" "subarr 4 4 key" "subarr 8 4 key"
        "subarr 12 4 key"] split_16 [of key "[]"] assms by simp
  show ?thesis
    using assms put_crypto_mem_key [OF assms] m
    by (simp add: window_program_def edu_crypto_write_def edu_crypto_write_key_def
        take4_le_bytes_word)
qed

lemma program_iv:
  assumes "crypto_wf s" and "length iv = 16"
  shows "crypto_writes q (window_program REG_CRYPTO_IV iv) (s, w) = Inr (s\<lparr>crypto_iv := iv\<rparr>, w)"
proof -
  have m: "memcpy (memcpy (memcpy (memcpy (crypto_mem s) 16 (subarr 0 4 iv)) 20 (subarr 4 4 iv)) 24
             (subarr 8 4 iv)) 28 (subarr 12 4 iv) = memcpy (crypto_mem s) 16 iv"
    using memcpy_words [of 16 "crypto_mem s" "subarr 0 4 iv" "subarr 4 4 iv" "subarr 8 4 iv"
        "subarr 12 4 iv"] split_16 [of iv "[]"] assms by simp
  show ?thesis
    using assms put_crypto_mem_iv [OF assms] m
    by (simp add: window_program_def edu_crypto_write_def Let_def take4_le_bytes_word)
qed

context dma_bus
begin

lemma crypto_run:
  assumes "crypto_wf s" and "crypto_busy s = 0" and "n \<le> 4096" and "n mod 16 = 0"
    and "readable w a n" and "cmd AND CRYPTO_CMD_START \<noteq> 0"
  shows "crypto_writes q (crypto_program a b n cmd) (s, w) =
    Inr (s\<lparr>crypto_src := a, crypto_dst := b, crypto_len := of_nat n\<rparr>,
         let w1 = snd (pci_dma_write q b (crypto_result cmd s (ram_bytes (ram w) a n)) w)
         in if msix_enabled q w1 then msix_notify q 2 w1 else w1)"
proof -
  let ?s = "s\<lparr>crypto_src := a, crypto_dst := b, crypto_len := of_nat n\<rparr>"
  have len: "(ucast (of_nat n :: u64) :: u32) = of_nat n"
    using assms(3) by (simp add: unsigned_of_nat take_bit_nat_eq_self)
  have "(of_nat n :: u32) \<le> 4096" using assms(3) by (simp add: word_le_nat_alt unat_of_nat)
  then have "crypto_ready ?s n"
    using assms(1-4) by (simp add: crypto_ready_def unat_of_nat crypto_wf_def min_absorb1)
  then have cmd: "edu_crypto_cmd q cmd (?s, w) = (?s,
      let w1 = snd (pci_dma_write q b (crypto_result cmd s (ram_bytes (ram w) a n)) w)
      in if msix_enabled q w1 then msix_notify q 2 w1 else w1)"
    using crypto_cmd [of ?s n cmd w] assms(5,6) by (simp add: crypto_result_def)
  have "crypto_writes q (crypto_program a b n cmd) (s, w) = Inr (edu_crypto_cmd q cmd (?s, w))"
    by (simp add: crypto_program_def edu_crypto_write_def set_hi_set_lo_halves len)
  then show ?thesis by (simp only: cmd)
qed

text \<open>The same with the destination mapped: guest memory afterwards.\<close>

lemma crypto_run_ram:
  assumes "crypto_wf s" and "crypto_busy s = 0" and "n \<le> 4096" and "n mod 16 = 0"
    and "readable w a n" and "writable w b n" and "cmd AND CRYPTO_CMD_START \<noteq> 0"
  shows "\<exists>w'. crypto_writes q (crypto_program a b n cmd) (s, w) =
           Inr (s\<lparr>crypto_src := a, crypto_dst := b, crypto_len := of_nat n\<rparr>, w') \<and>
         ram w' = ram_store (ram w) b (crypto_result cmd s (ram_bytes (ram w) a n)) \<and>
         readable w' = readable w \<and> writable w' = writable w"
proof -
  obtain k where "n = 16 * k" using assms(4) by (auto elim: dvdE)
  then have "length (crypto_result cmd s (ram_bytes (ram w) a n)) = n"
    by (simp add: crypto_result_def length_textbook_cbc)
  then show ?thesis
    using crypto_run [OF assms(1-5,7)] assms(6)
    by (simp add: Let_def write_ram write_maps notify_frame)
qed

end

subsection \<open>The standard\<close>

lemma cbc_enc_cong:
  "(\<And>b. length b = 16 \<Longrightarrow> E b = E' b) \<Longrightarrow> cbc_enc E iv bs = cbc_enc E' iv bs"
  by (induction bs arbitrary: iv) (simp_all add: Let_def)

lemma encrypt_with_expanded_key:
  assumes "length key = 16" and "length rk = 176" and "length b = 16"
  shows "aes_encrypt_block (aes_key_expand key rk) b = fips_cipher (fips_w key) b"
  using assms by (intro aes_encrypt_block_fips) (simp_all add: aes_key_expand_fips)

definition fips_cbc :: "byte list \<Rightarrow> byte list \<Rightarrow> byte list \<Rightarrow> byte list" where
  "fips_cbc key iv inp =
     concat (cbc_enc (fips_cipher (fips_w key)) iv (blocks 0 (length inp div 16) inp))"

lemma textbook_cbc_fips:
  assumes "length key = 16" and "length rk = 176"
  shows "textbook_cbc True (aes_key_expand key rk) iv inp = fips_cbc key iv inp"
  unfolding textbook_cbc_def fips_cbc_def
  using cbc_enc_cong [of "aes_encrypt_block (aes_key_expand key rk)" "fips_cipher (fips_w key)"]
    encrypt_with_expanded_key [OF assms] by simp

text \<open>Key, IV, addresses and the encrypt command, in the order the test drivers write them.\<close>

definition encrypt_program ::
  "byte list \<Rightarrow> byte list \<Rightarrow> u64 \<Rightarrow> u64 \<Rightarrow> nat \<Rightarrow> (u64 \<times> u64) list" where
  "encrypt_program key iv a b n =
     window_program REG_CRYPTO_KEY key @ window_program REG_CRYPTO_IV iv @ crypto_program a b n 3"

definition keyed :: "byte list \<Rightarrow> byte list \<Rightarrow> EduPciState \<Rightarrow> EduPciState" where
  "keyed key iv s =
     s\<lparr>crypto_key := key, round_keys := aes_key_expand key (round_keys s), crypto_iv := iv\<rparr>"

lemma program_keyed:
  assumes "crypto_wf s" and "length key = 16" and "length iv = 16"
  shows "crypto_writes q (window_program REG_CRYPTO_KEY key @ window_program REG_CRYPTO_IV iv) (s, w) =
           Inr (keyed key iv s, w)"
    and "crypto_wf (keyed key iv s)"
  using assms program_iv [of "s\<lparr>crypto_key := key, round_keys := aes_key_expand key (round_keys s)\<rparr>"]
  by (simp_all add: mmio_writes_append program_key keyed_def crypto_wf_def)

context dma_bus
begin

lemma encrypt_program_run:
  assumes "crypto_wf s" and "crypto_busy s = 0" and "n \<le> 4096" and "n mod 16 = 0"
    and "readable w a n" and "writable w b n" and "length key = 16" and "length iv = 16"
  shows "\<exists>w'. crypto_writes q (encrypt_program key iv a b n) (s, w) =
           Inr ((keyed key iv s)\<lparr>crypto_src := a, crypto_dst := b, crypto_len := of_nat n\<rparr>, w') \<and>
         ram w' = ram_store (ram w) b (fips_cbc key iv (ram_bytes (ram w) a n)) \<and>
         readable w' = readable w \<and> writable w' = writable w"
proof -
  let ?s = "keyed key iv s"
  have "crypto_result 3 ?s inp = fips_cbc key iv inp" for inp
    using assms by (simp add: crypto_result_def keyed_def textbook_cbc_fips crypto_wf_def)
  moreover have "crypto_writes q (encrypt_program key iv a b n) (s, w) =
                 crypto_writes q (crypto_program a b n 3) (?s, w)"
    using program_keyed(1) [OF assms(1,7,8), of q w]
    by (simp only: encrypt_program_def append_assoc [symmetric] mmio_writes_append [of _ "_ @ _"]
        res_bind_simps)
  ultimately show ?thesis
    using crypto_run_ram [of ?s n w a b 3] program_keyed(2) [OF assms(1,7,8)] assms(2-6)
    by (simp add: keyed_def)
qed

lemma encrypt_then_decrypt:
  assumes "crypto_wf s" and "crypto_busy s = 0" and "n \<le> 4096" and "n mod 16 = 0"
    and "readable w a n" and "writable w b n" and "readable w b n" and "writable w c n"
    and "length key = 16" and "length iv = 16"
  shows "\<exists>s' w'. crypto_writes q (encrypt_program key iv a b n @ crypto_program b c n 1) (s, w) =
           Inr (s', w') \<and> ram_bytes (ram w') c n = ram_bytes (ram w) a n"
proof -
  let ?s = "(keyed key iv s)\<lparr>crypto_src := a, crypto_dst := b, crypto_len := of_nat n\<rparr>"
  let ?inp = "ram_bytes (ram w) a n"
  let ?ct = "fips_cbc key iv ?inp"
  obtain k where k: "n = 16 * k" using assms(4) by (auto elim: dvdE)
  have rk: "length (round_keys s) = 176" using assms(1) by (simp add: crypto_wf_def)
  have ct: "?ct = textbook_cbc True (round_keys ?s) (crypto_iv ?s) ?inp"
    using assms(9) rk by (simp add: textbook_cbc_fips keyed_def)
  have len: "length ?ct = n" unfolding ct using k by (simp add: length_textbook_cbc)
  obtain w1 where w1: "crypto_writes q (encrypt_program key iv a b n) (s, w) = Inr (?s, w1)"
    "ram w1 = ram_store (ram w) b ?ct" "readable w1 = readable w" "writable w1 = writable w"
    using encrypt_program_run [OF assms(1-6,9,10)] by blast
  have ready: "crypto_wf ?s" "crypto_busy ?s = 0"
    using program_keyed(2) [OF assms(1,9,10)] assms(2) by (simp_all add: keyed_def)
  obtain w2 where w2: "crypto_writes q (crypto_program b c n 1) (?s, w1) =
      Inr (?s\<lparr>crypto_src := b, crypto_dst := c, crypto_len := of_nat n\<rparr>, w2)"
    "ram w2 = ram_store (ram w1) c (crypto_result 1 ?s (ram_bytes (ram w1) b n))"
    using crypto_run_ram [OF ready assms(3,4), of w1 b c 1] assms(7,8) w1(3,4) by auto
  have "ram_bytes (ram w1) b n = ?ct"
    using ram_bytes_store_same [of ?ct "ram w" b] len assms(3) by (simp add: w1(2))
  then have "crypto_result 1 ?s (ram_bytes (ram w1) b n) = ?inp"
    using textbook_cbc_inverse [of ?inp k "round_keys ?s" "crypto_iv ?s"] k ct
    by (simp add: crypto_result_def)
  then have "ram_bytes (ram w2) c n = ?inp"
    using ram_bytes_store_same [of ?inp "ram w1" c] assms(3) by (simp add: w2(2))
  then show ?thesis using w1(1) w2(1) by (simp add: mmio_writes_append)
qed

end

subsection \<open>The key is write-only\<close>

lemma bus_value_le_word_take: "k \<le> 8 \<Longrightarrow> bus_value k (le_word xs) = le_word (take k xs)"
  by (rule bit_word_eqI) (auto simp: bus_value_def bit_take_bit_iff bit_le_word)

lemma iv_read_bytes:
  assumes "crypto_wf s" and "k \<le> 4" and "i + k \<le> 16"
  shows "bus_value k (le_word (memcpy u 0 (subarr (16 + i) 4 (crypto_mem s)))) =
         le_word (subarr i k (crypto_iv s))"
proof -
  have "take k (memcpy u 0 (subarr (16 + i) 4 (crypto_mem s))) = subarr (16 + i) k (crypto_mem s)"
    using assms by (simp add: memcpy_def subarr_def)
  also have "\<dots> = subarr i k (crypto_iv s)"
    using assms by (simp add: crypto_mem_def crypto_wf_def subarr_def)
  finally show ?thesis using assms by (simp add: bus_value_le_word_take)
qed

lemma aligned_in_window:
  fixes addr :: u64
  assumes "k = 1 \<or> k = 2 \<or> k = 4" and "unat addr mod k = 0" and "0x30 \<le> addr" and "addr < 0x40"
  shows "unat (addr - 0x30) + k \<le> 16"
proof -
  have a: "48 \<le> unat addr" "unat addr < 64" using assms by (simp_all add: word_le_nat_alt word_less_nat_alt)
  then have "unat (addr - 0x30) = unat addr - 48" by (simp add: unat_sub word_le_nat_alt)
  then show ?thesis using assms a by (elim disjE) (simp_all, presburger+)
qed

subsection \<open>Properties\<close>

lemma init_crypto [simp]: "crypto_wf edu_pci_init" "crypto_busy edu_pci_init = 0"
  by (simp_all add: crypto_wf_def edu_pci_init_def)

text \<open>C3. Writing a 16-byte key, an IV, a source, a destination and a length (a multiple of 16, at
  most 4096) into BAR5 and then the encrypt command makes the engine store, at the destination in
  guest memory, the FIPS-197 AES-128 CBC encryption of the source buffer under that key and IV, and
  leaves it idle.\<close>

theorem crypto_encrypts_fips_cbc:
  assumes "dma_bus q ram readable writable"
    and "crypto_wf s" and "crypto_busy s = 0" and "n \<le> 4096" and "n mod 16 = 0"
    and "readable w a n" and "writable w b n" and "length key = 16" and "length iv = 16"
  shows "\<exists>s' w'. crypto_writes q (encrypt_program key iv a b n) (s, w) = Inr (s', w') \<and>
           ram w' = ram_store (ram w) b (fips_cbc key iv (ram_bytes (ram w) a n)) \<and>
           crypto_busy s' = 0"
  using dma_bus.encrypt_program_run [OF assms] assms(3) by (force simp: keyed_def)

theorem crypto_encrypts_fips_cbc_witness:
  "\<exists>s' w'. crypto_writes guest_qemu
       (encrypt_program (replicate 16 7) (replicate 16 9) 0x100 0x1000 64)
       (edu_pci_init, small_guest) = Inr (s', w') \<and>
     mem w' = ram_store (mem small_guest) 0x1000
       (fips_cbc (replicate 16 7) (replicate 16 9) (ram_bytes (mem small_guest) 0x100 64)) \<and>
     crypto_busy s' = 0"
  by (rule crypto_encrypts_fips_cbc [OF guest_bus.dma_bus_axioms])
     (simp_all add: small_guest_mapped)

text \<open>C10. A driver that encrypts a buffer \<open>a\<close> into \<open>b\<close> and then asks the engine to decrypt \<open>b\<close>
  into \<open>c\<close> finds the original bytes of \<open>a\<close> at \<open>c\<close>, wherever the three buffers are.\<close>

theorem crypto_decrypt_recovers:
  assumes "dma_bus q ram readable writable"
    and "crypto_wf s" and "crypto_busy s = 0" and "n \<le> 4096" and "n mod 16 = 0"
    and "readable w a n" and "writable w b n" and "readable w b n" and "writable w c n"
    and "length key = 16" and "length iv = 16"
  shows "\<exists>s' w'. crypto_writes q (encrypt_program key iv a b n @ crypto_program b c n 1) (s, w) =
           Inr (s', w') \<and> ram_bytes (ram w') c n = ram_bytes (ram w) a n"
  by (rule dma_bus.encrypt_then_decrypt [OF assms])

theorem crypto_decrypt_recovers_witness:
  "\<exists>s' w'. crypto_writes guest_qemu
       (encrypt_program (replicate 16 1) (replicate 16 2) 0 0x800 4096 @ crypto_program 0x800 0x2000 4096 1)
       (edu_pci_init, small_guest) = Inr (s', w') \<and>
     ram_bytes (mem w') 0x2000 4096 = ram_bytes (mem small_guest) 0 4096"
  by (rule crypto_decrypt_recovers [OF guest_bus.dma_bus_axioms])
     (simp_all add: small_guest_mapped)

text \<open>A command without the start bit, while the engine is busy, or with a length (clamped to
  4096) that is not a multiple of 16 has no effect: no DMA, no interrupt, no state change.\<close>

lemma crypto_rejects_bad_command:
  assumes "val AND CRYPTO_CMD_START = 0 \<or> crypto_busy s \<noteq> 0 \<or>
           min (crypto_len s) DMA_MAX_LEN mod 16 \<noteq> 0"
  shows "edu_crypto_write q REG_CRYPTO_CMD val 4 (s, w) = (s, w)"
  using crypto_cmd_rejected [OF assms] by (simp add: edu_crypto_write_def)

lemma crypto_rejects_bad_command_example:
  "edu_crypto_write guest_qemu REG_CRYPTO_CMD 3 4 (edu_pci_init\<lparr>crypto_len := 20\<rparr>, small_guest) =
     (edu_pci_init\<lparr>crypto_len := 20\<rparr>, small_guest)"
  by (rule crypto_rejects_bad_command) (simp add: min_def)

text \<open>C25. The key is write-only: what an aligned read of one, two or four bytes of BAR5 returns does
  not depend on the key or on the expanded round keys.\<close>

theorem crypto_key_write_only:
  assumes "crypto_wf s" and "length key = 16" and "length rk = 176"
    and "k = 1 \<or> k = 2 \<or> k = 4" and "unat addr mod k = 0"
  shows "bus_value k (edu_crypto_read q addr 4 (s\<lparr>crypto_key := key, round_keys := rk\<rparr>, w)) =
         bus_value k (edu_crypto_read q addr 4 (s, w))"
proof -
  let ?s = "s\<lparr>crypto_key := key, round_keys := rk\<rparr>"
  have wf: "crypto_wf ?s" using assms(1-3) by (simp add: crypto_wf_def)
  show ?thesis
  proof (cases "0x30 \<le> addr \<and> addr < 0x40")
    case True
    then have i: "k \<le> 4" "unat (addr - 0x30) + k \<le> 16"
      using aligned_in_window [OF assms(4,5)] assms(4) by auto
    have "0x30 \<le> addr" "addr < 0x40" using True by auto
    then show ?thesis
      using iv_read_bytes [OF wf i] iv_read_bytes [OF assms(1) i]
      by (auto simp: edu_crypto_read_def Let_def)
  next
    case False
    then show ?thesis by (auto simp: edu_crypto_read_def)
  qed
qed

theorem crypto_key_write_only_witness:
  "bus_value 4 (edu_crypto_read guest_qemu 0x3C 4
     (edu_pci_init\<lparr>crypto_key := replicate 16 5, round_keys := replicate 176 6\<rparr>, small_guest)) =
   bus_value 4 (edu_crypto_read guest_qemu 0x3C 4 (edu_pci_init, small_guest))"
  by (rule crypto_key_write_only) simp_all

text \<open>C30. A write to the last byte of the IV (offset 0x3F, one byte on the bus, four bytes in the
  handler) also overwrites the first three bytes of the expanded key with zeros, so that later
  commands no longer use the programmed key.\<close>

theorem crypto_iv_byte_write_overruns:
  assumes "crypto_wf s"
  shows "edu_crypto_write q 0x3F (ucast (b :: byte)) 4 (s, w) =
         (s\<lparr>crypto_iv := (crypto_iv s)[15 := b],
            round_keys := [0, 0, 0] @ drop 3 (round_keys s)\<rparr>, w)"
proof -
  have "drop_bit m (ucast b :: u64) = 0" if "8 \<le> m" for m
    using that by (intro bit_word_eqI) (simp add: bit_simps)
  moreover have "ucast (ucast b :: u64) = b" by (rule bit_word_eqI) (simp add: bit_simps)
  ultimately have "take 4 (le_bytes 8 (ucast b :: u64)) = [b, 0, 0, 0]"
    by (simp add: le_bytes_def upt_rec)
  then show ?thesis
    using assms
    by (simp add: edu_crypto_write_def put_crypto_mem_def crypto_mem_def memcpy_def crypto_wf_def
        subarr_def upd_conv_take_nth_drop)
qed

theorem crypto_iv_byte_write_overruns_witness:
  "edu_crypto_write guest_qemu 0x3F (ucast (0xAB :: byte)) 4 (edu_pci_init, small_guest) =
     (edu_pci_init\<lparr>crypto_iv := (crypto_iv edu_pci_init)[15 := 0xAB],
        round_keys := [0, 0, 0] @ drop 3 (round_keys edu_pci_init)\<rparr>, small_guest)"
  by (rule crypto_iv_byte_write_overruns) simp

text \<open>C12. With a key schedule expanded from a 16-byte key, the block routine computes the AES-128
  cipher of FIPS 197 (field arithmetic by polynomials, rows and columns by index, key schedule as
  a recursion on words), whatever the schedule buffer held before.\<close>

theorem aes_block_is_fips197:
  assumes "length key = 16" and "length rk = 176" and "length b = 16"
  shows "aes_encrypt_block (aes_key_expand key rk) b = fips_cipher (fips_w key) b"
  by (rule encrypt_with_expanded_key [OF assms])

theorem aes_block_is_fips197_witness:
  "aes_encrypt_block (aes_key_expand (replicate 16 0x2B) (replicate 176 0xFF)) (replicate 16 0) =
     fips_cipher (fips_w (replicate 16 0x2B)) (replicate 16 0)"
  by (rule aes_block_is_fips197) simp_all

text \<open>Under any round keys, decrypting an encrypted block gives the block back.\<close>

lemma aes_block_round_trip:
  assumes "length b = 16"
  shows "aes_decrypt_block rk (aes_encrypt_block rk b) = b"
  by (rule aes_decrypt_encrypt [OF assms])

lemma aes_block_round_trip_example:
  "aes_decrypt_block (replicate 176 1) (aes_encrypt_block (replicate 176 1) (replicate 16 0xA5)) =
     replicate 16 0xA5"
  by (rule aes_block_round_trip) simp

text \<open>C29. The S-box table is the inverse in GF(2^8) followed by the affine map, and the inverse
  table inverts it, for each of the 256 bytes.\<close>

theorem sbox_is_affine_inverse:
  "(\<exists>y. gf_inverse x y \<and> sbox x = affine y) \<and> inv_sbox (sbox x) = x \<and> sbox (inv_sbox x) = x"
  using sbox_affine_inverse [of x] by (auto simp: sbox_ok_def)

text \<open>CBC on buffers: for any round keys and IV, running the decryption loop on the output of
  the encryption loop restores the first \<open>16 n\<close> bytes of the input.\<close>

lemma aes_cbc_round_trip:
  assumes "16 * n \<le> length inp" and "16 * n \<le> length out" and "16 * n \<le> length out'"
  shows "take (16 * n) (aes_cbc_decrypt rk iv (aes_cbc_encrypt rk iv inp out (16 * n)) out' (16 * n)) =
         take (16 * n) inp"
  using aes.loop_round_trip [OF assms] by (simp add: aes_cbc_encrypt_def aes_cbc_decrypt_def)

lemma aes_cbc_round_trip_example:
  "take (16 * 2) (aes_cbc_decrypt (replicate 176 3) (replicate 16 4)
     (aes_cbc_encrypt (replicate 176 3) (replicate 16 4) (replicate 40 5) (replicate 32 0) (16 * 2))
     (replicate 32 0) (16 * 2)) = take (16 * 2) (replicate 40 5)"
  by (rule aes_cbc_round_trip) simp_all

end
