(* ===== verification/Pf_System.thy ===== *)
theory Pf_System
  imports Ring_Engine Crypto_Engine
begin

text \<open>
  The physical function as one machine: a guest writes any register of BAR0, BAR4 and BAR5 in any
  order, and the environment (guest memory, IOMMU, interrupt controllers) changes between the
  writes. The invariants of the three register blocks hold together in every reachable state.
\<close>

subsection \<open>Steps\<close>

text \<open>
  Every handler is called with four bytes. A write that faults ends the emulator and has no
  successor state. \<open>E\<close> is what the environment may do on its own.
\<close>

inductive pf_step ::
  "'w qemu \<Rightarrow> ('w \<Rightarrow> 'w \<Rightarrow> bool) \<Rightarrow> EduPciState \<times> 'w \<Rightarrow> EduPciState \<times> 'w \<Rightarrow> bool"
  for q E where
  bar0: "pf_step q E sw (edu_pci_write q addr val 4 sw)"
| bar4: "edu_ring_write q addr val 4 sw = Inr sw' \<Longrightarrow> pf_step q E sw sw'"
| bar5: "pf_step q E sw (edu_crypto_write q addr val 4 sw)"
| env: "E w w' \<Longrightarrow> pf_step q E (s, w) (s, w')"

inductive_cases pf_stepE: "pf_step q E sw sw'"

subsection \<open>The invariant of the state\<close>

definition pf_inv :: "EduPciState \<Rightarrow> bool" where
  "pf_inv s \<longleftrightarrow> ring_inv s \<and> crypto_wf s \<and> dma_busy s = 0 \<and> crypto_busy s = 0"

lemma pf_inv_init: "pf_inv edu_pci_init"
  by (simp add: pf_inv_def ring_inv_def crypto_wf_def edu_pci_init_def)

lemma dma_state: "fst (edu_pci_dma q (s, w)) = s\<lparr>dma_busy := 0\<rparr>"
  by (simp add: edu_pci_dma_def Let_def case_prod_beta)

lemma bar0_inv: "pf_inv (fst sw) \<Longrightarrow> pf_inv (fst (edu_pci_write q addr val sz sw))"
  by (cases sw) (simp add: edu_pci_write_def dma_state pf_inv_def ring_inv_def crypto_wf_def)

text \<open>BAR4 changes only the ring fields.\<close>

lemma process_one_head:
  assumes "edu_ring_process_one q t = Inr t'" and "\<exists>h. fst t = s\<lparr>ring_head := h\<rparr>"
  shows "\<exists>h. fst t' = s\<lparr>ring_head := h\<rparr>"
proof -
  obtain h where "fst t = s\<lparr>ring_head := h\<rparr>" using assms(2) by blast
  then show ?thesis using process_one_frame [OF assms(1)] by auto
qed

lemma loop_frame:
  assumes "edu_ring_loop q count sw = Inr sw'"
  shows "\<exists>h. fst sw' = (fst sw)\<lparr>ring_head := h\<rparr>"
proof (rule edu_ring_loop_preserves [where P = "\<lambda>t. \<exists>h. fst t = (fst sw)\<lparr>ring_head := h\<rparr>", OF assms])
  have "fst sw = (fst sw)\<lparr>ring_head := ring_head (fst sw)\<rparr>" by simp
  then show "\<exists>h. fst sw = (fst sw)\<lparr>ring_head := h\<rparr>" by blast
qed (rule process_one_head)

lemma process_frame:
  assumes "edu_ring_process q t = Inr sw'"
  shows "\<exists>h. fst sw' = (fst t)\<lparr>ring_head := h\<rparr>"
proof (cases "ring_enabled (fst t) = 0 \<or> ring_size (fst t) = 0")
  case True
  then have "fst sw' = (fst t)\<lparr>ring_head := ring_head (fst t)\<rparr>"
    using assms by (auto simp: edu_ring_process_def)
  then show ?thesis by blast
next
  case False
  then have "edu_ring_loop q 0 t = Inr sw'" using assms by (auto simp: edu_ring_process_def)
  then show ?thesis using loop_frame by blast
qed

lemma bar4_frame:
  assumes "edu_ring_write q addr val sz (s, w) = Inr sw'"
  shows "\<exists>a z h t e. fst sw' = s\<lparr>ring_addr := a, ring_size := z, ring_head := h,
    ring_tail := t, ring_enabled := e\<rparr>"
proof -
  let ?upd = "\<lambda>a z h t e. s\<lparr>ring_addr := a, ring_size := z, ring_head := h, ring_tail := t, ring_enabled := e\<rparr>"
  have exact: ?thesis
    if "fst sw' = ?upd (ring_addr (fst sw')) (ring_size (fst sw')) (ring_head (fst sw'))
          (ring_tail (fst sw')) (ring_enabled (fst sw'))"
    using that by blast
  have run: ?thesis if proc: "edu_ring_process q (s\<lparr>ring_tail := t, ring_enabled := e\<rparr>, w) = Inr sw'" for t e
  proof -
    obtain h where "fst sw' = s\<lparr>ring_tail := t, ring_enabled := e, ring_head := h\<rparr>"
      using process_frame [OF proc] by auto
    then show ?thesis by (intro exact) simp
  qed
  consider "addr = REG_RING_TAIL" | "addr = REG_RING_CTRL"
    | "addr \<noteq> REG_RING_TAIL" "addr \<noteq> REG_RING_CTRL" by blast
  then show ?thesis
  proof cases
    case 1
    show ?thesis
    proof (cases "ring_enabled s = 0")
      case True
      show ?thesis
        by (rule exact) (use assms 1 True in \<open>auto simp: edu_ring_write_def split: if_splits\<close>)
    next
      case False
      then show ?thesis
        using assms 1 run [where t = "ucast (val mod ucast (ring_size s))" and e = "ring_enabled s"]
        by (auto simp: edu_ring_write_def split: if_splits)
    qed
  next
    case 2
    let ?e = "ucast (val AND RING_CTRL_ENABLE) :: u32"
    show ?thesis
    proof (cases "?e \<noteq> 0 \<and> ring_head s \<noteq> ring_tail s")
      case True
      then show ?thesis
        using assms 2 run [where t = "ring_tail s" and e = ?e] by (simp add: edu_ring_write_def Let_def)
    next
      case False
      show ?thesis
        by (rule exact) (use assms 2 False in \<open>auto simp: edu_ring_write_def Let_def\<close>)
    qed
  next
    case 3
    then show ?thesis
      by (intro exact) (use assms in \<open>auto simp: edu_ring_write_def split: if_splits\<close>)
  qed
qed

lemma bar4_inv:
  assumes "pf_inv (fst sw)" and "edu_ring_write q addr val sz sw = Inr sw'"
  shows "pf_inv (fst sw')"
proof -
  obtain a z h t e where "fst sw' = (fst sw)\<lparr>ring_addr := a, ring_size := z, ring_head := h,
      ring_tail := t, ring_enabled := e\<rparr>"
    using bar4_frame [of q addr val sz "fst sw" "snd sw" sw'] assms(2) by auto
  moreover have "ring_inv (fst sw')"
    using ring_write_inv [OF assms(2)] assms(1) by (simp add: pf_inv_def)
  ultimately show ?thesis using assms(1) by (simp add: pf_inv_def crypto_wf_def)
qed

text \<open>BAR5 changes only the crypto fields, and at the end of a command the engine is idle.\<close>

lemma cmd_state: "fst (edu_crypto_cmd q val (s, w)) = s \<or> fst (edu_crypto_cmd q val (s, w)) = s\<lparr>crypto_busy := 0\<rparr>"
  by (simp add: edu_crypto_cmd_def Let_def case_prod_beta)

lemma pf_inv_put:
  assumes "pf_inv s" and "length m = 208"
  shows "pf_inv (put_crypto_mem m s)"
  using assms by (simp add: pf_inv_def ring_inv_def put_crypto_mem_def crypto_wf_def subarr_def)

lemma write_key_inv:
  assumes "pf_inv s" and "idx + sz \<le> 208" and "sz \<le> 8"
  shows "pf_inv (edu_crypto_write_key idx sz val s)"
proof -
  let ?s = "put_crypto_mem (memcpy (crypto_mem s) idx (take sz (le_bytes 8 val))) s"
  have wf: "crypto_wf s" using assms(1) by (simp add: pf_inv_def)
  then have "pf_inv ?s" using assms by (intro pf_inv_put) simp_all
  moreover from this have "length (aes_key_expand (crypto_key ?s) (round_keys ?s)) = 176"
    by (simp add: pf_inv_def crypto_wf_def length_aes_key_expand)
  ultimately show ?thesis
    by (simp add: edu_crypto_write_key_def Let_def pf_inv_def ring_inv_def crypto_wf_def)
qed

lemma bar5_inv:
  assumes "pf_inv s"
  shows "pf_inv (fst (edu_crypto_write q addr val 4 (s, w)))"
proof -
  have key: "unat (addr - REG_CRYPTO_KEY) \<le> 15" if "addr \<ge> REG_CRYPTO_KEY" "addr < REG_CRYPTO_KEY + 16"
    using that by unat_arith
  have iv: "unat (addr - REG_CRYPTO_IV) \<le> 15" if "addr \<ge> REG_CRYPTO_IV" "addr < REG_CRYPTO_IV + 16"
    using that by unat_arith
  have wf: "crypto_wf s" using assms by (simp add: pf_inv_def)
  have regs: "pf_inv (s\<lparr>crypto_src := a\<rparr>)" "pf_inv (s\<lparr>crypto_dst := a\<rparr>)"
    "pf_inv (s\<lparr>crypto_len := n\<rparr>)" "pf_inv (s\<lparr>crypto_busy := 0\<rparr>)" for a n
    using assms by (simp_all add: pf_inv_def ring_inv_def)
  have cmd: "pf_inv (fst (edu_crypto_cmd q val (s, w)))"
    using cmd_state [of q val s w] assms regs(4) by auto
  show ?thesis
    unfolding edu_crypto_write_def Let_def prod.case
    by (auto simp: regs cmd intro!: write_key_inv pf_inv_put assms dest!: key iv simp: wf)
qed

interpretation pf_machine: stepper "pf_step q E" "\<lambda>sw. pf_inv (fst sw)" for q E
proof unfold_locales
  fix sw sw'
  assume step: "pf_step q E sw sw'" and inv: "pf_inv (fst sw)"
  show "pf_inv (fst sw')"
    using step
  proof cases
    case (bar5 addr val)
    then show ?thesis using bar5_inv [OF inv, of q addr val "snd sw"] by simp
  qed (use inv in \<open>auto simp: bar0_inv intro: bar4_inv\<close>)
qed

lemma reachable_inv:
  "(pf_step q E)\<^sup>*\<^sup>* (edu_pci_init, w0) (s, w) \<Longrightarrow> pf_inv s"
  using pf_machine.run_good [of q E "(edu_pci_init, w0)" "(s, w)"] pf_inv_init by simp

subsection \<open>Frames of the three blocks\<close>

lemma bar0_frame:
  "edu_ring_read a sz (fst (edu_pci_write q addr val k (s, w))) = edu_ring_read a sz s"
  "edu_crypto_read q a sz (fst (edu_pci_write q addr val k (s, w)), u) = edu_crypto_read q a sz (s, u)"
  by (simp_all add: edu_pci_write_def dma_state edu_ring_read_def edu_crypto_read_def crypto_mem_def)

lemma bar4_reads_frame:
  assumes "edu_ring_write q addr val k (s, w) = Inr (s', w')"
  shows "edu_pci_read a sz s' = edu_pci_read a sz s"
    and "edu_crypto_read q a sz (s', u) = edu_crypto_read q a sz (s, u)"
proof -
  obtain b z h t e where "s' = s\<lparr>ring_addr := b, ring_size := z, ring_head := h,
      ring_tail := t, ring_enabled := e\<rparr>"
    using bar4_frame [OF assms] by auto
  then show "edu_pci_read a sz s' = edu_pci_read a sz s"
    and "edu_crypto_read q a sz (s', u) = edu_crypto_read q a sz (s, u)"
    by (simp_all add: edu_pci_read_def edu_crypto_read_def crypto_mem_def)
qed

lemma crypto_fields_frame [simp]:
  "edu_pci_read a sz (s\<lparr>crypto_src := x\<rparr>) = edu_pci_read a sz s"
  "edu_pci_read a sz (s\<lparr>crypto_dst := x\<rparr>) = edu_pci_read a sz s"
  "edu_pci_read a sz (s\<lparr>crypto_len := n\<rparr>) = edu_pci_read a sz s"
  "edu_pci_read a sz (s\<lparr>crypto_busy := n\<rparr>) = edu_pci_read a sz s"
  "edu_pci_read a sz (s\<lparr>round_keys := bs\<rparr>) = edu_pci_read a sz s"
  "edu_pci_read a sz (put_crypto_mem bs s) = edu_pci_read a sz s"
  "edu_ring_read a sz (s\<lparr>crypto_src := x\<rparr>) = edu_ring_read a sz s"
  "edu_ring_read a sz (s\<lparr>crypto_dst := x\<rparr>) = edu_ring_read a sz s"
  "edu_ring_read a sz (s\<lparr>crypto_len := n\<rparr>) = edu_ring_read a sz s"
  "edu_ring_read a sz (s\<lparr>crypto_busy := n\<rparr>) = edu_ring_read a sz s"
  "edu_ring_read a sz (s\<lparr>round_keys := bs\<rparr>) = edu_ring_read a sz s"
  "edu_ring_read a sz (put_crypto_mem bs s) = edu_ring_read a sz s"
  by (simp_all add: edu_pci_read_def edu_ring_read_def put_crypto_mem_def)

lemma bar5_cmd_frame:
  "edu_pci_read a sz (fst (edu_crypto_cmd q val (s, w))) = edu_pci_read a sz s"
  "edu_ring_read a sz (fst (edu_crypto_cmd q val (s, w))) = edu_ring_read a sz s"
  using cmd_state [of q val s w] by auto

lemma bar5_frame:
  "edu_pci_read a sz (fst (edu_crypto_write q addr val k (s, w))) = edu_pci_read a sz s"
  "edu_ring_read a sz (fst (edu_crypto_write q addr val k (s, w))) = edu_ring_read a sz s"
  by (simp_all add: edu_crypto_write_def edu_crypto_write_key_def Let_def bar5_cmd_frame)

subsection \<open>Interrupt vectors\<close>

definition vectors_ok :: "guest \<Rightarrow> bool" where
  "vectors_ok g \<longleftrightarrow> (\<forall>v \<in> set (vectors g). v < 4)"

lemma vectors_ok_simps [simp]:
  "vectors_ok (g\<lparr>mem := m\<rparr>) = vectors_ok g"
  "vectors_ok (g\<lparr>intx := b\<rparr>) = vectors_ok g"
  "vectors_ok (g\<lparr>vectors := vs @ [v]\<rparr>) \<longleftrightarrow> vectors_ok (g\<lparr>vectors := vs\<rparr>) \<and> v < 4"
  "vectors_ok (g\<lparr>vectors := vectors g\<rparr>) = vectors_ok g"
  "vectors_ok (g\<lparr>mem := m, vectors := vs\<rparr>) = vectors_ok (g\<lparr>vectors := vs\<rparr>)"
  by (auto simp: vectors_ok_def)

lemma process_one_vectors:
  assumes "edu_ring_process_one guest_qemu sw = Inr sw'" and "vectors_ok (snd sw)"
  shows "vectors_ok (snd sw')"
  using assms by (auto simp: edu_ring_process_one_def Let_def split: prod.splits if_splits)

lemma bar4_vectors:
  assumes "edu_ring_write guest_qemu addr val k (s, g) = Inr sw'" and "vectors_ok g"
  shows "vectors_ok (snd sw')"
proof -
  have run: "vectors_ok (snd sw')"
    if "edu_ring_loop guest_qemu c t = Inr sw'" "vectors_ok (snd t)" for c t
    by (rule edu_ring_loop_preserves [where P = "\<lambda>t. vectors_ok (snd t)", OF that])
       (rule process_one_vectors)
  show ?thesis
    using assms by (auto simp: edu_ring_write_def edu_ring_process_def Let_def run split: if_splits)
qed

lemma dma_vectors:
  "vectors_ok g \<Longrightarrow> vectors_ok (snd (edu_pci_dma guest_qemu (s, g)))"
  by (simp add: edu_pci_dma_def Let_def case_prod_beta)

lemma bar0_vectors:
  assumes "vectors_ok g"
  shows "vectors_ok (snd (edu_pci_write guest_qemu addr val k (s, g)))"
proof -
  have "(ucast val :: u32) < 4" if "val < 4"
    using that by (simp add: word_less_nat_alt unsigned_ucast_eq take_bit_nat_eq_self)
  then show ?thesis
    using assms by (simp add: edu_pci_write_def edu_pci_irq_raise_def dma_vectors)
qed

lemma bar5_vectors:
  assumes "vectors_ok g"
  shows "vectors_ok (snd (edu_crypto_write guest_qemu addr val k (s, g)))"
  using assms by (simp add: edu_crypto_write_def edu_crypto_cmd_def Let_def case_prod_beta)

text \<open>The guest may do anything to its memory, its IOMMU windows and the MSI-X enable bit.\<close>

definition guest_env :: "guest \<Rightarrow> guest \<Rightarrow> bool" where
  "guest_env g g' \<longleftrightarrow> vectors g' = vectors g"

interpretation pf_vectors: stepper "pf_step guest_qemu guest_env" "\<lambda>sw. vectors_ok (snd sw)"
proof unfold_locales
  fix sw sw'
  assume step: "pf_step guest_qemu guest_env sw sw'" and inv: "vectors_ok (snd sw)"
  obtain s g where sw: "sw = (s, g)" by (cases sw)
  show "vectors_ok (snd sw')"
    using step inv unfolding sw
  proof cases
    case (bar4 addr val)
    then show ?thesis using bar4_vectors inv by (simp add: sw)
  next
    case (env g')
    then show ?thesis using inv by (simp add: sw guest_env_def vectors_ok_def)
  qed (simp_all add: bar0_vectors bar5_vectors)
qed

subsection \<open>Properties\<close>

text \<open>In every state a guest can bring the physical function to, by any sequence of register
  writes while its memory changes in any way, the ring pointers are inside the ring, the ring size
  is 0 or a power of two of at most 256, the key arrays have their sizes, and both engines are idle.\<close>

lemma pf_reachable_wellformed:
  assumes "(pf_step q E)\<^sup>*\<^sup>* (edu_pci_init, w0) (s, w)"
  shows "ring_inv s \<and> crypto_wf s \<and> dma_busy s = 0 \<and> crypto_busy s = 0"
  using reachable_inv [OF assms] by (simp add: pf_inv_def)

text \<open>A history: the guest sizes the ring, enables it and starts a transfer of nothing.\<close>

definition some_history :: "EduPciState \<times> guest" where
  "some_history = edu_pci_write guest_qemu REG_DMA_CMD 1 4
     (edu_pci_init\<lparr>ring_size := 8, ring_head := 0, ring_tail := 0, ring_enabled := 1\<rparr>, small_guest)"

lemma some_history_reachable:
  "(pf_step guest_qemu guest_env)\<^sup>*\<^sup>* (edu_pci_init, small_guest) some_history"
proof -
  let ?s1 = "edu_pci_init\<lparr>ring_size := 8, ring_head := 0, ring_tail := 0\<rparr>"
  let ?s2 = "?s1\<lparr>ring_enabled := 1\<rparr>"
  have "pf_step guest_qemu guest_env (edu_pci_init, small_guest) (?s1, small_guest)"
    by (rule pf_step.bar4 [where addr = REG_RING_SIZE and val = 8]) (simp add: edu_ring_write_def)
  moreover have "pf_step guest_qemu guest_env (?s1, small_guest) (?s2, small_guest)"
    by (rule pf_step.bar4 [where addr = REG_RING_CTRL and val = 1])
       (simp add: edu_ring_write_def edu_pci_init_def)
  moreover have "pf_step guest_qemu guest_env (?s2, small_guest) some_history"
    unfolding some_history_def by (rule pf_step.bar0)
  ultimately show ?thesis by (meson rtranclp.rtrancl_into_rtrancl rtranclp.rtrancl_refl)
qed

lemma pf_reachable_wellformed_example:
  "ring_inv (fst some_history) \<and> crypto_wf (fst some_history) \<and> dma_busy (fst some_history) = 0 \<and>
   crypto_busy (fst some_history) = 0"
  by (rule pf_reachable_wellformed [of guest_qemu guest_env small_guest _ "snd some_history"])
     (simp add: some_history_reachable)

text \<open>C5. No history wedges an engine: from every reachable state, whatever the guest wrote before,
  programming the DMA engine copies the buffer and programming the crypto engine stores the
  FIPS-197 CBC encryption, provided the buffers are mapped now.\<close>

theorem pf_history_never_wedges:
  assumes "dma_bus q ram readable writable"
    and "(pf_step q E)\<^sup>*\<^sup>* (edu_pci_init, w0) (s, w)"
    and "n \<le> 4096" and "n mod 16 = 0" and "readable w a n" and "writable w b n"
    and "length key = 16" and "length iv = 16"
  shows "(\<exists>s' w'. pf_writes q (dma_program a b (of_nat n)) (s, w) = Inr (s', w') \<and>
            ram w' = ram_store (ram w) b (ram_bytes (ram w) a n)) \<and>
         (\<exists>s' w'. crypto_writes q (encrypt_program key iv a b n) (s, w) = Inr (s', w') \<and>
            ram w' = ram_store (ram w) b (fips_cbc key iv (ram_bytes (ram w) a n)))"
proof
  have inv: "crypto_wf s" "crypto_busy s = 0" "dma_busy s = 0"
    using reachable_inv [OF assms(2)] by (simp_all add: pf_inv_def)
  have "unat (min (ucast (of_nat n :: u64)) DMA_MAX_LEN) = n"
    using assms(3) by (simp add: min_def word_le_nat_alt unsigned_ucast_eq unat_of_nat take_bit_nat_eq_self)
  then have "ram (snd (edu_pci_dma q (dma_programmed a b (of_nat n) s, w))) =
      ram_store (ram w) b (ram_bytes (ram w) a n)"
    using dma_bus.pf_dma_copies [OF assms(1), of n "dma_programmed a b (of_nat n) s" w] assms(5,6)
    by (simp add: dma_programmed_def)
  then show "\<exists>s' w'. pf_writes q (dma_program a b (of_nat n)) (s, w) = Inr (s', w') \<and>
      ram w' = ram_store (ram w) b (ram_bytes (ram w) a n)"
    using dma_program_runs [OF inv(3), of q a b "of_nat n" w]
    by (metis prod.collapse)
  show "\<exists>s' w'. crypto_writes q (encrypt_program key iv a b n) (s, w) = Inr (s', w') \<and>
      ram w' = ram_store (ram w) b (fips_cbc key iv (ram_bytes (ram w) a n))"
    using dma_bus.encrypt_program_run [OF assms(1) inv(1,2) assms(3-8)] by blast
qed

lemma some_history_mapped: "mapped (snd some_history) = mapped small_guest"
  by (simp add: some_history_def edu_pci_write_def edu_pci_dma_def edu_pci_init_def Let_def case_prod_beta)

theorem pf_history_never_wedges_witness:
  "(\<exists>s' w'. pf_writes guest_qemu (dma_program 0x100 0x1000 (of_nat 64)) some_history = Inr (s', w') \<and>
      mem w' = ram_store (mem (snd some_history)) 0x1000 (ram_bytes (mem (snd some_history)) 0x100 64)) \<and>
   (\<exists>s' w'. crypto_writes guest_qemu (encrypt_program (replicate 16 7) (replicate 16 9) 0x100 0x1000 64)
        some_history = Inr (s', w') \<and>
      mem w' = ram_store (mem (snd some_history)) 0x1000
        (fips_cbc (replicate 16 7) (replicate 16 9) (ram_bytes (mem (snd some_history)) 0x100 64)))"
  using pf_history_never_wedges [OF guest_bus.dma_bus_axioms, of guest_env small_guest
      "fst some_history" "snd some_history" 64 "0x100" "0x1000" "replicate 16 7" "replicate 16 9"]
    some_history_reachable
  by (simp add: some_history_mapped small_guest_mapped del: of_nat_numeral)

text \<open>C36. The three register blocks are isolated: a write to one of BAR0, BAR4 and BAR5 does not
  change what any register of the other two reads.\<close>

theorem pf_blocks_isolated:
  "edu_ring_read a sz (fst (edu_pci_write q addr val 4 (s, w))) = edu_ring_read a sz s \<and>
   edu_crypto_read q a sz (fst (edu_pci_write q addr val 4 (s, w)), u) = edu_crypto_read q a sz (s, u) \<and>
   (case edu_ring_write q addr val 4 (s, w) of
      Inl e \<Rightarrow> True
    | Inr (s', w') \<Rightarrow> edu_pci_read a sz s' = edu_pci_read a sz s \<and>
        edu_crypto_read q a sz (s', u) = edu_crypto_read q a sz (s, u)) \<and>
   edu_pci_read a sz (fst (edu_crypto_write q addr val 4 (s, w))) = edu_pci_read a sz s \<and>
   edu_ring_read a sz (fst (edu_crypto_write q addr val 4 (s, w))) = edu_ring_read a sz s"
  using bar4_reads_frame [of q addr val 4 s w]
  by (auto simp: bar0_frame bar5_frame split: sum.split)

text \<open>Whatever the guest writes, every MSI-X vector the device signals is one of the four its
  table has.\<close>

lemma pf_vectors_in_table:
  assumes "(pf_step guest_qemu guest_env)\<^sup>*\<^sup>* (s0, g0) (s, g)" and "vectors g0 = []"
    and "v \<in> set (vectors g)"
  shows "v < 4"
  using pf_vectors.run_good [OF assms(1)] assms(2,3) by (simp add: vectors_ok_def)

lemma pf_vectors_in_table_example:
  "0 \<in> set (vectors (snd some_history)) \<and> (0 :: u32) < 4"
proof
  show v: "0 \<in> set (vectors (snd some_history))"
    by (simp add: some_history_def edu_pci_write_def edu_pci_dma_def edu_pci_init_def Let_def
        case_prod_beta small_guest_def)
  show "(0 :: u32) < 4"
    by (rule pf_vectors_in_table [of edu_pci_init small_guest "fst some_history" "snd some_history"])
       (use some_history_reachable v in \<open>simp_all add: small_guest_def\<close>)
qed

end
