(* ===== verification/Edu_Vf.thy ===== *)
theory Edu_Vf
  imports Edu_Pf
begin

text \<open>
  The SR-IOV virtual function of \<open>edu_pci.c\<close>: its state and BAR0 handlers, a subset of those of
  the physical function without interrupts, and the proof that they refine them.
\<close>

subsection \<open>State and handlers\<close>

record EduPciVfState =
  vf_scratch :: u32
  vf_factorial_out :: u32
  vf_dma_src :: u64
  vf_dma_dst :: u64
  vf_dma_len :: u32
  vf_dma_busy :: u32

definition edu_vf_init :: EduPciVfState where
  "edu_vf_init = \<lparr>vf_scratch = 0, vf_factorial_out = 0, vf_dma_src = 0, vf_dma_dst = 0,
     vf_dma_len = 0, vf_dma_busy = 0\<rparr>"

text \<open>\<open>vf_num + 1\<close> is computed as an \<open>int\<close>, so a 16-bit number does not wrap.\<close>

definition edu_vf_read :: "'w qemu \<Rightarrow> u64 \<Rightarrow> nat \<Rightarrow> EduPciVfState \<times> 'w \<Rightarrow> u64" where
  "edu_vf_read q addr sz sw =
     (let (s, w) = sw; vf_num = pcie_sriov_vf_number q w in
      if addr = REG_ID then 0x0ED00002
      else if addr = REG_SCRATCH then ucast (vf_scratch s)
      else if addr = REG_FACTORIAL then ucast (vf_factorial_out s)
      else if addr = REG_STATUS then ucast (1 OR push_bit 1 (vf_dma_busy s))
      else if addr = REG_DMA_SRC then vf_dma_src s
      else if addr = REG_DMA_DST then vf_dma_dst s
      else if addr = REG_DMA_LEN then ucast (vf_dma_len s)
      else if addr = REG_DMA_CMD then ucast (vf_dma_busy s)
      else if addr = REG_VF_ID then ucast vf_num + 1
      else 0xFFFFFFFF)"

definition edu_vf_dma :: "'w qemu \<Rightarrow> EduPciVfState \<times> 'w \<Rightarrow> EduPciVfState \<times> 'w" where
  "edu_vf_dma q sw =
     (let (s, w) = sw;
          buf = uninit q 4096 w;
          len = unat (if vf_dma_len s > DMA_MAX_LEN then DMA_MAX_LEN else vf_dma_len s);
          s = s\<lparr>vf_dma_busy := 1\<rparr>;
          (_, rbuf, w) = pci_dma_read q (vf_dma_src s) (take len buf) w;
          buf = memcpy buf 0 rbuf;
          (_, w) = pci_dma_write q (vf_dma_dst s) (take len buf) w;
          s = s\<lparr>vf_dma_busy := 0\<rparr>
      in (s, w))"

definition edu_vf_write ::
  "'w qemu \<Rightarrow> u64 \<Rightarrow> u64 \<Rightarrow> nat \<Rightarrow> EduPciVfState \<times> 'w \<Rightarrow> EduPciVfState \<times> 'w" where
  "edu_vf_write q addr val sz sw =
     (let (s, w) = sw in
      if addr = REG_SCRATCH then (s\<lparr>vf_scratch := ucast val\<rparr>, w)
      else if addr = REG_FACTORIAL then (s\<lparr>vf_factorial_out := factorial (ucast val)\<rparr>, w)
      else if addr = REG_DMA_SRC then (s\<lparr>vf_dma_src := val\<rparr>, w)
      else if addr = REG_DMA_DST then (s\<lparr>vf_dma_dst := val\<rparr>, w)
      else if addr = REG_DMA_LEN then (s\<lparr>vf_dma_len := ucast val\<rparr>, w)
      else if addr = REG_DMA_CMD then
        (if val = 1 \<and> vf_dma_busy s = 0 then edu_vf_dma q (s, w) else (s, w))
      else (s, w))"

lemmas edu_vf_defs [mmio_defs] = edu_vf_read_def edu_vf_write_def

subsection \<open>The physical function as the specification\<close>

text \<open>A VF state as the state of a physical function whose other units are idle.\<close>

definition pf_of_vf :: "EduPciVfState \<Rightarrow> EduPciState" where
  "pf_of_vf s = edu_pci_init\<lparr>scratch := vf_scratch s, factorial_out := vf_factorial_out s,
     dma_src := vf_dma_src s, dma_dst := vf_dma_dst s, dma_len := vf_dma_len s,
     dma_busy := vf_dma_busy s\<rparr>"

definition vf_regs :: "u64 set" where
  "vf_regs = {REG_SCRATCH, REG_FACTORIAL, REG_STATUS, REG_DMA_SRC, REG_DMA_DST, REG_DMA_LEN,
     REG_DMA_CMD}"

definition without_msix :: "'w qemu \<Rightarrow> 'w qemu" where
  "without_msix q = q\<lparr>msix_enabled := \<lambda>_. False\<rparr>"

lemma without_msix_simps [simp]:
  "pci_dma_read (without_msix q) = pci_dma_read q"
  "pci_dma_write (without_msix q) = pci_dma_write q"
  "uninit (without_msix q) = uninit q"
  "msix_enabled (without_msix q) w = False"
  by (simp_all add: without_msix_def)

lemma vf_dma_refines_pf:
  "map_prod pf_of_vf id (edu_vf_dma q (s, w)) = edu_pci_dma (without_msix q) (pf_of_vf s, w)"
  by (simp add: edu_vf_dma_def edu_pci_dma_def Let_def case_prod_beta pf_of_vf_def)

interpretation vf_bar0: regfile
  "\<lambda>a sw. edu_vf_read q a 4 sw" "\<lambda>a v sw. Inr (edu_vf_write q a v 4 sw)"
  "{REG_SCRATCH, REG_DMA_SRC, REG_DMA_DST, REG_DMA_LEN}" "\<lambda>_. True"
  for q :: "'w qemu"
  by unfold_locales (elim insertE emptyE; simp add: edu_vf_defs case_prod_beta)

subsection \<open>Properties\<close>

text \<open>C22. The virtual function refines the physical one: a write to any of its registers has the
  effect the same write has on a physical function with MSI-X disabled, on the state and on the
  environment.\<close>

theorem vf_write_refines_pf:
  assumes "addr \<in> vf_regs"
  shows "map_prod pf_of_vf id (edu_vf_write q addr val sz (s, w)) =
         edu_pci_write (without_msix q) addr val sz (pf_of_vf s, w)"
  using assms vf_dma_refines_pf [of q s w]
  by (unfold vf_regs_def, elim insertE emptyE)
     (simp_all add: edu_vf_write_def edu_pci_write_def pf_of_vf_def)

theorem vf_write_refines_pf_witness:
  "map_prod pf_of_vf id (edu_vf_write guest_qemu REG_DMA_CMD 1 4
       (edu_vf_init\<lparr>vf_dma_dst := 64, vf_dma_len := 32\<rparr>, small_guest)) =
   edu_pci_write (without_msix guest_qemu) REG_DMA_CMD 1 4
       (pf_of_vf (edu_vf_init\<lparr>vf_dma_dst := 64, vf_dma_len := 32\<rparr>), small_guest)"
  by (rule vf_write_refines_pf) (simp add: vf_regs_def)

text \<open>A driver tells the functions apart: every shared register reads the same on both, the
  identity registers differ, and the function number is 0 on the physical function, and 1 to
  65536 on a virtual one.\<close>

lemma vf_read_matches_pf:
  "map (\<lambda>addr. edu_vf_read q addr sz (s, w)) [REG_SCRATCH, REG_FACTORIAL, REG_STATUS, REG_DMA_SRC,
     REG_DMA_DST, REG_DMA_LEN, REG_DMA_CMD] =
   map (\<lambda>addr. edu_pci_read addr sz (pf_of_vf s)) [REG_SCRATCH, REG_FACTORIAL, REG_STATUS,
     REG_DMA_SRC, REG_DMA_DST, REG_DMA_LEN, REG_DMA_CMD] \<and>
   edu_vf_read q REG_ID sz (s, w) \<noteq> edu_pci_read REG_ID sz p \<and>
   edu_pci_read REG_VF_ID sz p = 0 \<and>
   unat (edu_vf_read q REG_VF_ID sz (s, w)) = unat (pcie_sriov_vf_number q w) + 1"
proof -
  have "unat (ucast (pcie_sriov_vf_number q w) :: u64) = unat (pcie_sriov_vf_number q w)"
    "unat (pcie_sriov_vf_number q w) < 65536"
    using unsigned_less [of "pcie_sriov_vf_number q w", where ?'a = nat]
    by (simp_all add: unsigned_ucast_eq take_bit_nat_eq_self)
  then have "unat (ucast (pcie_sriov_vf_number q w) + 1 :: u64) = unat (pcie_sriov_vf_number q w) + 1"
    by (simp add: unat_word_ariths)
  then show ?thesis
    by (simp add: edu_vf_read_def edu_pci_read_def pf_of_vf_def)
qed

end
