(* ===== verification/Edu_Nvme.thy ===== *)
theory Edu_Nvme
  imports Mmio Cyclic_Queue
begin

text \<open>
  The NVMe controller of \<open>edu_nvme.c\<close>: commands and completions in guest memory, the storage,
  the execution of one command and of the submission queue, and the BAR0 handlers.
\<close>

subsection \<open>Registers and constants\<close>

abbreviation (input) NVME_CAP :: u64 where "NVME_CAP \<equiv> 0x00"
abbreviation (input) NVME_VS :: u64 where "NVME_VS \<equiv> 0x08"
abbreviation (input) NVME_CC :: u64 where "NVME_CC \<equiv> 0x14"
abbreviation (input) NVME_CSTS :: u64 where "NVME_CSTS \<equiv> 0x1C"
abbreviation (input) NVME_AQA :: u64 where "NVME_AQA \<equiv> 0x24"
abbreviation (input) NVME_ASQ :: u64 where "NVME_ASQ \<equiv> 0x28"
abbreviation (input) NVME_ACQ :: u64 where "NVME_ACQ \<equiv> 0x30"
abbreviation (input) NVME_SQ0TDBL :: u64 where "NVME_SQ0TDBL \<equiv> 0x1000"
abbreviation (input) NVME_CQ0HDBL :: u64 where "NVME_CQ0HDBL \<equiv> 0x1004"

abbreviation (input) NVME_CC_EN :: u64 where "NVME_CC_EN \<equiv> 1"
abbreviation (input) NVME_CSTS_RDY :: u32 where "NVME_CSTS_RDY \<equiv> 1"

abbreviation (input) NVME_CMD_IDENTIFY :: byte where "NVME_CMD_IDENTIFY \<equiv> 0x06"
abbreviation (input) NVME_CMD_READ :: byte where "NVME_CMD_READ \<equiv> 0x02"
abbreviation (input) NVME_CMD_WRITE :: byte where "NVME_CMD_WRITE \<equiv> 0x01"

abbreviation (input) STORAGE_SIZE :: nat where "STORAGE_SIZE \<equiv> 1048576"
abbreviation (input) BLOCK_SIZE :: nat where "BLOCK_SIZE \<equiv> 512"
abbreviation (input) NUM_BLOCKS :: u64 where "NUM_BLOCKS \<equiv> 2048"

subsection \<open>Commands and completions\<close>

record NvmeCmd =
  opcode :: byte
  cmd_flags :: byte
  cmd_cid :: u16
  nsid :: u32
  cmd_rsvd :: u64
  mptr :: u64
  prp1 :: u64
  prp2 :: u64
  cdw10 :: u32
  cdw11 :: u32
  cdw12 :: u32
  cdw13 :: u32
  cdw14 :: u32
  cdw15 :: u32

record NvmeCqe =
  cqe_result :: u32
  cqe_rsvd :: u32
  cqe_sq_head :: u16
  cqe_sq_id :: u16
  cqe_cid :: u16
  cqe_status :: u16

text \<open>The command as the 64 bytes the DMA fills, and the 16 bytes of a completion.\<close>

definition cmd_of_bytes :: "byte list \<Rightarrow> NvmeCmd" where
  "cmd_of_bytes bs = \<lparr>
     opcode = le_word (subarr 0 1 bs), cmd_flags = le_word (subarr 1 1 bs),
     cmd_cid = le_word (subarr 2 2 bs), nsid = le_word (subarr 4 4 bs),
     cmd_rsvd = le_word (subarr 8 8 bs), mptr = le_word (subarr 16 8 bs),
     prp1 = le_word (subarr 24 8 bs), prp2 = le_word (subarr 32 8 bs),
     cdw10 = le_word (subarr 40 4 bs), cdw11 = le_word (subarr 44 4 bs),
     cdw12 = le_word (subarr 48 4 bs), cdw13 = le_word (subarr 52 4 bs),
     cdw14 = le_word (subarr 56 4 bs), cdw15 = le_word (subarr 60 4 bs)\<rparr>"

definition cqe_bytes :: "NvmeCqe \<Rightarrow> byte list" where
  "cqe_bytes c = le_bytes 4 (cqe_result c) @ le_bytes 4 (cqe_rsvd c) @ le_bytes 2 (cqe_sq_head c) @
     le_bytes 2 (cqe_sq_id c) @ le_bytes 2 (cqe_cid c) @ le_bytes 2 (cqe_status c)"

definition cmd_lba :: "NvmeCmd \<Rightarrow> u64" where
  "cmd_lba cmd = ucast (cdw10 cmd) OR push_bit 32 (ucast (cdw11 cmd))"

definition cmd_nlb :: "NvmeCmd \<Rightarrow> u32" where
  "cmd_nlb cmd = (cdw12 cmd AND 0xFFFF) + 1"

subsection \<open>State\<close>

text \<open>\<open>storage\<close> holds the bytes of the block of \<open>STORAGE_SIZE\<close> bytes the pointer refers to.\<close>

record EduNvmeState =
  cc :: u32
  csts :: u32
  aqa :: u32
  asq :: u64
  acq :: u64
  sq_tail :: u16
  sq_head :: u16
  cq_tail :: u16
  cq_head :: u16
  cq_phase :: byte
  storage :: "byte list"

text \<open>The state after \<open>edu_nvme_realize\<close> on a zeroed instance.\<close>

definition edu_nvme_realized :: EduNvmeState where
  "edu_nvme_realized = \<lparr>cc = 0, csts = 0, aqa = 0, asq = 0, acq = 0, sq_tail = 0, sq_head = 0,
     cq_tail = 0, cq_head = 0, cq_phase = 1, storage = replicate STORAGE_SIZE 0\<rparr>"

subsection \<open>One command\<close>

definition identify_data :: "byte list" where
  "identify_data =
     (let d = replicate 4096 0;
          d = d[0 := 0x34, 1 := 0x12];
          d = d[4 := 0x45, 5 := 0x44, 6 := 0x55, 7 := 0];
          d = d[24 := 0x45, 25 := 0x44, 26 := 0x55, 27 := 0x2D];
          d = d[28 := 0x4E, 29 := 0x56, 30 := 0x4D, 31 := 0x45];
          d = d[77 := 5]
      in memcpy d 516 (le_bytes 4 (1 :: u32)))"

text \<open>
  The bytes of \<open>storage + lba * BLOCK_SIZE\<close>, \<open>nlb * BLOCK_SIZE\<close> long: the product with \<open>lba\<close> is a
  64-bit one, that with \<open>nlb\<close> a 32-bit one, and an access that does not lie inside the block of
  storage is a fault.
\<close>

definition storage_off :: "u64 \<Rightarrow> nat" where
  "storage_off lba = unat (lba * 512)"

definition storage_len :: "u32 \<Rightarrow> nat" where
  "storage_len nlb = unat (nlb * 512)"

definition storage_ok :: "EduNvmeState \<Rightarrow> u64 \<Rightarrow> u32 \<Rightarrow> bool" where
  "storage_ok s lba nlb \<longleftrightarrow> storage_off lba + storage_len nlb \<le> length (storage s)"

definition nvme_cmd_read ::
  "'w qemu \<Rightarrow> NvmeCmd \<Rightarrow> EduNvmeState \<times> 'w \<Rightarrow> (u16 \<times> EduNvmeState \<times> 'w) res" where
  "nvme_cmd_read q cmd sw =
     (let (s, w) = sw; lba = cmd_lba cmd; nlb = cmd_nlb cmd in
      if lba + ucast nlb > NUM_BLOCKS then Inr (0x8002, s, w)
      else if \<not> storage_ok s lba nlb then Inl Out_Of_Bounds
      else let (res, w) = pci_dma_write q (prp1 cmd)
                 (subarr (storage_off lba) (storage_len nlb) (storage s)) w
           in Inr (if res = MEMTX_OK then 0 else 0x8004, s, w))"

definition nvme_cmd_write ::
  "'w qemu \<Rightarrow> NvmeCmd \<Rightarrow> EduNvmeState \<times> 'w \<Rightarrow> (u16 \<times> EduNvmeState \<times> 'w) res" where
  "nvme_cmd_write q cmd sw =
     (let (s, w) = sw; lba = cmd_lba cmd; nlb = cmd_nlb cmd in
      if lba + ucast nlb > NUM_BLOCKS then Inr (0x8002, s, w)
      else if \<not> storage_ok s lba nlb then Inl Out_Of_Bounds
      else let (res, buf, w) = pci_dma_read q (prp1 cmd)
                 (subarr (storage_off lba) (storage_len nlb) (storage s)) w;
               s = s\<lparr>storage := memcpy (storage s) (storage_off lba) buf\<rparr>
           in Inr (if res = MEMTX_OK then 0 else 0x8004, s, w))"

definition nvme_cmd_identify ::
  "'w qemu \<Rightarrow> NvmeCmd \<Rightarrow> EduNvmeState \<times> 'w \<Rightarrow> (u16 \<times> EduNvmeState \<times> 'w) res" where
  "nvme_cmd_identify q cmd sw =
     (let (s, w) = sw in
      if prp1 cmd \<noteq> 0 then Inr (0, s, snd (pci_dma_write q (prp1 cmd) identify_data w))
      else Inr (0, s, w))"

text \<open>The completion: the entry with the phase bit, the advance of the queue, the interrupt.\<close>

definition nvme_advance_cq :: "EduNvmeState \<Rightarrow> EduNvmeState" where
  "nvme_advance_cq s =
     (let s = s\<lparr>cq_tail := cq_tail s + 1\<rparr>
      in if (ucast (cq_tail s) :: u32) \<ge> drop_bit 16 (aqa s) + 1
         then s\<lparr>cq_tail := 0, cq_phase := cq_phase s XOR 1\<rparr>
         else s)"

definition nvme_complete ::
  "'w qemu \<Rightarrow> NvmeCqe \<Rightarrow> EduNvmeState \<times> 'w \<Rightarrow> EduNvmeState \<times> 'w" where
  "nvme_complete q cqe sw =
     (let (s, w) = sw;
          cqe = cqe\<lparr>cqe_status := cqe_status cqe OR push_bit 8 (ucast (cq_phase s))\<rparr>;
          (_, w) = pci_dma_write q (acq s + ucast (cq_tail s) * 16) (cqe_bytes cqe) w;
          s = nvme_advance_cq s;
          w = (if msix_enabled q w then msix_notify q 0 w else w)
      in (s, w))"

definition edu_nvme_process_cmd ::
  "'w qemu \<Rightarrow> NvmeCmd \<Rightarrow> EduNvmeState \<times> 'w \<Rightarrow> (EduNvmeState \<times> 'w) res" where
  "edu_nvme_process_cmd q cmd sw =
     (let cqe = \<lparr>cqe_result = 0, cqe_rsvd = 0, cqe_sq_head = sq_head (fst sw), cqe_sq_id = 0,
            cqe_cid = cmd_cid cmd, cqe_status = 0\<rparr>
      in res_bind
        (if opcode cmd = NVME_CMD_IDENTIFY then nvme_cmd_identify q cmd sw
         else if opcode cmd = NVME_CMD_READ then nvme_cmd_read q cmd sw
         else if opcode cmd = NVME_CMD_WRITE then nvme_cmd_write q cmd sw
         else Inr (0x0001, sw))
        (\<lambda>(status, sw). Inr (nvme_complete q (cqe\<lparr>cqe_status := status\<rparr>) sw)))"

subsection \<open>The submission queue\<close>

text \<open>
  One iteration of the loop: the read of the command (its result code is ignored, so after a failed
  read the command is whatever the local variable holds), the execution, the advance. The
  64 bytes of the local variable are threaded through the iterations.
\<close>

definition nvme_sq_next :: "u16 \<Rightarrow> u16 \<Rightarrow> u16" where
  "nvme_sq_next sq_size h = (let h = h + 1 in if h \<ge> sq_size then 0 else h)"

definition nvme_sq_step ::
  "'w qemu \<Rightarrow> u16 \<Rightarrow> byte list \<times> EduNvmeState \<times> 'w \<Rightarrow> (byte list \<times> EduNvmeState \<times> 'w) res" where
  "nvme_sq_step q sq_size csw =
     (let (cbuf, s, w) = csw;
          (_, cbuf, w) = pci_dma_read q (asq s + ucast (sq_head s) * 64) cbuf w
      in res_bind (edu_nvme_process_cmd q (cmd_of_bytes cbuf) (s, w))
           (\<lambda>(s, w). Inr (cbuf, s\<lparr>sq_head := nvme_sq_next sq_size (sq_head s)\<rparr>, w)))"

text \<open>The loop may not end: \<open>None\<close> is a doorbell that never returns.\<close>

partial_function (option) nvme_sq_loop ::
  "'w qemu \<Rightarrow> u16 \<Rightarrow> byte list \<times> EduNvmeState \<times> 'w \<Rightarrow> ((EduNvmeState \<times> 'w) res) option" where
  "nvme_sq_loop q sq_size csw =
     (if sq_head (fst (snd csw)) \<noteq> sq_tail (fst (snd csw)) then
        (case nvme_sq_step q sq_size csw of
           Inl e \<Rightarrow> Some (Inl e)
         | Inr csw' \<Rightarrow> nvme_sq_loop q sq_size csw')
      else Some (Inr (snd csw)))"

definition nvme_sq_size :: "EduNvmeState \<Rightarrow> u16" where
  "nvme_sq_size s = ucast ((aqa s AND 0xFFF) + 1)"

definition edu_nvme_process_sq ::
  "'w qemu \<Rightarrow> EduNvmeState \<times> 'w \<Rightarrow> ((EduNvmeState \<times> 'w) res) option" where
  "edu_nvme_process_sq q sw =
     nvme_sq_loop q (nvme_sq_size (fst sw)) (uninit q 64 (snd sw), sw)"

subsection \<open>BAR0 handlers\<close>

definition edu_nvme_read :: "u64 \<Rightarrow> nat \<Rightarrow> EduNvmeState \<Rightarrow> u64" where
  "edu_nvme_read addr sz s =
     (if addr = NVME_CAP then 0x003F0001
      else if addr = NVME_CAP + 4 then 0
      else if addr = NVME_VS then 0x00010400
      else if addr = NVME_CC then ucast (cc s)
      else if addr = NVME_CSTS then ucast (csts s)
      else if addr = NVME_AQA then ucast (aqa s)
      else if addr = NVME_ASQ then asq s
      else if addr = NVME_ASQ + 4 then get_hi (asq s)
      else if addr = NVME_ACQ then acq s
      else if addr = NVME_ACQ + 4 then get_hi (acq s)
      else 0)"

definition edu_nvme_write ::
  "'w qemu \<Rightarrow> u64 \<Rightarrow> u64 \<Rightarrow> nat \<Rightarrow> EduNvmeState \<times> 'w \<Rightarrow> ((EduNvmeState \<times> 'w) res) option" where
  "edu_nvme_write q addr val sz sw =
     (let (s, w) = sw in
      if addr = NVME_CC then
        (let s = s\<lparr>cc := ucast val\<rparr>
         in if val AND NVME_CC_EN \<noteq> 0
            then Some (Inr (s\<lparr>csts := csts s OR NVME_CSTS_RDY, sq_tail := 0, sq_head := 0,
                              cq_tail := 0, cq_head := 0, cq_phase := 1\<rparr>, w))
            else Some (Inr (s\<lparr>csts := csts s AND NOT NVME_CSTS_RDY\<rparr>, w)))
      else if addr = NVME_AQA then Some (Inr (s\<lparr>aqa := ucast val\<rparr>, w))
      else if addr = NVME_ASQ then Some (Inr (s\<lparr>asq := set_lo (asq s) val\<rparr>, w))
      else if addr = NVME_ASQ + 4 then Some (Inr (s\<lparr>asq := set_hi (asq s) val\<rparr>, w))
      else if addr = NVME_ACQ then Some (Inr (s\<lparr>acq := set_lo (acq s) val\<rparr>, w))
      else if addr = NVME_ACQ + 4 then Some (Inr (s\<lparr>acq := set_hi (acq s) val\<rparr>, w))
      else if addr = NVME_SQ0TDBL then edu_nvme_process_sq q (s\<lparr>sq_tail := ucast val\<rparr>, w)
      else if addr = NVME_CQ0HDBL then Some (Inr (s\<lparr>cq_head := ucast val\<rparr>, w))
      else Some (Inr (s, w)))"

lemmas edu_nvme_defs [mmio_defs] = edu_nvme_read_def edu_nvme_write_def

end
