(* ===== verification/Edu_Lifecycle.thy ===== *)
theory Edu_Lifecycle
  imports Pci_Core Pf_System Edu_Vf Edu_Nvme
begin

text \<open>
  How the PCI devices come to be and go: \<open>realize\<close> and \<open>exit\<close> of the physical function, of the
  virtual function and of the NVMe controller, on the services of the PCI core, and the tables that
  route the guest's accesses to the handlers.
\<close>

subsection \<open>Physical function\<close>

definition edu_pci_realize_sriov :: "'p pci_core \<Rightarrow> 'p \<Rightarrow> 'p" where
  "edu_pci_realize_sriov C p =
     (let (ok, p) = pcie_sriov_pf_init C 0x100 ''edu-pci-vf'' 0xED02 2 2 1 1 p
      in if \<not> ok then error_prepend C ''Failed to init SR-IOV: '' p
         else pcie_sriov_pf_init_vf_bar C 0 True 64 p)"

definition edu_pci_realize_caps :: "'p pci_core \<Rightarrow> 'p \<Rightarrow> 'p" where
  "edu_pci_realize_caps C p =
     (let (ret, p) = msix_init_exclusive_bar C 4 2 p
      in if ret \<noteq> 0 then p
         else let p = fold (msix_vector_use C) [0..<4] p;
                  (ret, p) = pcie_endpoint_cap_init C 0x80 p
              in if ret < 0 then error_setg C ''Failed to init PCIe cap'' p
                 else edu_pci_realize_sriov C p)"

definition edu_pci_realize :: "'p pci_core \<Rightarrow> 'p \<Rightarrow> 'p" where
  "edu_pci_realize C p =
     (let p = memory_region_init_io C Edu_Pci_Ops ''edu-pci-mmio'' 4096 p;
          p = pci_register_bar C 0 True Edu_Pci_Ops p;
          p = memory_region_init_io C Edu_Ring_Ops ''edu-pci-ring'' 4096 p;
          p = pci_register_bar C 4 False Edu_Ring_Ops p;
          p = memory_region_init_io C Edu_Crypto_Ops ''edu-pci-crypto'' 4096 p;
          p = pci_register_bar C 5 False Edu_Crypto_Ops p
      in edu_pci_realize_caps C p)"

definition edu_pci_exit :: "'p pci_core \<Rightarrow> 'p \<Rightarrow> 'p" where
  "edu_pci_exit C p = pcie_sriov_pf_exit C (msix_uninit_exclusive_bar C p)"

subsection \<open>Virtual function and NVMe controller\<close>

definition edu_vf_realize :: "'p pci_core \<Rightarrow> 'p \<Rightarrow> 'p" where
  "edu_vf_realize C p =
     (let p = memory_region_init_io C Edu_Vf_Ops ''edu-vf-mmio'' 64 p
      in pci_register_bar C 0 True Edu_Vf_Ops p)"

definition edu_nvme_realize :: "'p pci_core \<Rightarrow> EduNvmeState \<times> 'p \<Rightarrow> EduNvmeState \<times> 'p" where
  "edu_nvme_realize C sp =
     (let (s, p) = sp;
          p = g_malloc0 C STORAGE_SIZE p;
          s = s\<lparr>storage := replicate STORAGE_SIZE 0\<rparr>;
          p = memory_region_init_io C Edu_Nvme_Ops ''edu-nvme-mmio'' 8192 p;
          p = pci_register_bar C 0 False Edu_Nvme_Ops p;
          (ret, p) = msix_init_exclusive_bar C 1 2 p
      in if ret \<noteq> 0 then (s, p)
         else (s\<lparr>cq_phase := 1\<rparr>, msix_vector_use C 0 p))"

definition edu_nvme_exit :: "'p pci_core \<Rightarrow> 'p \<Rightarrow> 'p" where
  "edu_nvme_exit C p = msix_uninit_exclusive_bar C (g_free C p)"

subsection \<open>Routing\<close>

text \<open>
  The tables of the five regions: the handlers, and the sizes in bytes of the smallest and the largest
  access the device implements, if the table gives them. QEMU's memory core, which is not modelled, calls
  the handlers of a region with accesses of these sizes.
\<close>

record ('s, 'w, 'r) region_ops =
  ops_read :: "u64 \<Rightarrow> nat \<Rightarrow> 's \<times> 'w \<Rightarrow> u64"
  ops_write :: "u64 \<Rightarrow> u64 \<Rightarrow> nat \<Rightarrow> 's \<times> 'w \<Rightarrow> 'r"
  ops_impl :: "(nat \<times> nat) option"





definition edu_vf_ops :: "'w qemu \<Rightarrow> (EduPciVfState, 'w, EduPciVfState \<times> 'w) region_ops" where
  "edu_vf_ops q = \<lparr>ops_read = edu_vf_read q, ops_write = edu_vf_write q, ops_impl = Some (4, 4)\<rparr>"

definition edu_nvme_ops ::
  "'w qemu \<Rightarrow> (EduNvmeState, 'w, ((EduNvmeState \<times> 'w) res) option) region_ops" where
  "edu_nvme_ops q = \<lparr>ops_read = (\<lambda>a sz sw. edu_nvme_read a sz (fst sw)),
     ops_write = edu_nvme_write q, ops_impl = None\<rparr>"



subsection \<open>What realizing and unrealizing achieves\<close>

text \<open>The BARs of the physical function, in the order it takes them, and what it holds.\<close>

definition pf_bars :: "(nat \<times> region option) list" where
  "pf_bars = [(0, Some Edu_Pci_Ops), (1, None), (4, Some Edu_Ring_Ops), (5, Some Edu_Crypto_Ops), (2, None)]"

definition pf_msix :: "holding set" where
  "pf_msix = {Msix, Vector 0, Vector 1, Vector 2, Vector 3}"

context pci_core_laws
begin

lemma use_vectors:
  "slots (fold (msix_vector_use C) vs p) = slots p"
  "held (fold (msix_vector_use C) vs p) = Vector ` set vs \<union> held p"
  "region_size (fold (msix_vector_use C) vs p) = region_size p"
  "failed (fold (msix_vector_use C) vs p) = failed p"
  by (induction vs arbitrary: p) (simp_all add: vector_use)

lemma vectors_4: "Vector ` set [0..<4] = {Vector 0, Vector 1, Vector 2, Vector 3}"
  by (auto simp: upt_conv_Cons)

lemma sriov_outcome:
  assumes "\<not> failed p" and "p' = edu_pci_realize_sriov C p"
  shows "slots p' = slots p \<and> region_size p' = region_size p \<and>
    held p' = (if failed p' then held p else {Sriov 2, Vf_Bar 0} \<union> held p)"
proof -
  obtain ok q where q: "pcie_sriov_pf_init C 0x100 ''edu-pci-vf'' 0xED02 2 2 1 1 p = (ok, q)"
    by (cases "pcie_sriov_pf_init C 0x100 ''edu-pci-vf'' 0xED02 2 2 1 1 p")
  have "p' = (if \<not> ok then error_prepend C ''Failed to init SR-IOV: '' q
      else pcie_sriov_pf_init_vf_bar C 0 True 64 q)"
    using assms(2) by (simp only: edu_pci_realize_sriov_def q Let_def prod.case)
  then show ?thesis
    using sriov_init [OF q] assms(1) by (auto simp: vf_bar errors)
qed

text \<open>The three ways the second half of the realization ends.\<close>

lemma caps_outcome:
  assumes "\<not> failed p" and "p' = edu_pci_realize_caps C p"
  shows "failed p' \<and> slots p' = slots p \<and> held p' = held p \<or>
    failed p' \<and> pf_msix \<subseteq> held p' \<and> slots p' = slots p @ [(2, None)] \<and>
      held p' \<subseteq> insert (Pcie_Cap 0x80) (pf_msix \<union> held p) \<or>
    \<not> failed p' \<and> slots p' = slots p @ [(2, None)] \<and> region_size p' = region_size p \<and>
      held p' = {Pcie_Cap 0x80, Sriov 2, Vf_Bar 0} \<union> pf_msix \<union> held p"
proof -
  obtain r1 p1 where p1: "msix_init_exclusive_bar C 4 2 p = (r1, p1)"
    by (cases "msix_init_exclusive_bar C 4 2 p")
  let ?p2 = "fold (msix_vector_use C) [0..<4] p1"
  obtain r3 p3 where p3: "pcie_endpoint_cap_init C 0x80 ?p2 = (r3, p3)"
    by (cases "pcie_endpoint_cap_init C 0x80 ?p2")
  note msix = msix_init [OF p1] and cap = cap_init [OF p3]
  consider "r1 \<noteq> 0" | "r1 = 0" "r3 < 0" | "r1 = 0" "\<not> r3 < 0" by blast
  then show ?thesis
  proof cases
    case 1
    then show ?thesis using msix assms by (simp add: edu_pci_realize_caps_def p1)
  next
    case 2
    have "p' = error_setg C ''Failed to init PCIe cap'' p3"
      using 2 assms(2) by (simp only: edu_pci_realize_caps_def p1 p3 Let_def prod.case) simp
    then show ?thesis
      using 2 msix cap by (auto simp: errors use_vectors vectors_4 pf_msix_def)
  next
    case 3
    have p': "p' = edu_pci_realize_sriov C p3"
      using 3 assms(2) by (simp only: edu_pci_realize_caps_def p1 p3 Let_def prod.case) simp
    have "\<not> failed p3" using 3 msix cap assms(1) by (simp add: use_vectors)
    from sriov_outcome [OF this p'] show ?thesis
      using 3 msix cap by (auto simp: use_vectors vectors_4 pf_msix_def)
  qed
qed

lemma bars_registered:
  fixes p
  defines "p' \<equiv> pci_register_bar C 5 False Edu_Crypto_Ops
     (memory_region_init_io C Edu_Crypto_Ops ''edu-pci-crypto'' 4096
     (pci_register_bar C 4 False Edu_Ring_Ops
     (memory_region_init_io C Edu_Ring_Ops ''edu-pci-ring'' 4096
     (pci_register_bar C 0 True Edu_Pci_Ops
     (memory_region_init_io C Edu_Pci_Ops ''edu-pci-mmio'' 4096 p)))))"
  shows "edu_pci_realize C p = edu_pci_realize_caps C p'"
    and "slots p' = slots p @ butlast pf_bars" and "held p' = held p" and "failed p' = failed p"
    and "r \<in> {Edu_Pci_Ops, Edu_Ring_Ops, Edu_Crypto_Ops} \<Longrightarrow> region_size p' r = 4096"
  unfolding p'_def
  by (simp only: edu_pci_realize_def Let_def) (auto simp: init_io register_bar pf_bars_def)

lemma pf_realize_outcome:
  assumes "\<not> failed p" and "p' = edu_pci_realize C p"
  shows "if failed p'
    then if (2, None) \<in> set (drop (length (slots p)) (slots p'))
         then pf_msix \<subseteq> held p' else held p' = held p
    else slots p' = slots p @ pf_bars \<and>
         held p' = {Pcie_Cap 0x80, Sriov 2, Vf_Bar 0} \<union> pf_msix \<union> held p \<and>
         (\<forall>r \<in> {Edu_Pci_Ops, Edu_Ring_Ops, Edu_Crypto_Ops}. region_size p' r = 4096)"
proof -
  obtain p1 where p1: "edu_pci_realize C p = edu_pci_realize_caps C p1"
    "slots p1 = slots p @ butlast pf_bars" "held p1 = held p" "failed p1 = failed p"
    "\<And>r. r \<in> {Edu_Pci_Ops, Edu_Ring_Ops, Edu_Crypto_Ops} \<Longrightarrow> region_size p1 r = 4096"
    using bars_registered [where p = p] by blast
  have "butlast pf_bars @ [(2, None)] = pf_bars" "(2, None) \<notin> set (butlast pf_bars)"
    "(2, None) \<in> set pf_bars"
    by (simp_all add: pf_bars_def)
  moreover have "\<not> failed p1" "p' = edu_pci_realize_caps C p1" using assms p1(1,4) by simp_all
  note caps_outcome [OF this]
  ultimately show ?thesis using p1(2,3,5) by (elim disjE) (auto simp del: butlast.simps)
qed

lemma pf_exit_held:
  "held (edu_pci_exit C p) = held p - (insert Msix (range Vector) \<union> range Sriov \<union> range Vf_Bar)"
  by (auto simp: edu_pci_exit_def sriov_exit msix_uninit)

lemma nvme_realize_outcome:
  assumes "\<not> failed p" and "edu_nvme_realize C (s, p) = (s', p')"
  shows "if failed p' then held p' = insert (Heap STORAGE_SIZE) (held p)
    else s' = s\<lparr>storage := replicate STORAGE_SIZE 0, cq_phase := 1\<rparr> \<and>
         slots p' = slots p @ [(0, Some Edu_Nvme_Ops), (2, None)] \<and>
         held p' = {Heap STORAGE_SIZE, Msix, Vector 0} \<union> held p"
proof -
  let ?p0 = "pci_register_bar C 0 False Edu_Nvme_Ops (memory_region_init_io C Edu_Nvme_Ops
      ''edu-nvme-mmio'' 8192 (g_malloc0 C STORAGE_SIZE p))"
  obtain r1 p1 where p1: "msix_init_exclusive_bar C 1 2 ?p0 = (r1, p1)"
    by (cases "msix_init_exclusive_bar C 1 2 ?p0")
  have "(s', p') = (if r1 \<noteq> 0 then (s\<lparr>storage := replicate STORAGE_SIZE 0\<rparr>, p1)
      else (s\<lparr>storage := replicate STORAGE_SIZE 0, cq_phase := 1\<rparr>, msix_vector_use C 0 p1))"
    using assms(2) by (simp only: edu_nvme_realize_def Let_def prod.case p1)
  then show ?thesis
    using msix_init [OF p1] assms(1)
    by (cases "r1 = 0") (auto simp: vector_use init_io register_bar heap simp del: replicate.simps)
qed

lemma nvme_exit_held:
  "held (edu_nvme_exit C p) = held p - (insert Msix (range Vector) \<union> range Heap)"
  by (auto simp: edu_nvme_exit_def msix_uninit heap)

end

subsection \<open>Properties\<close>

text \<open>C24. A realization of the physical function that reports no error takes BARs 0 (64-bit, with
  its upper half in 1), 4, 5 and, for MSI-X, 2, each once and none past the last, makes all four
  vectors usable and enables two virtual functions with a BAR; the exit gives all of it back and
  leaves only the PCIe capability.\<close>

theorem pf_realize_then_exit:
  assumes "pci_core_laws C slots held region_size failed"
    and "\<not> failed p" and "slots p = []" and "held p = {}"
    and "p' = edu_pci_realize C p" and "\<not> failed p'"
  shows "slots p' = pf_bars \<and> distinct (map fst (slots p')) \<and> list_all (\<lambda>(b, r). b < 6) (slots p') \<and>
    held p' = {Msix, Vector 0, Vector 1, Vector 2, Vector 3, Pcie_Cap 0x80, Sriov 2, Vf_Bar 0} \<and>
    held (edu_pci_exit C p') = {Pcie_Cap 0x80}"
proof -
  have o: "slots p' = pf_bars" "held p' = {Pcie_Cap 0x80, Sriov 2, Vf_Bar 0} \<union> pf_msix"
    using pci_core_laws.pf_realize_outcome [OF assms(1,2,5)] assms(3,4,6) by simp_all
  have "held (edu_pci_exit C p') = {Pcie_Cap 0x80}"
    unfolding pci_core_laws.pf_exit_held [OF assms(1)] o(2) pf_msix_def by auto
  moreover have "held p' = {Msix, Vector 0, Vector 1, Vector 2, Vector 3, Pcie_Cap 0x80, Sriov 2, Vf_Bar 0}"
    unfolding o(2) pf_msix_def by auto
  ultimately show ?thesis using o(1) by (simp add: pf_bars_def)
qed

lemma empty_core_simps [simp]:
  "core_slots (empty_core F) = []" "core_held (empty_core F) = []" "core_error (empty_core F) = None"
  "core_fails (empty_core F) n = (n \<in> set F)"
  by (simp_all add: empty_core_def)

lemma four_vectors: "[0..<4] = [0, 1, 2, 3]"
  by (simp add: upt_rec)

lemmas run_core = four_vectors edu_pci_realize_def edu_pci_realize_caps_def edu_pci_realize_sriov_def
  edu_nvme_realize_def machine_core_def core_hold_def Let_def

theorem pf_realize_then_exit_witness:
  "core_slots (edu_pci_realize machine_core (empty_core [])) = pf_bars \<and>
   distinct (map fst (core_slots (edu_pci_realize machine_core (empty_core [])))) \<and>
   list_all (\<lambda>(b, r). b < 6) (core_slots (edu_pci_realize machine_core (empty_core []))) \<and>
   core_holds (edu_pci_realize machine_core (empty_core [])) =
     {Msix, Vector 0, Vector 1, Vector 2, Vector 3, Pcie_Cap 0x80, Sriov 2, Vf_Bar 0} \<and>
   core_holds (edu_pci_exit machine_core (edu_pci_realize machine_core (empty_core []))) = {Pcie_Cap 0x80}"
  by (rule pf_realize_then_exit [OF machine.pci_core_laws_axioms, of "empty_core []"])
     (simp_all add: run_core)

text \<open>C37. A realization that fails after the MSI-X tables were set up keeps them and their four
  vectors: nothing on that path undoes \<open>msix_init_exclusive_bar\<close>. One that fails before holds
  nothing.\<close>

theorem pf_failed_realize_keeps_msix:
  assumes "pci_core_laws C slots held region_size failed"
    and "\<not> failed p" and "slots p = []" and "held p = {}"
    and "p' = edu_pci_realize C p" and "failed p'"
  shows "if (2, None) \<in> set (slots p')
         then {Msix, Vector 0, Vector 1, Vector 2, Vector 3} \<subseteq> held p' else held p' = {}"
  using pci_core_laws.pf_realize_outcome [OF assms(1,2,5)] assms(3,4,6)
  by (cases "(2, None) \<in> set (slots p')") (simp_all add: pf_msix_def)

theorem pf_failed_realize_keeps_msix_witness:
  "(2, None) \<in> set (core_slots (edu_pci_realize machine_core (empty_core [2]))) \<and>
   {Msix, Vector 0, Vector 1, Vector 2, Vector 3} \<subseteq> core_holds (edu_pci_realize machine_core (empty_core [2]))"
proof
  let ?p = "edu_pci_realize machine_core (empty_core [2])"
  show msix: "(2, None) \<in> set (core_slots ?p)" by (simp add: run_core)
  have "core_failed ?p" by (simp add: run_core)
  from pf_failed_realize_keeps_msix [OF machine.pci_core_laws_axioms _ _ _ refl this] msix
  show "{Msix, Vector 0, Vector 1, Vector 2, Vector 3} \<subseteq> core_holds ?p" by simp
qed

text \<open>C38. The NVMe controller: a realization without error gives a zeroed disk, phase 1, BAR 0 and
  the MSI-X BAR 2, and the exit frees everything; one in which MSI-X fails leaves the disk
  allocated.\<close>

theorem nvme_realize_outcomes:
  assumes "pci_core_laws C slots held region_size failed"
    and "\<not> failed p" and "slots p = []" and "held p = {}"
    and "edu_nvme_realize C (s, p) = (s', p')"
  shows "if failed p' then held p' = {Heap STORAGE_SIZE}
    else s' = s\<lparr>storage := replicate STORAGE_SIZE 0, cq_phase := 1\<rparr> \<and>
         slots p' = [(0, Some Edu_Nvme_Ops), (2, None)] \<and>
         held p' = {Heap STORAGE_SIZE, Msix, Vector 0} \<and> held (edu_nvme_exit C p') = {}"
  using pci_core_laws.nvme_realize_outcome [OF assms(1,2,5)]
    pci_core_laws.nvme_exit_held [OF assms(1), of p'] assms(3,4)
  by (auto simp del: replicate.simps split: if_splits)

theorem nvme_realize_outcomes_witness:
  "core_holds (snd (edu_nvme_realize machine_core (edu_nvme_realized, empty_core [0]))) = {Heap 1048576}"
proof -
  obtain s' p' where r: "edu_nvme_realize machine_core (edu_nvme_realized, empty_core [0]) = (s', p')"
    by (cases "edu_nvme_realize machine_core (edu_nvme_realized, empty_core [0])")
  then have "core_failed p'" by (auto simp: run_core simp del: replicate.simps)
  with nvme_realize_outcomes [OF machine.pci_core_laws_axioms _ _ _ r] r show ?thesis by simp
qed



end
