(* ===== verification/Edu_Config.thy ===== *)
theory Edu_Config
  imports Prelude
begin

text \<open>
  Configuration space accesses of the physical function and the debug output around them: the
  cached debug level, the register names, and the two accessors, which print a trace and hand the
  access to the PCI core. What is printed is kept as a string.
\<close>

subsection \<open>Text\<close>

definition hex_digit :: "nat \<Rightarrow> char" where
  "hex_digit n = ''0123456789abcdef'' ! n"

fun hex_digits :: "nat \<Rightarrow> string" where
  "hex_digits n = (if n < 16 then [hex_digit n] else hex_digits (n div 16) @ [hex_digit (n mod 16)])"

declare hex_digits.simps [simp del]

text \<open>\<open>%0*x\<close>: hexadecimal, padded with zeros to a width, and \<open>%d\<close> of a small number.\<close>

definition format_x :: "nat \<Rightarrow> u32 \<Rightarrow> string" where
  "format_x width v =
     (let ds = hex_digits (unat v) in replicate (width - length ds) (CHR ''0'') @ ds)"

fun format_dec :: "nat \<Rightarrow> string" where
  "format_dec n = (if n < 10 then [hex_digit n] else format_dec (n div 10) @ [hex_digit (n mod 10)])"

declare format_dec.simps [simp del]

text \<open>
  \<open>atoi\<close> of the C library: white space, a sign and digits; what follows is ignored. The value is
  that of \<open>strtol\<close>, which saturates at the 64-bit bounds, converted to \<open>int\<close>.
\<close>

definition is_c_space :: "char \<Rightarrow> bool" where
  "is_c_space c \<longleftrightarrow> c = CHR '' '' \<or> (9 \<le> (of_char c :: nat) \<and> (of_char c :: nat) \<le> 13)"

definition digit_value :: "char \<Rightarrow> nat" where
  "digit_value c = of_char c - 48"

definition is_digit :: "char \<Rightarrow> bool" where
  "is_digit c \<longleftrightarrow> 48 \<le> (of_char c :: nat) \<and> (of_char c :: nat) \<le> 57"

definition digits_value :: "string \<Rightarrow> int" where
  "digits_value ds = foldl (\<lambda>v c. 10 * v + int (digit_value c)) 0 (takeWhile is_digit ds)"

definition atoi :: "string \<Rightarrow> int" where
  "atoi str =
     (let t = dropWhile is_c_space str;
          v = (case t of [] \<Rightarrow> 0
               | c # cs \<Rightarrow> if c = CHR ''-'' then - digits_value cs
                           else if c = CHR ''+'' then digits_value cs else digits_value t);
          v = max (- (2 ^ 63)) (min (2 ^ 63 - 1) v)
      in sint (word_of_int v :: 32 word))"

subsection \<open>Debug level\<close>

text \<open>
  \<open>level\<close> is the static variable, \<open>-1\<close> until the first query; \<open>env\<close> is what \<open>getenv\<close> returns.
  \<open>err\<close> is the text printed to \<open>stderr\<close> so far.
\<close>

record 'p cfg =
  pci :: 'p
  level :: int
  err :: string

definition edu_get_debug_level :: "string option \<Rightarrow> 'p cfg \<Rightarrow> int \<times> 'p cfg" where
  "edu_get_debug_level env c =
     (let c = (if level c < 0
               then c\<lparr>level := (case env of Some t \<Rightarrow> atoi t | None \<Rightarrow> 0)\<rparr> else c)
      in (level c, c))"

definition EDU_DBG :: "string option \<Rightarrow> int \<Rightarrow> string \<Rightarrow> 'p cfg \<Rightarrow> 'p cfg" where
  "EDU_DBG env l msg c =
     (let (d, c) = edu_get_debug_level env c in if d \<ge> l then c\<lparr>err := err c @ msg\<rparr> else c)"

abbreviation (input) DBG_CFG :: int where "DBG_CFG \<equiv> 2"

subsection \<open>Accessors\<close>

definition cfg_reg_name :: "u32 \<Rightarrow> string" where
  "cfg_reg_name addr =
     (if addr = 0x00 then ''VID/DID''
      else if addr = 0x04 then ''CMD/STS''
      else if addr = 0x08 then ''REV/CLASS''
      else if addr = 0x0C then ''BIST/HDR/LAT/CLS''
      else if addr = 0x10 then ''BAR0''
      else if addr = 0x14 then ''BAR1''
      else if addr = 0x18 then ''BAR2''
      else if addr = 0x3C then ''INT_LINE/PIN''
      else if addr \<ge> 0x80 \<and> addr < 0x100 then ''PCIe_CAP''
      else if addr \<ge> 0x100 then ''EXT_CFG''
      else ''CFG'')"

text \<open>The configuration space functions of the PCI core, and the offset of the PCIe capability.\<close>

record 'p cfg_core =
  pci_default_read_config :: "u32 \<Rightarrow> nat \<Rightarrow> 'p \<Rightarrow> u32"
  pci_default_write_config :: "u32 \<Rightarrow> u32 \<Rightarrow> nat \<Rightarrow> 'p \<Rightarrow> 'p"
  pcie_cap_flr_write_config :: "u32 \<Rightarrow> u32 \<Rightarrow> nat \<Rightarrow> 'p \<Rightarrow> 'p"
  exp_cap :: "'p \<Rightarrow> byte"

text \<open>The offset of the Device Control register in the PCIe capability and its FLR bit.\<close>

abbreviation (input) PCI_EXP_DEVCTL :: u32 where "PCI_EXP_DEVCTL \<equiv> 8"
abbreviation (input) PCI_EXP_DEVCTL_BCR_FLR :: u32 where "PCI_EXP_DEVCTL_BCR_FLR \<equiv> 0x8000"

abbreviation (input) newline :: string where "newline \<equiv> [CHR 0x0A]"

definition edu_pci_config_read ::
  "'p cfg_core \<Rightarrow> string option \<Rightarrow> u32 \<Rightarrow> nat \<Rightarrow> 'p cfg \<Rightarrow> u32 \<times> 'p cfg" where
  "edu_pci_config_read F env addr len c =
     (let val = pci_default_read_config F addr len (pci c);
          c = EDU_DBG env DBG_CFG
                (''[TLP] CfgRd0: '' @ cfg_reg_name addr @ '' (0x'' @ format_x 2 addr @ '') len='' @
                 format_dec len @ '' => CplD: 0x'' @ format_x (len * 2) val @ newline) c
      in (val, c))"

definition edu_pci_config_write ::
  "'p cfg_core \<Rightarrow> string option \<Rightarrow> u32 \<Rightarrow> u32 \<Rightarrow> nat \<Rightarrow> 'p cfg \<Rightarrow> 'p cfg" where
  "edu_pci_config_write F env addr val len c =
     (let c = EDU_DBG env DBG_CFG
                (''[TLP] CfgWr0: '' @ cfg_reg_name addr @ '' (0x'' @ format_x 2 addr @ '') len='' @
                 format_dec len @ '' data=0x'' @ format_x (len * 2) val) c;
          c = (if addr = ucast (exp_cap F (pci c)) + PCI_EXP_DEVCTL
                  \<and> val AND PCI_EXP_DEVCTL_BCR_FLR \<noteq> 0
               then EDU_DBG env DBG_CFG '' [FLR triggered!]'' c else c);
          c = EDU_DBG env DBG_CFG newline c;
          c = c\<lparr>pci := pci_default_write_config F addr val len (pci c)\<rparr>
      in c\<lparr>pci := pcie_cap_flr_write_config F addr val len (pci c)\<rparr>)"

subsection \<open>Debug output changes nothing else\<close>

text \<open>The level in force once it has been asked for.\<close>

definition dbg_level :: "string option \<Rightarrow> 'p cfg \<Rightarrow> int" where
  "dbg_level env c = (if level c < 0 then case env of Some t \<Rightarrow> atoi t | None \<Rightarrow> 0 else level c)"

lemma EDU_DBG_effect:
  "EDU_DBG env l msg c =
     c\<lparr>level := dbg_level env c, err := err c @ (if dbg_level env c \<ge> l then msg else [])\<rparr>"
  by (simp add: EDU_DBG_def edu_get_debug_level_def dbg_level_def split: option.split)

lemma dbg_level_idem [simp]: "dbg_level env (c\<lparr>level := dbg_level env c\<rparr>) = dbg_level env c"
  by (simp add: dbg_level_def split: option.split)

lemma dbg_level_frame [simp]:
  "dbg_level env (c\<lparr>pci := p\<rparr>) = dbg_level env c" "dbg_level env (c\<lparr>err := t\<rparr>) = dbg_level env c"
  "dbg_level env (c\<lparr>level := dbg_level env c, err := t\<rparr>) = dbg_level env c"
  by (simp_all add: dbg_level_def split: option.split)

subsection \<open>Numbers in the trace\<close>

definition hex_value :: "char \<Rightarrow> nat" where
  "hex_value ch = (if of_char ch < (58 :: nat) then of_char ch - 48 else of_char ch - 87)"

definition hex_number :: "string \<Rightarrow> nat" where
  "hex_number ds = foldl (\<lambda>v ch. 16 * v + hex_value ch) 0 ds"

lemma hex_value_digit: "n < 16 \<Longrightarrow> hex_value (hex_digit n) = n"
proof -
  have "list_all (\<lambda>n. hex_value (hex_digit n) = n) [0..<16]" by code_simp
  then show "n < 16 \<Longrightarrow> hex_value (hex_digit n) = n" by (simp add: list_all_iff)
qed

lemma hex_number_digits: "hex_number (hex_digits n) = n"
proof (induction n rule: hex_digits.induct)
  case (1 n)
  then show ?case
    by (cases "n < 16") (simp_all add: hex_digits.simps [of n] hex_number_def hex_value_digit)
qed

lemma hex_number_zeros: "hex_number (replicate k (CHR ''0'') @ ds) = hex_number ds"
proof -
  have "foldl (\<lambda>v ch. 16 * v + hex_value ch) 0 (replicate k (CHR ''0'')) = 0"
    by (induction k) (simp_all add: hex_value_def)
  then show ?thesis by (simp add: hex_number_def)
qed

lemma hex_number_format_x: "hex_number (format_x k v) = unat v"
  by (simp add: format_x_def Let_def hex_number_zeros hex_number_digits)

subsection \<open>Properties\<close>

text \<open>A configuration access does exactly what the PCI core does, whatever the debug level and the
  environment variable: the level only decides whether a line is printed, and that line ends with
  the value read or written in hexadecimal.\<close>

lemma config_access_transparent:
  "fst (edu_pci_config_read F env addr len c) = pci_default_read_config F addr len (pci c) \<and>
   pci (snd (edu_pci_config_read F env addr len c)) = pci c \<and>
   (\<exists>pre ds. err (snd (edu_pci_config_read F env addr len c)) =
        err c @ (if dbg_level env c < 2 then [] else pre @ ds @ newline) \<and>
      hex_number ds = unat (fst (edu_pci_config_read F env addr len c))) \<and>
   pci (edu_pci_config_write F env addr val len c) =
     pcie_cap_flr_write_config F addr val len (pci_default_write_config F addr val len (pci c)) \<and>
   (\<exists>pre ds post. err (edu_pci_config_write F env addr val len c) =
        err c @ (if dbg_level env c < 2 then [] else pre @ ds @ post @ newline) \<and>
      hex_number ds = unat val \<and> post \<in> {[], '' [FLR triggered!]''})"
proof -
  let ?v = "pci_default_read_config F addr len (pci c)"
  define pre_rd where "pre_rd = ''[TLP] CfgRd0: '' @ cfg_reg_name addr @ '' (0x'' @ format_x 2 addr @
    '') len='' @ format_dec len @ '' => CplD: 0x''"
  define pre_wr where "pre_wr = ''[TLP] CfgWr0: '' @ cfg_reg_name addr @ '' (0x'' @ format_x 2 addr @
    '') len='' @ format_dec len @ '' data=0x''"
  define post where "post = (if addr = ucast (exp_cap F (pci c)) + PCI_EXP_DEVCTL \<and>
      val AND PCI_EXP_DEVCTL_BCR_FLR \<noteq> 0 then '' [FLR triggered!]'' else [])"
  have rd: "edu_pci_config_read F env addr len c = (?v, c\<lparr>level := dbg_level env c,
      err := err c @ (if dbg_level env c < 2 then [] else pre_rd @ format_x (len * 2) ?v @ newline)\<rparr>)"
    by (simp add: edu_pci_config_read_def EDU_DBG_effect Let_def pre_rd_def)
  have wr: "pci (edu_pci_config_write F env addr val len c) =
      pcie_cap_flr_write_config F addr val len (pci_default_write_config F addr val len (pci c))"
    "err (edu_pci_config_write F env addr val len c) =
      err c @ (if dbg_level env c < 2 then [] else pre_wr @ format_x (len * 2) val @ post @ newline)"
    by (simp_all add: edu_pci_config_write_def EDU_DBG_effect Let_def pre_wr_def post_def)
  have "post \<in> {[], '' [FLR triggered!]''}" by (simp add: post_def)
  then show ?thesis
    unfolding rd wr using hex_number_format_x [of "len * 2"] by (simp del: append_assoc; blast?)
qed

end
