(* ===== verification/Linux_Driver.thy ===== *)
theory Linux_Driver
  imports Prelude
begin

text \<open>
  The Linux driver of \<open>drivers/edu_pci.c\<close>: probing a device with its error paths, and removal. The
  kernel functions it calls are parameters; the locale \<open>pci_resources\<close> states what they do to the
  resources the driver holds, and \<open>host\<close> is a concrete kernel that obeys it.
\<close>

subsection \<open>The kernel\<close>

text \<open>
  \<open>'k\<close> is the state of the kernel, the device included. Pointers are 64-bit words, 0 is \<open>NULL\<close>.
  \<open>store_bar0\<close> and \<open>load_bar0\<close> access the only field of the \<open>struct edu_device\<close> at an address.
\<close>

record 'k kernel =
  kzalloc :: "'k \<Rightarrow> u64 \<times> 'k"
  kfree :: "u64 \<Rightarrow> 'k \<Rightarrow> 'k"
  store_bar0 :: "u64 \<Rightarrow> u64 \<Rightarrow> 'k \<Rightarrow> 'k"
  load_bar0 :: "u64 \<Rightarrow> 'k \<Rightarrow> u64"
  pci_enable_device :: "'k \<Rightarrow> int \<times> 'k"
  pci_disable_device :: "'k \<Rightarrow> 'k"
  pci_request_region :: "nat \<Rightarrow> 'k \<Rightarrow> int \<times> 'k"
  pci_release_region :: "nat \<Rightarrow> 'k \<Rightarrow> 'k"
  pci_iomap :: "nat \<Rightarrow> 'k \<Rightarrow> u64 \<times> 'k"
  pci_iounmap :: "u64 \<Rightarrow> 'k \<Rightarrow> 'k"
  pci_set_drvdata :: "u64 \<Rightarrow> 'k \<Rightarrow> 'k"
  pci_get_drvdata :: "'k \<Rightarrow> u64"
  ioread32 :: "u64 \<Rightarrow> 'k \<Rightarrow> u32 \<times> 'k"
  iowrite32 :: "u32 \<Rightarrow> u64 \<Rightarrow> 'k \<Rightarrow> 'k"

definition ENOMEM :: int where
  "ENOMEM = 12"

subsection \<open>Probe and remove\<close>

text \<open>The cleanup labels fall through to the next one.\<close>

definition err_free :: "'k kernel \<Rightarrow> u64 \<Rightarrow> int \<Rightarrow> 'k \<Rightarrow> int \<times> 'k" where
  "err_free K edu ret k = (ret, kfree K edu k)"

definition err_disable :: "'k kernel \<Rightarrow> u64 \<Rightarrow> int \<Rightarrow> 'k \<Rightarrow> int \<times> 'k" where
  "err_disable K edu ret k = err_free K edu ret (pci_disable_device K k)"

definition err_release :: "'k kernel \<Rightarrow> u64 \<Rightarrow> int \<Rightarrow> 'k \<Rightarrow> int \<times> 'k" where
  "err_release K edu ret k = err_disable K edu ret (pci_release_region K 0 k)"

definition edu_probe_ready :: "'k kernel \<Rightarrow> u64 \<Rightarrow> 'k \<Rightarrow> int \<times> 'k" where
  "edu_probe_ready K edu k =
     (let k = pci_set_drvdata K edu k;
          (device_id, k) = ioread32 K (load_bar0 K edu k + 0x00) k;
          k = iowrite32 K 0xDEADBEEF (load_bar0 K edu k + 0x04) k;
          (scratch, k) = ioread32 K (load_bar0 K edu k + 0x04) k
      in (0, k))"

definition edu_probe :: "'k kernel \<Rightarrow> 'k \<Rightarrow> int \<times> 'k" where
  "edu_probe K k =
     (let (edu, k) = kzalloc K k in
      if edu = 0 then (- ENOMEM, k)
      else let (ret, k) = pci_enable_device K k in
      if ret \<noteq> 0 then err_free K edu ret k
      else let (ret, k) = pci_request_region K 0 k in
      if ret \<noteq> 0 then err_disable K edu ret k
      else let (bar0, k) = pci_iomap K 0 k; k = store_bar0 K edu bar0 k in
      if bar0 = 0 then err_release K edu (- ENOMEM) k
      else edu_probe_ready K edu k)"

definition edu_remove :: "'k kernel \<Rightarrow> 'k \<Rightarrow> 'k" where
  "edu_remove K k =
     (let edu = pci_get_drvdata K k;
          k = pci_iounmap K (load_bar0 K edu k) k;
          k = pci_release_region K 0 k;
          k = pci_disable_device K k
      in kfree K edu k)"

subsection \<open>Resources\<close>

datatype resource = Memory u64 | Device_Enabled | Region nat | Mapping u64

text \<open>
  \<open>held\<close> is the set of resources the driver holds. An operation that succeeds acquires a resource
  that was not held, one that fails acquires nothing, and each release gives its resource back;
  the other operations leave the set alone. The structure and the driver data keep what is stored
  in them.
\<close>

locale pci_resources =
  fixes K :: "'k kernel"
    and held :: "'k \<Rightarrow> resource set"
  assumes alloc:
      "kzalloc K k = (p, k') \<Longrightarrow> held k' = (if p = 0 then held k else insert (Memory p) (held k)) \<and>
         (p \<noteq> 0 \<longrightarrow> Memory p \<notin> held k)"
    and free: "held (kfree K p k) = held k - {Memory p}"
    and enable:
      "pci_enable_device K k = (r, k') \<Longrightarrow>
         held k' = (if r = 0 then insert Device_Enabled (held k) else held k)"
    and disable: "held (pci_disable_device K k) = held k - {Device_Enabled}"
    and request:
      "pci_request_region K n k = (r, k') \<Longrightarrow>
         held k' = (if r = 0 then insert (Region n) (held k) else held k)"
    and release: "held (pci_release_region K n k) = held k - {Region n}"
    and iomap:
      "pci_iomap K n k = (p, k') \<Longrightarrow> held k' = (if p = 0 then held k else insert (Mapping p) (held k)) \<and>
         (p \<noteq> 0 \<longrightarrow> Mapping p \<notin> held k)"
    and iounmap: "held (pci_iounmap K p k) = held k - {Mapping p}"
    and frame:
      "held (store_bar0 K p v k) = held k" "held (pci_set_drvdata K p k) = held k"
      "held (snd (ioread32 K a k)) = held k" "held (iowrite32 K x a k) = held k"
    and data:
      "load_bar0 K p (store_bar0 K p v k) = v"
      "load_bar0 K p (pci_set_drvdata K d k) = load_bar0 K p k"
      "load_bar0 K p (snd (ioread32 K a k)) = load_bar0 K p k"
      "load_bar0 K p (iowrite32 K x a k) = load_bar0 K p k"
      "pci_get_drvdata K (pci_set_drvdata K d k) = d"
      "pci_get_drvdata K (snd (ioread32 K a k)) = pci_get_drvdata K k"
      "pci_get_drvdata K (iowrite32 K x a k) = pci_get_drvdata K k"
begin

lemma ready_held:
  "held (snd (edu_probe_ready K edu k)) = held k"
  "pci_get_drvdata K (snd (edu_probe_ready K edu k)) = edu"
  "load_bar0 K edu (snd (edu_probe_ready K edu k)) = load_bar0 K edu k"
  "fst (edu_probe_ready K edu k) = 0"
  by (simp_all add: edu_probe_ready_def Let_def case_prod_beta frame data)

lemma probe_outcome:
  assumes "Device_Enabled \<notin> held k" and "Region 0 \<notin> held k" and "edu_probe K k = (ret, k')"
  shows "ret \<noteq> 0 \<and> held k' = held k \<or>
    ret = 0 \<and> Memory (pci_get_drvdata K k') \<notin> held k \<and>
      Mapping (load_bar0 K (pci_get_drvdata K k') k') \<notin> held k \<and>
      held k' = held k \<union> {Memory (pci_get_drvdata K k'), Device_Enabled, Region 0,
        Mapping (load_bar0 K (pci_get_drvdata K k') k')}"
proof -
  obtain edu k1 where a: "kzalloc K k = (edu, k1)" by (cases "kzalloc K k")
  obtain r2 k2 where b: "pci_enable_device K k1 = (r2, k2)" by (cases "pci_enable_device K k1")
  obtain r3 k3 where c: "pci_request_region K 0 k2 = (r3, k3)" by (cases "pci_request_region K 0 k2")
  obtain bar k4 where d: "pci_iomap K 0 k3 = (bar, k4)" by (cases "pci_iomap K 0 k3")
  note a' = alloc [OF a] and b' = enable [OF b] and c' = request [OF c] and d' = iomap [OF d]
  consider (oom) "edu = 0" | (enable) "edu \<noteq> 0" "r2 \<noteq> 0" | (region) "edu \<noteq> 0" "r2 = 0" "r3 \<noteq> 0"
    | (map) "edu \<noteq> 0" "r2 = 0" "r3 = 0" "bar = 0" | (ok) "edu \<noteq> 0" "r2 = 0" "r3 = 0" "bar \<noteq> 0"
    by blast
  then show ?thesis
  proof cases
    case oom
    then show ?thesis using assms(3) a' by (simp add: edu_probe_def a ENOMEM_def)
  next
    case enable
    then have "ret = r2" "k' = kfree K edu k2"
      using assms(3) by (simp_all add: edu_probe_def a b err_free_def)
    then show ?thesis using enable a' b' by (auto simp: free)
  next
    case region
    then have "ret = r3" "k' = kfree K edu (pci_disable_device K k3)"
      using assms(3) by (simp_all add: edu_probe_def a b c err_disable_def err_free_def)
    then show ?thesis using region a' b' c' assms(1) by (auto simp: free disable)
  next
    case map
    then have "ret = - ENOMEM"
      "k' = kfree K edu (pci_disable_device K (pci_release_region K 0 (store_bar0 K edu bar k4)))"
      using assms(3) by (simp_all add: edu_probe_def a b c d err_release_def err_disable_def err_free_def)
    then show ?thesis
      using map a' b' c' d' assms(1,2) by (auto simp: free disable release frame ENOMEM_def)
  next
    case ok
    let ?k = "store_bar0 K edu bar k4"
    have "edu_probe K k = edu_probe_ready K edu ?k"
      using ok by (simp add: edu_probe_def a b c d)
    then have k': "ret = fst (edu_probe_ready K edu ?k)" "k' = snd (edu_probe_ready K edu ?k)"
      using assms(3) by (metis fst_conv, metis snd_conv)
    show ?thesis
      using ok a' b' c' d' by (auto simp: k' ready_held data frame)
  qed
qed

lemma remove_held:
  "held (edu_remove K k) = held k - {Mapping (load_bar0 K (pci_get_drvdata K k) k), Region 0,
     Device_Enabled, Memory (pci_get_drvdata K k)}"
  by (auto simp: edu_remove_def Let_def iounmap release disable free)

end

end
