(* ===== verification/Pci_Ids.thy ===== *)
theory Pci_Ids
  imports Linux_Driver
begin

text \<open>
  The identities of the PCI devices, as their class initialisers set them, and the table by which
  the Linux driver recognises its device.
\<close>

record pci_class =
  vendor_id :: u16
  device_id :: u16
  revision :: byte
  class_id :: u16

abbreviation (input) EDU_VENDOR_ID :: u16 where "EDU_VENDOR_ID \<equiv> 0x1234"
abbreviation (input) EDU_PF_DEVICE_ID :: u16 where "EDU_PF_DEVICE_ID \<equiv> 0xED01"
abbreviation (input) EDU_VF_DEVICE_ID :: u16 where "EDU_VF_DEVICE_ID \<equiv> 0xED02"

text \<open>Class codes of the PCI specification.\<close>

abbreviation (input) PCI_CLASS_MEMORY_OTHER :: u16 where "PCI_CLASS_MEMORY_OTHER \<equiv> 0x0580"
abbreviation (input) PCI_CLASS_STORAGE_EXPRESS :: u16 where "PCI_CLASS_STORAGE_EXPRESS \<equiv> 0x0108"

definition edu_pci_class :: pci_class where
  "edu_pci_class = \<lparr>vendor_id = EDU_VENDOR_ID, device_id = EDU_PF_DEVICE_ID, revision = 3,
     class_id = PCI_CLASS_MEMORY_OTHER\<rparr>"

definition edu_vf_class :: pci_class where
  "edu_vf_class = \<lparr>vendor_id = EDU_VENDOR_ID, device_id = EDU_VF_DEVICE_ID, revision = 3,
     class_id = PCI_CLASS_MEMORY_OTHER\<rparr>"

definition edu_nvme_class :: pci_class where
  "edu_nvme_class = \<lparr>vendor_id = 0x1234, device_id = 0xED03, revision = 1,
     class_id = PCI_CLASS_STORAGE_EXPRESS\<rparr>"

definition edu_ids :: "(u16 \<times> u16) list" where
  "edu_ids = [(0x1234, 0xED01)]"

definition pci_match :: "(u16 \<times> u16) list \<Rightarrow> pci_class \<Rightarrow> bool" where
  "pci_match ids c = list_ex (\<lambda>(v, d). v = vendor_id c \<and> d = device_id c) ids"

text \<open>The driver structure the module registers, and what the PCI bus of the kernel does with it for a
  device: it probes the devices the table names.\<close>

record 'k pci_driver =
  drv_name :: string
  id_table :: "(u16 \<times> u16) list"
  probe :: "'k kernel \<Rightarrow> 'k \<Rightarrow> int \<times> 'k"
  remove :: "'k kernel \<Rightarrow> 'k \<Rightarrow> 'k"

definition edu_driver :: "'k pci_driver" where
  "edu_driver = \<lparr>drv_name = ''edu_pci'', id_table = edu_ids, probe = edu_probe, remove = edu_remove\<rparr>"

definition bus_add :: "'k pci_driver \<Rightarrow> 'k kernel \<Rightarrow> pci_class \<Rightarrow> 'k \<Rightarrow> (int \<times> 'k) option" where
  "bus_add D K c k = (if pci_match (id_table D) c then Some (probe D K k) else None)"

text \<open>The driver binds to the physical function only; the three identities differ.\<close>

lemma driver_matches_pf_only:
  "pci_match edu_ids edu_pci_class" "\<not> pci_match edu_ids edu_vf_class"
  "\<not> pci_match edu_ids edu_nvme_class"
  by (simp_all add: pci_match_def edu_ids_def edu_pci_class_def edu_vf_class_def edu_nvme_class_def)

lemma driver_probes_pf_only:
  "bus_add edu_driver K edu_pci_class k = Some (edu_probe K k)"
  "bus_add edu_driver K edu_vf_class k = None" "bus_add edu_driver K edu_nvme_class k = None"
  by (simp_all add: bus_add_def edu_driver_def driver_matches_pf_only)

lemma device_ids_distinct:
  "distinct (map (\<lambda>c. (vendor_id c, device_id c)) [edu_pci_class, edu_vf_class, edu_nvme_class])"
  by (simp add: edu_pci_class_def edu_vf_class_def edu_nvme_class_def)

end
