(* ===== verification/Usb_Env.thy ===== *)
theory Usb_Env
  imports Prelude
begin

text \<open>
  The USB core of QEMU as the two USB devices use it: the fields of a packet they read and write,
  and the two functions they call, which are parameters of the device models. The locale
  \<open>usb_core\<close> states the documented behaviour of \<open>usb_packet_copy\<close>; \<open>iov_copy\<close> obeys it.
\<close>

datatype token = USB_TOKEN_IN | USB_TOKEN_OUT | USB_TOKEN_SETUP

text \<open>\<open>iov\<close> is the memory the packet describes, \<open>status\<close> is \<open>None\<close> while it is success.\<close>

datatype usb_ret = USB_RET_SUCCESS | USB_RET_NAK | USB_RET_STALL

record USBPacket =
  pid :: token
  ep_nr :: nat
  iov :: "byte list"
  actual_length :: nat
  status :: usb_ret

text \<open>
  \<open>usb_packet_copy p buf\<close> is \<open>usb_packet_copy(p, buf, n)\<close> with \<open>buf\<close> the \<open>n\<close> bytes at the pointer:
  it returns them as they are afterwards, and the packet. \<open>usb_desc_handle_control\<close> handles the
  standard requests: it returns its code, the packet and the data buffer.
\<close>

type_synonym packet_copy = "USBPacket \<Rightarrow> byte list \<Rightarrow> (byte list \<times> USBPacket) res"

type_synonym control_handler =
  "USBPacket \<Rightarrow> int \<Rightarrow> int \<Rightarrow> int \<Rightarrow> int \<Rightarrow> byte list \<Rightarrow> int \<times> USBPacket \<times> byte list"

locale usb_core =
  fixes usb_packet_copy :: packet_copy
  assumes copy_in:
      "pid p = USB_TOKEN_IN \<Longrightarrow> actual_length p + length buf \<le> length (iov p) \<Longrightarrow>
       usb_packet_copy p buf =
         Inr (buf, p\<lparr>iov := memcpy (iov p) (actual_length p) buf,
                     actual_length := actual_length p + length buf\<rparr>)"
    and copy_out:
      "pid p = USB_TOKEN_OUT \<Longrightarrow> actual_length p + length buf \<le> length (iov p) \<Longrightarrow>
       usb_packet_copy p buf =
         Inr (subarr (actual_length p) (length buf) (iov p),
              p\<lparr>actual_length := actual_length p + length buf\<rparr>)"
    and copy_overrun:
      "length (iov p) < actual_length p + length buf \<Longrightarrow>
       usb_packet_copy p buf = Inl Assertion_Failed"

definition iov_copy :: packet_copy where
  "iov_copy p buf =
     (let n = actual_length p + length buf in
      if length (iov p) < n then Inl Assertion_Failed
      else if pid p = USB_TOKEN_IN
      then Inr (buf, p\<lparr>iov := memcpy (iov p) (actual_length p) buf, actual_length := n\<rparr>)
      else Inr (subarr (actual_length p) (length buf) (iov p), p\<lparr>actual_length := n\<rparr>))"

interpretation usb: usb_core iov_copy
  by unfold_locales (simp_all add: iov_copy_def Let_def)

subsection \<open>Arrays\<close>

text \<open>
  A local array of \<open>n\<close> bytes holds at entry what the stack held at its place. A store outside an array
  is a fault, and so is a call of \<open>usb_packet_copy\<close> with more bytes than the array has that it is given.
\<close>

definition local_array :: "nat \<Rightarrow> (nat \<Rightarrow> byte) \<Rightarrow> byte list" where
  "local_array n stack = map stack [0..<n]"

definition array_set :: "'a list \<Rightarrow> nat \<Rightarrow> 'a \<Rightarrow> 'a list res" where
  "array_set a i x = (if i < length a then Inr (a[i := x]) else Inl Out_Of_Bounds)"

definition copy_array ::
  "packet_copy \<Rightarrow> USBPacket \<Rightarrow> byte list \<Rightarrow> nat \<Rightarrow> (byte list \<times> USBPacket) res" where
  "copy_array copy p a n =
     (if n > length a then Inl Out_Of_Bounds
      else res_bind (copy p (take n a)) (\<lambda>(d, p). Inr (memcpy a 0 d, p)))"

lemma length_local_array [simp, len_simps]: "length (local_array n stack) = n"
  by (simp add: local_array_def)

subsection \<open>Packets of a host\<close>

text \<open>A packet as the host submits it.\<close>

definition in_packet :: "nat \<Rightarrow> nat \<Rightarrow> USBPacket" where
  "in_packet ep n = \<lparr>pid = USB_TOKEN_IN, ep_nr = ep, iov = replicate n 0, actual_length = 0,
     status = USB_RET_SUCCESS\<rparr>"

definition out_packet :: "nat \<Rightarrow> byte list \<Rightarrow> USBPacket" where
  "out_packet ep d = \<lparr>pid = USB_TOKEN_OUT, ep_nr = ep, iov = d, actual_length = 0,
     status = USB_RET_SUCCESS\<rparr>"

lemma packet_simps [simp]:
  "pid (in_packet ep n) = USB_TOKEN_IN" "ep_nr (in_packet ep n) = ep"
  "iov (in_packet ep n) = replicate n 0" "actual_length (in_packet ep n) = 0"
  "pid (out_packet ep d) = USB_TOKEN_OUT" "ep_nr (out_packet ep d) = ep"
  "iov (out_packet ep d) = d" "actual_length (out_packet ep d) = 0"
  by (simp_all add: in_packet_def out_packet_def)

context usb_core
begin

lemma copy_in_packet:
  "length buf \<le> n \<Longrightarrow> usb_packet_copy (in_packet ep n) buf =
     Inr (buf, (in_packet ep n)\<lparr>iov := buf @ replicate (n - length buf) 0, actual_length := length buf\<rparr>)"
  using copy_in [of "in_packet ep n" buf] by (simp add: memcpy_def)

lemma copy_out_packet:
  "length buf \<le> length d \<Longrightarrow> usb_packet_copy (out_packet ep d) buf =
     Inr (take (length buf) d, (out_packet ep d)\<lparr>actual_length := length buf\<rparr>)"
  using copy_out [of "out_packet ep d" buf] by (simp add: subarr_def)

end

end
