(* ===== verification/Usb_Edu.thy ===== *)
theory Usb_Edu
  imports Usb_Env
begin

text \<open>
  The USB device of \<open>dev-edu.c\<close>: a 32-bit counter set over the bulk OUT endpoint and returned over
  the bulk IN endpoint.
\<close>

subsection \<open>State and handlers\<close>

record USBEduState =
  edu_counter :: u32

definition usb_edu_handle_reset :: "USBEduState \<Rightarrow> USBEduState" where
  "usb_edu_handle_reset s = s\<lparr>edu_counter := 0\<rparr>"

definition usb_edu_handle_control ::
  "control_handler \<Rightarrow> USBPacket \<Rightarrow> int \<Rightarrow> int \<Rightarrow> int \<Rightarrow> int \<Rightarrow> byte list \<Rightarrow> USBPacket \<times> byte list" where
  "usb_edu_handle_control desc_control p request value index len data =
     (let (ret, p, data) = desc_control p request value index len data
      in if ret \<ge> 0 then (p, data) else (p\<lparr>status := USB_RET_STALL\<rparr>, data))"

text \<open>\<open>stack\<close> is what the local buffer of 64 bytes holds at entry.\<close>

definition usb_edu_handle_data ::
  "packet_copy \<Rightarrow> byte list \<Rightarrow> USBPacket \<Rightarrow> USBEduState \<Rightarrow> (USBPacket \<times> USBEduState) res" where
  "usb_edu_handle_data copy stack p s =
     (if ep_nr p = 1 then
        (if pid p = USB_TOKEN_IN then
           (let c = edu_counter s;
                buf = [ucast (c AND 0xFF), ucast (drop_bit 8 c AND 0xFF),
                       ucast (drop_bit 16 c AND 0xFF), ucast (drop_bit 24 c AND 0xFF)]
            in res_bind (copy p buf) (\<lambda>(_, p). Inr (p, s)))
         else Inr (p, s))
      else if ep_nr p = 2 then
        (if pid p = USB_TOKEN_OUT then
           res_bind (copy p (take 4 stack)) (\<lambda>(buf, p).
             Inr (p, s\<lparr>edu_counter := ucast (buf ! 0) OR push_bit 8 (ucast (buf ! 1)) OR
                       push_bit 16 (ucast (buf ! 2)) OR push_bit 24 (ucast (buf ! 3))\<rparr>))
         else Inr (p, s))
      else Inr (p\<lparr>status := USB_RET_STALL\<rparr>, s))"

subsection \<open>The counter on the wire\<close>

lemma counter_bytes:
  "[ucast (c AND 0xFF), ucast (drop_bit 8 c AND 0xFF), ucast (drop_bit 16 c AND 0xFF),
    ucast (drop_bit 24 c AND 0xFF)] = le_bytes 4 (c :: u32)"
proof -
  have "ucast (x AND 0xFF) = (ucast x :: byte)" for x :: u32
  proof -
    have m: "(0xFF :: u32) = mask 8" by (simp add: mask_eq_exp_minus_1)
    show ?thesis
      unfolding m by (rule bit_word_eqI) (simp add: bit_simps)
  qed
  then show ?thesis by (simp add: le_bytes_def upt_rec)
qed

lemma list4E:
  assumes "length xs = 4"
  obtains a b c d where "xs = [a, b, c, d]"
  using assms by (auto simp: length_Suc_conv numeral_eq_Suc)

lemma counter_word:
  "ucast a OR push_bit 8 (ucast b) OR push_bit 16 (ucast c) OR push_bit 24 (ucast d) =
   (le_word [a, b, c, d] :: u32)"
  by (simp add: push_bit_or or.assoc)

context usb_core
begin

lemma handle_out:
  assumes "length stack = 64" and "4 \<le> length d"
  shows "usb_edu_handle_data usb_packet_copy stack (out_packet 2 d) s =
         Inr ((out_packet 2 d)\<lparr>actual_length := 4\<rparr>, s\<lparr>edu_counter := le_word (take 4 d)\<rparr>)"
proof -
  have "length (take 4 d) = 4" using assms(2) by simp
  then obtain a b c e where d: "take 4 d = [a, b, c, e]" by (rule list4E)
  show ?thesis
    using copy_out_packet [of "take 4 stack" d 2] assms d
    by (simp add: usb_edu_handle_data_def counter_word del: le_word.simps)
qed

lemma handle_in:
  assumes "4 \<le> n"
  shows "usb_edu_handle_data usb_packet_copy stack (in_packet 1 n) s =
         Inr ((in_packet 1 n)\<lparr>iov := le_bytes 4 (edu_counter s) @ replicate (n - 4) 0,
                              actual_length := 4\<rparr>, s)"
  using copy_in_packet [of "le_bytes 4 (edu_counter s)" n 1] assms
  by (simp add: usb_edu_handle_data_def counter_bytes)

end

subsection \<open>Properties\<close>

text \<open>The counter round-trips: a host that sends four bytes to endpoint 2 and then reads endpoint
  1 gets the same four bytes.\<close>

lemma usb_counter_round_trip:
  assumes "usb_core copy" and "length stack = 64" and "length d = 4" and "4 \<le> n"
  shows "\<exists>p s' p'. usb_edu_handle_data copy stack (out_packet 2 d) s = Inr (p, s') \<and>
           usb_edu_handle_data copy stack' (in_packet 1 n) s' = Inr (p', s') \<and>
           take (actual_length p') (iov p') = d"
proof -
  have "le_bytes 4 (le_word d :: u32) = d"
    by (rule le_bytes_le_word) (simp_all add: assms(3))
  moreover have out: "usb_edu_handle_data copy stack (out_packet 2 d) s =
      Inr ((out_packet 2 d)\<lparr>actual_length := 4\<rparr>, s\<lparr>edu_counter := le_word d\<rparr>)"
    using usb_core.handle_out [OF assms(1,2), of d s] assms(3) by simp
  moreover note usb_core.handle_in [OF assms(1,4), of stack' "s\<lparr>edu_counter := le_word d\<rparr>"]
  ultimately show ?thesis
    by (intro exI conjI) (assumption, assumption, simp add: assms(3))
qed

lemma usb_counter_round_trip_example:
  "\<exists>p s' p'. usb_edu_handle_data iov_copy (replicate 64 0) (out_packet 2 [1, 2, 3, 4]) \<lparr>edu_counter = 9\<rparr> =
       Inr (p, s') \<and>
     usb_edu_handle_data iov_copy [] (in_packet 1 64) s' = Inr (p', s') \<and>
     take (actual_length p') (iov p') = [1, 2, 3, 4]"
  by (rule usb_counter_round_trip [OF usb.usb_core_axioms]) simp_all

text \<open>A transfer to a data endpoint in its own direction that is shorter than four bytes fails
  the assertion in the packet copy: a guest can stop the emulator with a short packet.\<close>

lemma usb_short_packet_aborts:
  assumes "usb_core copy" and "length stack = 64" and "actual_length p = 0" and "length (iov p) < 4"
    and "ep_nr p = 1 \<and> pid p = USB_TOKEN_IN \<or> ep_nr p = 2 \<and> pid p = USB_TOKEN_OUT"
  shows "usb_edu_handle_data copy stack p s = Inl Assertion_Failed"
proof -
  have "copy p buf = Inl Assertion_Failed" if "length buf = 4" for buf
    using usb_core.copy_overrun [OF assms(1), of p buf] assms(3,4) that by simp
  then show ?thesis using assms(2,5) by (elim disjE) (simp_all add: usb_edu_handle_data_def)
qed

lemma usb_short_packet_aborts_example:
  "usb_edu_handle_data iov_copy (replicate 64 0) (out_packet 2 [1, 2]) \<lparr>edu_counter = 9\<rparr> =
     Inl Assertion_Failed"
  by (rule usb_short_packet_aborts [OF usb.usb_core_axioms]) simp_all

end
