(* ===== verification/Usb_Serial.thy ===== *)
theory Usb_Serial
  imports Usb_Env
begin

text \<open>
  The USB serial device of \<open>dev-edu-serial.c\<close>: CDC class requests, and the echo of what the host
  sends, prefixed by a counter. \<open>snprintf\<close> with the format the code uses is written out; strings
  are byte lists.
\<close>

subsection \<open>Formatting\<close>

text \<open>Decimal digits, most significant first.\<close>

fun dec_digits :: "nat \<Rightarrow> byte list" where
  "dec_digits n = (if n < 10 then [of_nat (48 + n)]
     else dec_digits (n div 10) @ [of_nat (48 + n mod 10)])"

declare dec_digits.simps [simp del]

text \<open>A \<open>uint32_t\<close> passed to \<open>%d\<close> is read as a signed integer.\<close>

definition format_d :: "u32 \<Rightarrow> byte list" where
  "format_d x = (if sint x < 0 then 0x2D # dec_digits (nat (- sint x)) else dec_digits (nat (sint x)))"

text \<open>The bytes of a C string: those before the first NUL.\<close>

definition c_string :: "byte list \<Rightarrow> byte list" where
  "c_string bs = takeWhile (\<lambda>b. b \<noteq> 0) bs"

text \<open>\<open>snprintf(buf, n, ...)\<close> of the formatted text \<open>t\<close>: at most \<open>n - 1\<close> bytes and a NUL are stored,
  the length of the whole text is returned.\<close>

definition snprintf :: "byte list \<Rightarrow> nat \<Rightarrow> byte list \<Rightarrow> byte list \<times> nat" where
  "snprintf buf n t = (memcpy buf 0 (take (n - 1) t @ [0]), length t)"

subsection \<open>State and handlers\<close>

record USBEduSerialState =
  counter :: u32
  rx_buf :: "byte list"
  rx_len :: nat

definition usb_edu_serial_reset :: "USBEduSerialState \<Rightarrow> USBEduSerialState" where
  "usb_edu_serial_reset s = s\<lparr>counter := 0, rx_len := 0\<rparr>"

definition line_coding :: "byte list" where
  "line_coding = [0x00, 0xC2, 0x01, 0x00, 0, 0, 8]"

definition usb_edu_serial_handle_control ::
  "control_handler \<Rightarrow> USBPacket \<Rightarrow> int \<Rightarrow> int \<Rightarrow> int \<Rightarrow> int \<Rightarrow> byte list \<Rightarrow> (USBPacket \<times> byte list) res" where
  "usb_edu_serial_handle_control desc_control p request value index len data =
     (let (ret, p, data) = desc_control p request value index len data
      in if ret \<ge> 0 then Inr (p, data)
         else if request = 0x2021 \<or> request = 0x2022 then Inr (p\<lparr>actual_length := 0\<rparr>, data)
         else if request = 0x21A1 then
           (if length data < 7 then Inl Out_Of_Bounds
            else Inr (p\<lparr>actual_length := 7\<rparr>, memcpy data 0 line_coding))
         else Inr (p\<lparr>status := USB_RET_STALL\<rparr>, data))"

text \<open>
  Endpoint 2 sends \<open>rx_len\<close> bytes of \<open>rx_buf\<close>; endpoint 3 receives a packet of any size into the local
  buffer and stores a NUL behind it. Neither checks its length against its array. The handler
  declares the local buffer, of 64 bytes; \<open>stack\<close> is what the stack held at its place.
\<close>

definition serial_send :: "packet_copy \<Rightarrow> USBPacket \<Rightarrow> USBEduSerialState \<Rightarrow> (USBPacket \<times> USBEduSerialState) res" where
  "serial_send copy p s =
     (if rx_len s > 0 then
        (let n = (if rx_len s > length (iov p) then length (iov p) else rx_len s)
         in res_bind (copy_array copy p (rx_buf s) n) (\<lambda>(buf, p).
              Inr (p, s\<lparr>rx_buf := buf, rx_len := 0\<rparr>)))
      else Inr (p\<lparr>status := USB_RET_NAK\<rparr>, s))"

definition serial_receive ::
  "packet_copy \<Rightarrow> byte list \<Rightarrow> USBPacket \<Rightarrow> USBEduSerialState \<Rightarrow> (USBPacket \<times> USBEduSerialState) res" where
  "serial_receive copy buf p s =
     (let len = length (iov p) in
      res_bind (copy_array copy p buf len) (\<lambda>(buf, p).
      res_bind (array_set buf len 0) (\<lambda>buf.
        let s = s\<lparr>counter := counter s + 1\<rparr>;
            (b, k) = snprintf (rx_buf s) (length (rx_buf s))
              ([0x5B] @ format_d (counter s) @ [0x5D, 0x20] @ c_string buf)
        in Inr (p, s\<lparr>rx_buf := b, rx_len := k\<rparr>))))"

definition usb_edu_serial_handle_data ::
  "packet_copy \<Rightarrow> (nat \<Rightarrow> byte) \<Rightarrow> USBPacket \<Rightarrow> USBEduSerialState \<Rightarrow> (USBPacket \<times> USBEduSerialState) res" where
  "usb_edu_serial_handle_data copy stack p s =
     (let buf = local_array 64 stack in
      if ep_nr p = 1 then Inr (p\<lparr>status := USB_RET_NAK\<rparr>, s)
      else if ep_nr p = 2 then serial_send copy p s
      else if ep_nr p = 3 then serial_receive copy buf p s
      else Inr (p\<lparr>status := USB_RET_STALL\<rparr>, s))"

subsection \<open>Echo\<close>

definition echo_text :: "u32 \<Rightarrow> byte list \<Rightarrow> byte list" where
  "echo_text c d = [0x5B] @ format_d c @ [0x5D, 0x20] @ d"

lemma c_string_prefix: "0 \<notin> set d \<Longrightarrow> c_string (d @ 0 # x) = d"
  by (induction d) (simp_all add: c_string_def)

context usb_core
begin

lemma receive_echo:
  assumes "length d < length buf" and "length (rx_buf s) = 64" and "0 \<notin> set d"
    and "t = echo_text (counter s + 1) d"
  shows "serial_receive usb_packet_copy buf (out_packet 3 d) s =
         Inr ((out_packet 3 d)\<lparr>actual_length := length d\<rparr>,
              s\<lparr>counter := counter s + 1, rx_buf := memcpy (rx_buf s) 0 (take 63 t @ [0]),
                rx_len := length t\<rparr>)"
proof -
  have "(memcpy buf 0 d)[length d := 0] = d @ 0 # drop (Suc (length d)) buf"
    using assms(1) by (simp add: memcpy_def list_update_append Cons_nth_drop_Suc [symmetric])
  then have "c_string ((memcpy buf 0 d)[length d := 0]) = d"
    using assms(3) by (simp add: c_string_prefix)
  then show ?thesis
    using copy_out_packet [of "take (length d) buf" d 3] assms
    by (simp add: serial_receive_def copy_array_def array_set_def snprintf_def echo_text_def Let_def)
qed

lemma send_buffer:
  assumes "0 < rx_len s" and "rx_len s \<le> n" and "rx_len s \<le> length (rx_buf s)"
  shows "\<exists>p' s'. serial_send usb_packet_copy (in_packet 2 n) s = Inr (p', s') \<and>
           take (actual_length p') (iov p') = take (rx_len s) (rx_buf s) \<and> rx_len s' = 0"
  using copy_in_packet [of "take (rx_len s) (rx_buf s)" n 2] assms
  by (auto simp: serial_send_def copy_array_def Let_def)

text \<open>A packet faults when it does not leave room for the NUL.\<close>

lemma receive_fault:
  "serial_receive usb_packet_copy buf (out_packet 3 d) s = Inl e \<longleftrightarrow>
   e = Out_Of_Bounds \<and> length buf \<le> length d"
  using copy_out_packet [of "take (length d) buf" d 3]
  by (auto simp: serial_receive_def copy_array_def array_set_def snprintf_def Let_def not_le not_less)

end

subsection \<open>Properties\<close>

text \<open>Echo: after a host has sent a text without NUL bytes, short enough for its echo to fit in
  63 bytes, a read of the bulk IN endpoint returns the text prefixed by \<open>[n] \<close>, with \<open>n\<close> the number
  of packets received since reset, in decimal.\<close>

lemma serial_echoes_text:
  assumes "usb_core copy" and "length (rx_buf s) = 64" and "0 \<notin> set d"
    and "t = echo_text (counter s + 1) d" and "length t \<le> 63" and "length t \<le> n"
  shows "\<exists>p s1 p' s2. usb_edu_serial_handle_data copy stack (out_packet 3 d) s = Inr (p, s1) \<and>
           usb_edu_serial_handle_data copy stack' (in_packet 2 n) s1 = Inr (p', s2) \<and>
           take (actual_length p') (iov p') = t \<and> counter s2 = counter s + 1"
proof -
  let ?s1 = "s\<lparr>counter := counter s + 1, rx_buf := memcpy (rx_buf s) 0 (take 63 t @ [0]),
    rx_len := length t\<rparr>"
  have d: "length d < 64" "0 < length t" using assms(4,5) by (simp_all add: echo_text_def)
  have "usb_edu_serial_handle_data copy stack (out_packet 3 d) s =
        Inr ((out_packet 3 d)\<lparr>actual_length := length d\<rparr>, ?s1)"
    using usb_core.receive_echo [OF assms(1) _ assms(2,3,4), of "local_array 64 stack"] d(1)
    by (simp add: usb_edu_serial_handle_data_def)
  moreover have "take (length t) (rx_buf ?s1) = t"
    using assms(5) by (simp add: memcpy_def)
  moreover have "length t \<le> length (rx_buf ?s1)" using assms(2,5) by simp
  then obtain p' s2 where "serial_send copy (in_packet 2 n) ?s1 = Inr (p', s2)"
      "take (actual_length p') (iov p') = take (length t) (rx_buf ?s1)"
    using usb_core.send_buffer [OF assms(1), of ?s1 n] d(2) assms(6) by auto
  moreover have "counter s2 = counter s + 1" if "serial_send copy (in_packet 2 n) ?s1 = Inr (p', s2)"
    using that by (auto simp: serial_send_def Let_def res_bind_Inr_iff split: if_splits)
  ultimately show ?thesis by (simp add: usb_edu_serial_handle_data_def)
qed

text \<open>The state after a reset.\<close>

definition serial_reset_state :: USBEduSerialState where
  "serial_reset_state = \<lparr>counter = 0, rx_buf = replicate 64 0, rx_len = 0\<rparr>"

lemma format_d_1: "format_d 1 = [0x31]"
  by (simp add: format_d_def dec_digits.simps)

lemma serial_echoes_text_example:
  "\<exists>p s1 p' s2. usb_edu_serial_handle_data iov_copy (\<lambda>_. 0xAA) (out_packet 3 [0x68, 0x69])
         serial_reset_state = Inr (p, s1) \<and>
       usb_edu_serial_handle_data iov_copy (\<lambda>_. 0) (in_packet 2 64) s1 = Inr (p', s2) \<and>
       take (actual_length p') (iov p') = [0x5B, 0x31, 0x5D, 0x20, 0x68, 0x69] \<and>
       counter s2 = counter serial_reset_state + 1"
  by (rule serial_echoes_text [OF usb.usb_core_axioms])
     (simp_all add: serial_reset_state_def echo_text_def format_d_1)

text \<open>C35. The length an echo leaves behind is that of the whole text, not of the part that fits: a
  host that sends 60 bytes and asks for more than 64 makes the device read past its buffer.\<close>

theorem serial_long_echo_overreads:
  assumes "usb_core copy" and "length (rx_buf s) = 64" and "0 \<notin> set d"
    and "length d < 64" and "t = echo_text (counter s + 1) d" and "64 < length t" and "64 < n"
  shows "\<exists>p s1. usb_edu_serial_handle_data copy stack (out_packet 3 d) s = Inr (p, s1) \<and>
           usb_edu_serial_handle_data copy stack' (in_packet 2 n) s1 = Inl Out_Of_Bounds"
  using usb_core.receive_echo [OF assms(1) _ assms(2,3,5), of "local_array 64 stack"] assms(2,4,6,7)
  by (auto simp: usb_edu_serial_handle_data_def serial_send_def copy_array_def Let_def)

theorem serial_long_echo_overreads_witness:
  "\<exists>p s1. usb_edu_serial_handle_data iov_copy (\<lambda>_. 0) (out_packet 3 (replicate 63 0x41))
       serial_reset_state = Inr (p, s1) \<and>
     usb_edu_serial_handle_data iov_copy (\<lambda>_. 0) (in_packet 2 512) s1 = Inl Out_Of_Bounds"
  by (rule serial_long_echo_overreads [OF usb.usb_core_axioms, OF _ _ _ refl])
     (simp_all add: serial_reset_state_def echo_text_def format_d_1)

text \<open>The class requests of a CDC host (SET_LINE_CODING, SET_CONTROL_LINE_STATE and
  GET_LINE_CODING, coded as the USB core of QEMU passes them, \<open>bmRequestType\<close> in the high byte)
  match none of the cases of the handler, whose codes have the bytes swapped: they all stall.\<close>

lemma serial_class_requests_stall:
  assumes "desc_control p request value index len data = (ret, p', data')" and "ret < 0"
    and "request = 0x21 * 256 + 0x20 \<or> request = 0x21 * 256 + 0x22 \<or> request = 0xA1 * 256 + 0x21"
  shows "usb_edu_serial_handle_control desc_control p request value index len data =
         Inr (p'\<lparr>status := USB_RET_STALL\<rparr>, data')"
  using assms by (auto simp: usb_edu_serial_handle_control_def)

lemma serial_class_requests_stall_example:
  "usb_edu_serial_handle_control (\<lambda>p r v i l d. (-1, p, d)) (in_packet 0 8) 0xA121 0 0 7 [] =
     Inr ((in_packet 0 8)\<lparr>status := USB_RET_STALL\<rparr>, [])"
  by (rule serial_class_requests_stall [OF refl]) simp_all

end
