(* ===== verification/Usb_Desc.thy ===== *)
theory Usb_Desc
  imports Usb_Edu Usb_Serial
begin

text \<open>
  The descriptor tables of the two USB devices, what makes such a table consistent, and the
  agreement of the tables with the handlers.
\<close>

subsection \<open>Descriptors\<close>

record USBDescEndpoint =
  bEndpointAddress :: byte
  ep_bmAttributes :: byte
  wMaxPacketSize :: u16
  bInterval :: byte

record USBDescIface =
  bInterfaceNumber :: byte
  bNumEndpoints :: byte
  bInterfaceClass :: byte
  bInterfaceSubClass :: byte
  bInterfaceProtocol :: byte
  eps :: "USBDescEndpoint list"

record USBDescConfig =
  bNumInterfaces :: byte
  bConfigurationValue :: byte
  bmAttributes :: byte
  bMaxPower :: byte
  nif :: byte
  ifs :: "USBDescIface list"

record USBDescDevice =
  bcdUSB :: u16
  bDeviceClass :: byte
  bMaxPacketSize0 :: byte
  bNumConfigurations :: byte
  confs :: "USBDescConfig list"

record USBDescID =
  idVendor :: u16
  idProduct :: u16
  bcdDevice :: u16
  iManufacturer :: nat
  iProduct :: nat
  iSerialNumber :: nat

record USBDesc =
  desc_id :: USBDescID
  full :: USBDescDevice
  str :: "(nat \<times> string) list"

text \<open>Constants of the USB specification.\<close>

abbreviation (input) USB_DIR_IN :: byte where "USB_DIR_IN \<equiv> 0x80"
abbreviation (input) USB_DIR_OUT :: byte where "USB_DIR_OUT \<equiv> 0"
abbreviation (input) USB_ENDPOINT_XFER_BULK :: byte where "USB_ENDPOINT_XFER_BULK \<equiv> 2"
abbreviation (input) USB_ENDPOINT_XFER_INT :: byte where "USB_ENDPOINT_XFER_INT \<equiv> 3"
abbreviation (input) USB_CLASS_VENDOR_SPEC :: byte where "USB_CLASS_VENDOR_SPEC \<equiv> 0xFF"
abbreviation (input) USB_CFG_ATT_ONE :: byte where "USB_CFG_ATT_ONE \<equiv> 0x80"
abbreviation (input) USB_CFG_ATT_SELFPOWER :: byte where "USB_CFG_ATT_SELFPOWER \<equiv> 0x40"

abbreviation (input) STR_MANUFACTURER :: nat where "STR_MANUFACTURER \<equiv> 1"
abbreviation (input) STR_PRODUCT :: nat where "STR_PRODUCT \<equiv> 2"
abbreviation (input) STR_SERIAL :: nat where "STR_SERIAL \<equiv> 3"

subsection \<open>\<open>dev-edu.c\<close>\<close>

definition edu_desc_strings :: "(nat \<times> string) list" where
  "edu_desc_strings = [(STR_MANUFACTURER, ''QEMU''), (STR_PRODUCT, ''Educational USB Device''),
     (STR_SERIAL, ''1234'')]"

definition edu_desc_iface :: USBDescIface where
  "edu_desc_iface = \<lparr>bInterfaceNumber = 0, bNumEndpoints = 2,
     bInterfaceClass = USB_CLASS_VENDOR_SPEC, bInterfaceSubClass = 0, bInterfaceProtocol = 0,
     eps =
       [\<lparr>bEndpointAddress = USB_DIR_IN OR 0x01, ep_bmAttributes = USB_ENDPOINT_XFER_BULK,
         wMaxPacketSize = 64, bInterval = 0\<rparr>,
        \<lparr>bEndpointAddress = USB_DIR_OUT OR 0x02, ep_bmAttributes = USB_ENDPOINT_XFER_BULK,
         wMaxPacketSize = 64, bInterval = 0\<rparr>]\<rparr>"

definition edu_desc_device :: USBDescDevice where
  "edu_desc_device = \<lparr>bcdUSB = 0x0200, bDeviceClass = USB_CLASS_VENDOR_SPEC,
     bMaxPacketSize0 = 64, bNumConfigurations = 1,
     confs =
       [\<lparr>bNumInterfaces = 1, bConfigurationValue = 1, bmAttributes = USB_CFG_ATT_ONE,
         bMaxPower = 50, nif = 1, ifs = [edu_desc_iface]\<rparr>]\<rparr>"

definition desc_edu :: USBDesc where
  "desc_edu = \<lparr>
     desc_id = \<lparr>idVendor = 0x1234, idProduct = 0xED00, bcdDevice = 0x0100,
       iManufacturer = STR_MANUFACTURER, iProduct = STR_PRODUCT, iSerialNumber = STR_SERIAL\<rparr>,
     full = edu_desc_device, str = edu_desc_strings\<rparr>"

subsection \<open>\<open>dev-edu-serial.c\<close>\<close>

definition serial_desc_strings :: "(nat \<times> string) list" where
  "serial_desc_strings = [(STR_MANUFACTURER, ''QEMU''), (STR_PRODUCT, ''Edu Serial''),
     (STR_SERIAL, ''12345'')]"

definition serial_desc_ifaces :: "USBDescIface list" where
  "serial_desc_ifaces =
     [\<lparr>bInterfaceNumber = 0, bNumEndpoints = 1, bInterfaceClass = 0x02,
       bInterfaceSubClass = 0x02, bInterfaceProtocol = 0x01,
       eps =
         [\<lparr>bEndpointAddress = USB_DIR_IN OR 0x01, ep_bmAttributes = USB_ENDPOINT_XFER_INT,
           wMaxPacketSize = 8, bInterval = 255\<rparr>]\<rparr>,
      \<lparr>bInterfaceNumber = 1, bNumEndpoints = 2, bInterfaceClass = 0x0A,
       bInterfaceSubClass = 0, bInterfaceProtocol = 0,
       eps =
         [\<lparr>bEndpointAddress = USB_DIR_IN OR 0x02, ep_bmAttributes = USB_ENDPOINT_XFER_BULK,
           wMaxPacketSize = 64, bInterval = 0\<rparr>,
          \<lparr>bEndpointAddress = USB_DIR_OUT OR 0x03, ep_bmAttributes = USB_ENDPOINT_XFER_BULK,
           wMaxPacketSize = 64, bInterval = 0\<rparr>]\<rparr>]"

definition serial_desc_device :: USBDescDevice where
  "serial_desc_device = \<lparr>bcdUSB = 0x0200, bDeviceClass = 0x02,
     bMaxPacketSize0 = 64, bNumConfigurations = 1,
     confs =
       [\<lparr>bNumInterfaces = 2, bConfigurationValue = 1,
         bmAttributes = USB_CFG_ATT_ONE OR USB_CFG_ATT_SELFPOWER,
         bMaxPower = 50, nif = 2, ifs = serial_desc_ifaces\<rparr>]\<rparr>"

definition desc_serial :: USBDesc where
  "desc_serial = \<lparr>
     desc_id = \<lparr>idVendor = 0x1234, idProduct = 0xED02, bcdDevice = 0x0100,
       iManufacturer = STR_MANUFACTURER, iProduct = STR_PRODUCT, iSerialNumber = STR_SERIAL\<rparr>,
     full = serial_desc_device, str = serial_desc_strings\<rparr>"

lemmas desc_defs = desc_edu_def edu_desc_device_def edu_desc_iface_def edu_desc_strings_def
  desc_serial_def serial_desc_device_def serial_desc_ifaces_def serial_desc_strings_def

subsection \<open>Consistency\<close>

definition endpoints :: "USBDescConfig \<Rightarrow> USBDescEndpoint list" where
  "endpoints c = concat (map eps (ifs c))"

text \<open>A full-speed endpoint: bulk packets have 8, 16, 32 or 64 bytes, interrupt packets at most 64
  and a polling interval.\<close>

definition endpoint_ok :: "USBDescEndpoint \<Rightarrow> bool" where
  "endpoint_ok e \<longleftrightarrow> bEndpointAddress e AND 0x70 = 0 \<and> bEndpointAddress e AND 0x0F \<noteq> 0 \<and>
     (if ep_bmAttributes e = USB_ENDPOINT_XFER_BULK then wMaxPacketSize e \<in> {8, 16, 32, 64}
      else ep_bmAttributes e = USB_ENDPOINT_XFER_INT \<and> wMaxPacketSize e \<le> 64 \<and> bInterval e \<noteq> 0)"

definition config_ok :: "USBDescConfig \<Rightarrow> bool" where
  "config_ok c \<longleftrightarrow> bNumInterfaces c = nif c \<and> unat (nif c) = length (ifs c) \<and>
     bmAttributes c AND USB_CFG_ATT_ONE \<noteq> 0 \<and>
     map bInterfaceNumber (ifs c) = map of_nat [0..<length (ifs c)] \<and>
     list_all (\<lambda>i. unat (bNumEndpoints i) = length (eps i)) (ifs c) \<and>
     list_all endpoint_ok (endpoints c) \<and> distinct (map bEndpointAddress (endpoints c))"

definition desc_ok :: "USBDesc \<Rightarrow> bool" where
  "desc_ok d \<longleftrightarrow> unat (bNumConfigurations (full d)) = length (confs (full d)) \<and>
     list_all config_ok (confs (full d)) \<and>
     distinct (map bConfigurationValue (confs (full d))) \<and>
     list_all (\<lambda>i. map_of (str d) i \<noteq> None)
       [iManufacturer (desc_id d), iProduct (desc_id d), iSerialNumber (desc_id d)]"

lemma tables_ok: "desc_ok desc_edu" "desc_ok desc_serial"
  by (simp_all add: desc_ok_def config_ok_def endpoints_def endpoint_ok_def desc_defs)

text \<open>The endpoints a device declares, by address.\<close>

definition declared :: "USBDesc \<Rightarrow> byte list" where
  "declared d = map bEndpointAddress (concat (map endpoints (confs (full d))))"

lemma declared_tables: "declared desc_edu = [0x81, 0x02]" "declared desc_serial = [0x81, 0x82, 0x03]"
  by (simp_all add: declared_def endpoints_def desc_defs)

text \<open>The largest packet the descriptor allows on an endpoint.\<close>

definition max_packet :: "USBDesc \<Rightarrow> byte \<Rightarrow> nat option" where
  "max_packet d a = map_option (\<lambda>e. unat (wMaxPacketSize e))
     (find (\<lambda>e. bEndpointAddress e = a) (concat (map endpoints (confs (full d)))))"

lemma serial_max_packet: "max_packet desc_serial (USB_DIR_OUT OR 0x03) = Some 64"
  by (simp add: max_packet_def endpoints_def desc_defs)

lemma endpoint_numbers:
  assumes "n < 16"
  shows "USB_DIR_IN OR of_nat n \<in> set (declared desc_edu) \<longleftrightarrow> n = 1"
    and "USB_DIR_OUT OR of_nat n \<in> set (declared desc_edu) \<longleftrightarrow> n = 2"
proof -
  have "list_all (\<lambda>n. (USB_DIR_IN OR of_nat n \<in> set [0x81, 0x02 :: byte] \<longleftrightarrow> n = 1) \<and>
      (USB_DIR_OUT OR of_nat n \<in> set [0x81, 0x02 :: byte] \<longleftrightarrow> n = 2)) [0..<16]"
    by code_simp
  then show "USB_DIR_IN OR of_nat n \<in> set (declared desc_edu) \<longleftrightarrow> n = 1"
    and "USB_DIR_OUT OR of_nat n \<in> set (declared desc_edu) \<longleftrightarrow> n = 2"
    unfolding declared_tables using assms by (simp_all only: list_all_iff set_upt atLeast0LessThan lessThan_iff)
qed

context usb_core
begin

lemma edu_in_transfers:
  assumes "4 \<le> k"
  shows "(\<exists>p' s'. usb_edu_handle_data usb_packet_copy stack (in_packet n k) s = Inr (p', s') \<and>
            0 < actual_length p') \<longleftrightarrow> n = 1"
proof (cases "n = 1")
  case True
  then show ?thesis using handle_in [OF assms, of stack s] by simp
next
  case False
  then show ?thesis by (auto simp: usb_edu_handle_data_def)
qed

lemma edu_out_transfers:
  assumes "length stack = 64" and "4 \<le> length d"
  shows "(\<exists>p' s'. usb_edu_handle_data usb_packet_copy stack (out_packet n d) s = Inr (p', s') \<and>
            0 < actual_length p') \<longleftrightarrow> n = 2"
proof (cases "n = 2")
  case True
  then show ?thesis using handle_out [OF assms, of s] by simp
next
  case False
  then show ?thesis by (auto simp: usb_edu_handle_data_def)
qed

end

subsection \<open>Properties\<close>

text \<open>C39. The descriptor table of the counter device agrees with its handler: the table is
  consistent, and a packet of at least four bytes to endpoint \<open>n\<close> moves data in exactly the
  directions in which the table declares endpoint \<open>n\<close>.\<close>

theorem usb_endpoints_as_declared:
  assumes "usb_core copy" and "length stack = 64" and "4 \<le> k" and "4 \<le> length d" and "n < 16"
  shows "desc_ok desc_edu \<and>
    ((\<exists>p' s'. usb_edu_handle_data copy stack (in_packet n k) s = Inr (p', s') \<and> 0 < actual_length p')
      \<longleftrightarrow> USB_DIR_IN OR of_nat n \<in> set (declared desc_edu)) \<and>
    ((\<exists>p' s'. usb_edu_handle_data copy stack (out_packet n d) s = Inr (p', s') \<and> 0 < actual_length p')
      \<longleftrightarrow> USB_DIR_OUT OR of_nat n \<in> set (declared desc_edu))"
  unfolding endpoint_numbers [OF assms(5)] usb_core.edu_in_transfers [OF assms(1,3)]
    usb_core.edu_out_transfers [OF assms(1,2,4)]
  by (simp add: tables_ok)

theorem usb_endpoints_as_declared_witness:
  "desc_ok desc_edu \<and>
   ((\<exists>p' s'. usb_edu_handle_data iov_copy (replicate 64 0) (in_packet 1 64) \<lparr>edu_counter = 5\<rparr> =
       Inr (p', s') \<and> 0 < actual_length p') \<longleftrightarrow> USB_DIR_IN OR of_nat 1 \<in> set (declared desc_edu)) \<and>
   ((\<exists>p' s'. usb_edu_handle_data iov_copy (replicate 64 0) (out_packet 1 [1, 2, 3, 4]) \<lparr>edu_counter = 5\<rparr> =
       Inr (p', s') \<and> 0 < actual_length p') \<longleftrightarrow> USB_DIR_OUT OR of_nat 1 \<in> set (declared desc_edu))"
  by (rule usb_endpoints_as_declared [OF usb.usb_core_axioms]) simp_all

text \<open>C34. The serial device cannot take the packets it asks for: its descriptor declares packets of up to
  64 bytes on the bulk OUT endpoint, and a packet makes the handler write outside its local buffer
  exactly when it is at least that long. A packet of 64 bytes puts the terminating NUL one byte
  behind the buffer, a longer one overruns it in the copy; a shorter one does not fault.\<close>

theorem serial_full_packet_overruns:
  assumes "usb_core copy"
  shows "\<exists>m. max_packet desc_serial (USB_DIR_OUT OR 0x03) = Some m \<and>
    (usb_edu_serial_handle_data copy stack (out_packet 3 d) s = Inl e \<longleftrightarrow>
     e = Out_Of_Bounds \<and> m \<le> length d)"
  unfolding serial_max_packet
  using usb_core.receive_fault [OF assms, of "local_array 64 stack" d s e]
  by (simp add: usb_edu_serial_handle_data_def Let_def)

theorem serial_full_packet_overruns_witness:
  "usb_edu_serial_handle_data iov_copy (\<lambda>_. 0) (out_packet 3 (replicate 64 0x41)) serial_reset_state =
     Inl Out_Of_Bounds \<and>
   usb_edu_serial_handle_data iov_copy (\<lambda>_. 0) (out_packet 3 (replicate 63 0x41)) serial_reset_state \<noteq>
     Inl Out_Of_Bounds"
  using serial_full_packet_overruns [OF usb.usb_core_axioms, of "\<lambda>_. 0" "replicate 64 0x41"
      serial_reset_state Out_Of_Bounds]
    serial_full_packet_overruns [OF usb.usb_core_axioms, of "\<lambda>_. 0" "replicate 63 0x41"
      serial_reset_state Out_Of_Bounds]
  unfolding serial_max_packet by simp

end
