(* ===== verification/Qom.thy ===== *)
theory Qom
  imports Edu_Lifecycle Edu_Config Pci_Ids Usb_Desc
begin

text \<open>
  How the device types reach QEMU: the class initialisers, the \<open>TypeInfo\<close> tables and the
  registration functions of the five types. The type table of QOM is a parameter; the locale \<open>qom\<close>
  states what registration does to it.
\<close>

subsection \<open>Classes\<close>

text \<open>Function pointers are named by the functions they point to.\<close>

datatype pci_method = Edu_Pci_Realize | Edu_Vf_Realize | Edu_Nvme_Realize | Edu_Pci_Exit
  | Edu_Nvme_Exit | Edu_Pci_Config_Read | Edu_Pci_Config_Write

datatype usb_method = Usb_Edu_Realize | Usb_Edu_Handle_Reset | Usb_Edu_Handle_Control
  | Usb_Edu_Handle_Data | Usb_Edu_Serial_Realize | Usb_Edu_Serial_Reset
  | Usb_Edu_Serial_Handle_Control | Usb_Edu_Serial_Handle_Data

record PCIDeviceClass =
  pci_realize :: "pci_method option"
  pci_exit :: "pci_method option"
  config_read :: "pci_method option"
  config_write :: "pci_method option"
  ids :: pci_class

record USBDeviceClass =
  usb_realize :: "usb_method option"
  handle_reset :: "usb_method option"
  handle_control :: "usb_method option"
  handle_data :: "usb_method option"
  product_desc :: string
  usb_desc :: "USBDesc option"

datatype klass = Pci_Class PCIDeviceClass | Usb_Class USBDeviceClass

text \<open>The class casts check the type of the class: a wrong one aborts.\<close>

definition PCI_DEVICE_CLASS :: "klass \<Rightarrow> PCIDeviceClass res" where
  "PCI_DEVICE_CLASS k = (case k of Pci_Class c \<Rightarrow> Inr c | Usb_Class c \<Rightarrow> Inl Assertion_Failed)"

definition USB_DEVICE_CLASS :: "klass \<Rightarrow> USBDeviceClass res" where
  "USB_DEVICE_CLASS k = (case k of Usb_Class c \<Rightarrow> Inr c | Pci_Class c \<Rightarrow> Inl Assertion_Failed)"

definition edu_pci_class_init :: "klass \<Rightarrow> klass res" where
  "edu_pci_class_init klass = res_bind (PCI_DEVICE_CLASS klass) (\<lambda>k.
     Inr (Pci_Class (k\<lparr>pci_realize := Some Edu_Pci_Realize, pci_exit := Some Edu_Pci_Exit,
       config_read := Some Edu_Pci_Config_Read, config_write := Some Edu_Pci_Config_Write,
       ids := edu_pci_class\<rparr>)))"

definition edu_vf_class_init :: "klass \<Rightarrow> klass res" where
  "edu_vf_class_init klass = res_bind (PCI_DEVICE_CLASS klass) (\<lambda>k.
     Inr (Pci_Class (k\<lparr>pci_realize := Some Edu_Vf_Realize, ids := edu_vf_class\<rparr>)))"

definition edu_nvme_class_init :: "klass \<Rightarrow> klass res" where
  "edu_nvme_class_init klass = res_bind (PCI_DEVICE_CLASS klass) (\<lambda>k.
     Inr (Pci_Class (k\<lparr>pci_realize := Some Edu_Nvme_Realize, pci_exit := Some Edu_Nvme_Exit,
       ids := edu_nvme_class\<rparr>)))"

definition usb_edu_class_init :: "klass \<Rightarrow> klass res" where
  "usb_edu_class_init klass = res_bind (USB_DEVICE_CLASS klass) (\<lambda>uc.
     Inr (Usb_Class (uc\<lparr>usb_realize := Some Usb_Edu_Realize, handle_reset := Some Usb_Edu_Handle_Reset,
       handle_control := Some Usb_Edu_Handle_Control, handle_data := Some Usb_Edu_Handle_Data,
       product_desc := ''Educational USB Device'', usb_desc := Some desc_edu\<rparr>)))"

definition usb_edu_serial_class_init :: "klass \<Rightarrow> klass res" where
  "usb_edu_serial_class_init klass = res_bind (USB_DEVICE_CLASS klass) (\<lambda>uc.
     Inr (Usb_Class (uc\<lparr>usb_realize := Some Usb_Edu_Serial_Realize,
       handle_reset := Some Usb_Edu_Serial_Reset,
       handle_control := Some Usb_Edu_Serial_Handle_Control,
       handle_data := Some Usb_Edu_Serial_Handle_Data,
       product_desc := ''Edu Serial'', usb_desc := Some desc_serial\<rparr>)))"

subsection \<open>Types\<close>

text \<open>\<open>instance_of\<close> is the C structure whose size the type declares.\<close>

datatype instance_struct = EduPciState_Struct | EduPciVfState_Struct | EduNvmeState_Struct
  | USBEduState_Struct | USBEduSerialState_Struct

record TypeInfo =
  type_name :: string
  parent :: string
  instance_of :: instance_struct
  class_init :: "klass \<Rightarrow> klass res"
  interfaces :: "string list"

abbreviation (input) TYPE_PCI_DEVICE :: string where "TYPE_PCI_DEVICE \<equiv> ''pci-device''"
abbreviation (input) TYPE_USB_DEVICE :: string where "TYPE_USB_DEVICE \<equiv> ''usb-device''"
abbreviation (input) INTERFACE_PCIE_DEVICE :: string where
  "INTERFACE_PCIE_DEVICE \<equiv> ''pci-express-device''"

definition edu_pci_info :: TypeInfo where
  "edu_pci_info = \<lparr>type_name = ''edu-pci'', parent = TYPE_PCI_DEVICE,
     instance_of = EduPciState_Struct, class_init = edu_pci_class_init,
     interfaces = [INTERFACE_PCIE_DEVICE]\<rparr>"

definition edu_vf_info :: TypeInfo where
  "edu_vf_info = \<lparr>type_name = ''edu-pci-vf'', parent = TYPE_PCI_DEVICE,
     instance_of = EduPciVfState_Struct, class_init = edu_vf_class_init,
     interfaces = [INTERFACE_PCIE_DEVICE]\<rparr>"

definition edu_nvme_info :: TypeInfo where
  "edu_nvme_info = \<lparr>type_name = ''edu-nvme'', parent = TYPE_PCI_DEVICE,
     instance_of = EduNvmeState_Struct, class_init = edu_nvme_class_init,
     interfaces = [INTERFACE_PCIE_DEVICE]\<rparr>"

definition usb_edu_info :: TypeInfo where
  "usb_edu_info = \<lparr>type_name = ''usb-edu'', parent = TYPE_USB_DEVICE,
     instance_of = USBEduState_Struct, class_init = usb_edu_class_init, interfaces = []\<rparr>"

definition usb_edu_serial_info :: TypeInfo where
  "usb_edu_serial_info = \<lparr>type_name = ''usb-edu-serial'', parent = TYPE_USB_DEVICE,
     instance_of = USBEduSerialState_Struct, class_init = usb_edu_serial_class_init,
     interfaces = []\<rparr>"

lemmas type_infos = edu_pci_info_def edu_vf_info_def edu_nvme_info_def usb_edu_info_def
  usb_edu_serial_info_def

lemmas class_inits = edu_pci_class_init_def edu_vf_class_init_def edu_nvme_class_init_def
  usb_edu_class_init_def usb_edu_serial_class_init_def PCI_DEVICE_CLASS_def USB_DEVICE_CLASS_def

definition edu_pci_register_types :: "(TypeInfo \<Rightarrow> 't \<Rightarrow> 't) \<Rightarrow> 't \<Rightarrow> 't" where
  "edu_pci_register_types reg t = (let t = reg edu_pci_info t in reg edu_vf_info t)"

definition edu_nvme_register :: "(TypeInfo \<Rightarrow> 't \<Rightarrow> 't) \<Rightarrow> 't \<Rightarrow> 't" where
  "edu_nvme_register reg t = reg edu_nvme_info t"

definition usb_edu_register_types :: "(TypeInfo \<Rightarrow> 't \<Rightarrow> 't) \<Rightarrow> 't \<Rightarrow> 't" where
  "usb_edu_register_types reg t = reg usb_edu_info t"

definition usb_edu_serial_register :: "(TypeInfo \<Rightarrow> 't \<Rightarrow> 't) \<Rightarrow> 't \<Rightarrow> 't" where
  "usb_edu_serial_register reg t = reg usb_edu_serial_info t"

text \<open>\<open>type_init\<close> makes each registration function a constructor of the program; the order in which
  they run is that of the linker.\<close>

datatype module = Edu_Pci_Module | Edu_Nvme_Module | Usb_Edu_Module | Usb_Serial_Module

fun type_init :: "(TypeInfo \<Rightarrow> 't \<Rightarrow> 't) \<Rightarrow> module \<Rightarrow> 't \<Rightarrow> 't" where
  "type_init reg Edu_Pci_Module = edu_pci_register_types reg"
| "type_init reg Edu_Nvme_Module = edu_nvme_register reg"
| "type_init reg Usb_Edu_Module = usb_edu_register_types reg"
| "type_init reg Usb_Serial_Module = usb_edu_serial_register reg"

subsection \<open>The type table\<close>

text \<open>Registration of a new name adds it to the table and changes no other entry.\<close>

locale qom =
  fixes type_register_static :: "TypeInfo \<Rightarrow> 't \<Rightarrow> 't"
    and type_get :: "'t \<Rightarrow> string \<Rightarrow> TypeInfo option"
  assumes get_register:
    "type_get t (type_name ti) = None \<Longrightarrow>
     type_get (type_register_static ti t) n = (if n = type_name ti then Some ti else type_get t n)"

interpretation type_table: qom "\<lambda>ti t. t(type_name ti \<mapsto> ti)" "\<lambda>t n. t n"
  by unfold_locales simp

fun module_types :: "module \<Rightarrow> TypeInfo list" where
  "module_types Edu_Pci_Module = [edu_pci_info, edu_vf_info]"
| "module_types Edu_Nvme_Module = [edu_nvme_info]"
| "module_types Usb_Edu_Module = [usb_edu_info]"
| "module_types Usb_Serial_Module = [usb_edu_serial_info]"

lemma type_init_types: "type_init reg m t = fold reg (module_types m) t"
  by (cases m) (simp_all add: edu_pci_register_types_def edu_nvme_register_def
      usb_edu_register_types_def usb_edu_serial_register_def)

lemma modules_types: "fold (type_init reg) ms t = fold reg (concat (map module_types ms)) t"
  by (induction ms arbitrary: t) (simp_all add: type_init_types)

context qom
begin

lemma registered:
  assumes "distinct (map type_name tis)" and "list_all (\<lambda>ti. type_get t (type_name ti) = None) tis"
  shows "ti \<in> set tis \<Longrightarrow> type_get (fold type_register_static tis t) (type_name ti) = Some ti"
    and "n \<notin> type_name ` set tis \<Longrightarrow> type_get (fold type_register_static tis t) n = type_get t n"
proof -
  have "(ti \<in> set tis \<longrightarrow> type_get (fold type_register_static tis t) (type_name ti) = Some ti) \<and>
    (n \<notin> type_name ` set tis \<longrightarrow> type_get (fold type_register_static tis t) n = type_get t n)" for ti n
    using assms
  proof (induction tis arbitrary: t ti n)
    case (Cons a tis)
    have new: "type_get t (type_name a) = None" using Cons.prems by simp
    have "list_all (\<lambda>ti. type_get (type_register_static a t) (type_name ti) = None) tis"
      using Cons.prems by (auto simp: get_register [OF new] list_all_iff image_iff)
    with Cons.prems(1) have IH:
      "ti \<in> set tis \<Longrightarrow> type_get (fold type_register_static tis (type_register_static a t))
         (type_name ti) = Some ti"
      "n \<notin> type_name ` set tis \<Longrightarrow>
       type_get (fold type_register_static tis (type_register_static a t)) n =
       type_get (type_register_static a t) n" for ti n
      using Cons.IH by auto
    show ?case
      using IH(1) [of ti] IH(2) [of n] IH(2) [of "type_name a"] Cons.prems(1)
      by (auto simp: get_register [OF new])
  qed simp
  then show "ti \<in> set tis \<Longrightarrow> type_get (fold type_register_static tis t) (type_name ti) = Some ti"
    and "n \<notin> type_name ` set tis \<Longrightarrow> type_get (fold type_register_static tis t) n = type_get t n"
    by blast+
qed

end

lemma modules_distinct:
  "distinct ms \<Longrightarrow> distinct (map type_name (concat (map module_types ms)))"
proof (induction ms)
  case (Cons m ms)
  have other: "type_name ti \<notin> type_name ` set (module_types m)"
    if "ti \<in> set (module_types m')" "m' \<noteq> m" for ti m'
    using that by (cases m; cases m') (auto simp: type_infos)
  have "distinct (map type_name (module_types m))" by (cases m) (simp_all add: type_infos)
  then show ?case using Cons other by (auto simp: image_iff) metis
qed simp

subsection \<open>Properties\<close>

lemma module_UNIV:
  "(UNIV :: module set) = {Edu_Pci_Module, Edu_Nvme_Module, Usb_Edu_Module, Usb_Serial_Module}"
proof -
  have "m \<in> {Edu_Pci_Module, Edu_Nvme_Module, Usb_Edu_Module, Usb_Serial_Module}" for m :: module
    by (cases m) simp_all
  then show ?thesis by blast
qed

definition edu_types :: "TypeInfo list" where
  "edu_types = [edu_pci_info, edu_vf_info, edu_nvme_info, usb_edu_info, usb_edu_serial_info]"

text \<open>\<open>class_of\<close> is the class of a type: the class of its parent, passed to its initialiser.\<close>

definition class_of :: "(string \<Rightarrow> klass) \<Rightarrow> TypeInfo \<Rightarrow> klass res" where
  "class_of base ti = class_init ti (base (parent ti))"

text \<open>C21. The five device types reach QEMU whatever order the linker runs the registration functions
  in: each name resolves to its own \<open>TypeInfo\<close> and no other name is taken, no class initialiser
  casts its class to the wrong kind, and the type name and device id with which the physical function
  calls the SR-IOV core are those of a registered type, whose class is the virtual function's and has
  that device id.\<close>

theorem types_register_in_any_order:
  assumes "qom reg get" and "distinct ms" and "set ms = UNIV"
    and "list_all (\<lambda>ti. get t (type_name ti) = None) edu_types"
    and "t' = fold (type_init reg) ms t"
    and "base TYPE_PCI_DEVICE = Pci_Class c0" and "base TYPE_USB_DEVICE = Usb_Class u0"
  shows "map (get t') (map type_name edu_types) = map Some edu_types \<and>
    (n \<in> set (map type_name edu_types) \<or> get t' n = get t n) \<and>
    list_all (\<lambda>ti. \<exists>k. class_of base ti = Inr k) edu_types \<and>
    (\<exists>vf ti k. get t' vf = Some ti \<and> class_of base ti = Inr (Pci_Class k) \<and>
       pci_realize k = Some Edu_Vf_Realize \<and>
       (\<forall>C p. edu_pci_realize_sriov (C :: 'p pci_core) p =
          (let (ok, p) = pcie_sriov_pf_init C 0x100 vf (unat (device_id (ids k))) 2 2 1 1 p
           in if ok then pcie_sriov_pf_init_vf_bar C 0 True 64 p
              else error_prepend C ''Failed to init SR-IOV: '' p)))"
proof -
  let ?tis = "concat (map module_types ms)"
  have types: "set ?tis = set edu_types" by (simp add: assms(3) module_UNIV edu_types_def) blast
  then have new: "list_all (\<lambda>ti. get t (type_name ti) = None) ?tis"
    using assms(4) by (simp add: list_all_iff)
  note reg = qom.registered [OF assms(1) modules_distinct [OF assms(2)] new]
  have t': "t' = fold reg ?tis t" by (simp only: assms(5) modules_types)
  have got: "get t' (type_name ti) = Some ti" if "ti \<in> set edu_types" for ti
    using that unfolding t' types [symmetric] by (rule reg(1))
  have "edu_vf_info \<in> set edu_types" "type_name edu_vf_info = ''edu-pci-vf''"
    by (simp add: edu_types_def, simp add: edu_vf_info_def)
  then have vf: "get t' ''edu-pci-vf'' = Some edu_vf_info" using got by metis
  let ?k = "c0\<lparr>pci_realize := Some Edu_Vf_Realize, ids := edu_vf_class\<rparr>"
  have "class_of base edu_vf_info = Inr (Pci_Class ?k)"
    using assms(6) by (simp add: class_of_def edu_vf_info_def class_inits)
  moreover have "unat (device_id (ids ?k)) = 0xED02" "pci_realize ?k = Some Edu_Vf_Realize"
    by (simp_all add: edu_vf_class_def)
  moreover have "edu_pci_realize_sriov C p =
      (let (ok, p) = pcie_sriov_pf_init C 0x100 ''edu-pci-vf'' 0xED02 2 2 1 1 p
       in if ok then pcie_sriov_pf_init_vf_bar C 0 True 64 p
          else error_prepend C ''Failed to init SR-IOV: '' p)" for C :: "'p pci_core" and p
    by (simp only: edu_pci_realize_sriov_def if_not_P) (simp add: case_prod_beta)
  ultimately have sriov: "\<exists>vf ti k. get t' vf = Some ti \<and> class_of base ti = Inr (Pci_Class k) \<and>
       pci_realize k = Some Edu_Vf_Realize \<and>
       (\<forall>C p. edu_pci_realize_sriov (C :: 'p pci_core) p =
          (let (ok, p) = pcie_sriov_pf_init C 0x100 vf (unat (device_id (ids k))) 2 2 1 1 p
           in if ok then pcie_sriov_pf_init_vf_bar C 0 True 64 p
              else error_prepend C ''Failed to init SR-IOV: '' p))"
    using vf by (intro exI [of _ "''edu-pci-vf''"] exI [of _ edu_vf_info] exI [of _ ?k]) simp
  have "list_all (\<lambda>ti. \<exists>k. class_of base ti = Inr k) edu_types"
    using assms(6,7) by (simp add: edu_types_def class_of_def type_infos class_inits)
  moreover have "n \<in> set (map type_name edu_types) \<or> get t' n = get t n"
    using reg(2) [where n = n] unfolding t' types by auto
  ultimately show ?thesis using got sriov by simp
qed

text \<open>An empty type table and the USB modules first.\<close>

definition no_pci_class :: PCIDeviceClass where
  "no_pci_class = \<lparr>pci_realize = None, pci_exit = None, config_read = None, config_write = None,
     ids = edu_nvme_class\<rparr>"

definition no_usb_class :: USBDeviceClass where
  "no_usb_class = \<lparr>usb_realize = None, handle_reset = None, handle_control = None,
     handle_data = None, product_desc = [], usb_desc = None\<rparr>"

definition base_class :: "string \<Rightarrow> klass" where
  "base_class n = (if n = TYPE_PCI_DEVICE then Pci_Class no_pci_class else Usb_Class no_usb_class)"

definition registered_types :: "string \<Rightarrow> TypeInfo option" where
  "registered_types = fold (type_init (\<lambda>ti t. t(type_name ti \<mapsto> ti)))
     [Usb_Serial_Module, Usb_Edu_Module, Edu_Nvme_Module, Edu_Pci_Module] Map.empty"

theorem types_register_in_any_order_witness:
  "map registered_types (map type_name edu_types) = map Some edu_types \<and>
   (''virtio-net'' \<in> set (map type_name edu_types) \<or> registered_types ''virtio-net'' = Map.empty ''virtio-net'') \<and>
   list_all (\<lambda>ti. \<exists>k. class_of base_class ti = Inr k) edu_types \<and>
   (\<exists>vf ti k. registered_types vf = Some ti \<and> class_of base_class ti = Inr (Pci_Class k) \<and>
      pci_realize k = Some Edu_Vf_Realize \<and>
      (\<forall>C p. edu_pci_realize_sriov (C :: core pci_core) p =
         (let (ok, p) = pcie_sriov_pf_init C 0x100 vf (unat (device_id (ids k))) 2 2 1 1 p
          in if ok then pcie_sriov_pf_init_vf_bar C 0 True 64 p
             else error_prepend C ''Failed to init SR-IOV: '' p)))"
proof (rule types_register_in_any_order [where reg = "\<lambda>ti t. t(type_name ti \<mapsto> ti)" and get = "\<lambda>t. t"
      and ms = "[Usb_Serial_Module, Usb_Edu_Module, Edu_Nvme_Module, Edu_Pci_Module]"
      and t = Map.empty and base = base_class])
  show "qom (\<lambda>ti t. t(type_name ti \<mapsto> ti)) (\<lambda>t. t)" by (rule type_table.qom_axioms)
  show "set [Usb_Serial_Module, Usb_Edu_Module, Edu_Nvme_Module, Edu_Pci_Module] = UNIV"
    by (simp add: module_UNIV) blast
qed (simp_all add: registered_types_def base_class_def list_all_iff)

end
