(* ===== verification/Driver_Device.thy ===== *)
theory Driver_Device
  imports Linux_Driver Edu_Pf
begin

text \<open>
  The Linux driver on the device model: a kernel whose BAR0 mapping reaches the BAR0 handlers of
  the physical function, and what a probe and a removal do to the kernel and to the device.
\<close>

subsection \<open>A kernel with the device behind its mapping\<close>

text \<open>
  The resources held, the driver's structures by address, the driver data, the calls that will
  fail (0 to 3: allocation, enable, region, mapping) and the device with its environment.
\<close>

record 'w host =
  resources :: "resource list"
  structs :: "u64 \<Rightarrow> u64"
  drvdata :: u64
  will_fail :: "nat \<Rightarrow> bool"
  device :: "EduPciState \<times> 'w"

abbreviation (input) BAR0_VA :: u64 where "BAR0_VA \<equiv> 0xFE000000"
abbreviation (input) HEAP_VA :: u64 where "HEAP_VA \<equiv> 0x1000"

definition host_held :: "'w host \<Rightarrow> resource set" where
  "host_held h = set (resources h)"

definition acquire :: "resource \<Rightarrow> 'w host \<Rightarrow> 'w host" where
  "acquire r h = h\<lparr>resources := r # resources h\<rparr>"

definition drop_res :: "resource \<Rightarrow> 'w host \<Rightarrow> 'w host" where
  "drop_res r h = h\<lparr>resources := removeAll r (resources h)\<rparr>"

definition bar0_offset :: "u64 \<Rightarrow> u64 option" where
  "bar0_offset a = (if a - BAR0_VA < 4096 then Some (a - BAR0_VA) else None)"

definition host_kernel :: "'w qemu \<Rightarrow> 'w host kernel" where
  "host_kernel q = \<lparr>
     kzalloc = (\<lambda>h. if will_fail h 0 \<or> Memory HEAP_VA \<in> set (resources h) then (0, h)
       else (HEAP_VA, acquire (Memory HEAP_VA) h)),
     kfree = (\<lambda>p. drop_res (Memory p)),
     store_bar0 = (\<lambda>p v h. h\<lparr>structs := (structs h)(p := v)\<rparr>),
     load_bar0 = (\<lambda>p h. structs h p),
     pci_enable_device = (\<lambda>h. if will_fail h 1 then (-5, h) else (0, acquire Device_Enabled h)),
     pci_disable_device = drop_res Device_Enabled,
     pci_request_region = (\<lambda>n h. if will_fail h 2 then (-16, h) else (0, acquire (Region n) h)),
     pci_release_region = (\<lambda>n. drop_res (Region n)),
     pci_iomap = (\<lambda>n h. if will_fail h 3 \<or> Mapping BAR0_VA \<in> set (resources h) then (0, h)
       else (BAR0_VA, acquire (Mapping BAR0_VA) h)),
     pci_iounmap = (\<lambda>p. drop_res (Mapping p)),
     pci_set_drvdata = (\<lambda>p h. h\<lparr>drvdata := p\<rparr>),
     pci_get_drvdata = drvdata,
     ioread32 = (\<lambda>a h. (case bar0_offset a of
         Some off \<Rightarrow> ucast (edu_pci_read off 4 (fst (device h)))
       | None \<Rightarrow> 0xFFFFFFFF, h)),
     iowrite32 = (\<lambda>v a h. case bar0_offset a of
         Some off \<Rightarrow> h\<lparr>device := edu_pci_write q off (ucast v) 4 (device h)\<rparr>
       | None \<Rightarrow> h)\<rparr>"

lemmas host_defs = host_kernel_def host_held_def acquire_def drop_res_def

interpretation host: pci_resources "host_kernel q" host_held for q :: "'w qemu"
  by unfold_locales (auto simp: host_defs split: option.splits if_splits)

subsection \<open>The probe on the device\<close>

lemma host_probe_ready:
  assumes "structs h edu = BAR0_VA"
  shows "edu_probe_ready (host_kernel q) edu h =
         (0, h\<lparr>drvdata := edu, device := ((fst (device h))\<lparr>scratch := 0xDEADBEEF\<rparr>, snd (device h))\<rparr>)"
  using assms
  by (simp add: edu_probe_ready_def host_kernel_def bar0_offset_def edu_pci_write_def case_prod_beta)

lemma host_probe:
  assumes "edu_probe (host_kernel q) h = (0, h')"
  shows "device h' = ((fst (device h))\<lparr>scratch := 0xDEADBEEF\<rparr>, snd (device h)) \<and>
         Memory (drvdata h') \<in> host_held h' \<and> structs h' (drvdata h') = BAR0_VA"
proof -
  have ok: "\<not> will_fail h 0" "Memory HEAP_VA \<notin> set (resources h)" "\<not> will_fail h 1" "\<not> will_fail h 2"
    "\<not> will_fail h 3" "Mapping BAR0_VA \<notin> set (resources h)"
    using assms
    by (auto simp: edu_probe_def host_kernel_def acquire_def ENOMEM_def err_free_def err_disable_def
        err_release_def split: if_splits)
  let ?h1 = "acquire (Mapping BAR0_VA) (acquire (Region 0) (acquire Device_Enabled (acquire (Memory HEAP_VA) h)))"
  have "edu_probe (host_kernel q) h = edu_probe_ready (host_kernel q) HEAP_VA
      (?h1\<lparr>structs := (structs h)(HEAP_VA := BAR0_VA)\<rparr>)"
    using ok by (simp add: edu_probe_def) (simp add: host_kernel_def acquire_def)
  then show ?thesis
    using assms by (simp add: host_probe_ready) (auto simp: acquire_def host_held_def)
qed

subsection \<open>Properties\<close>

text \<open>A host with an unprobed device, in which the calls of \<open>F\<close> fail.\<close>

definition fresh_host :: "nat set \<Rightarrow> guest host" where
  "fresh_host F = \<lparr>resources = [], structs = (\<lambda>_. 0), drvdata = 0, will_fail = (\<lambda>n. n \<in> F),
     device = (edu_pci_init, small_guest)\<rparr>"

text \<open>C13. The driver leaks nothing: a probe that fails, at whichever call, gives back every resource
  it had acquired, and a probe that succeeds is undone by the removal.\<close>

theorem driver_releases_resources:
  assumes "pci_resources K held" and "Device_Enabled \<notin> held k" and "Region 0 \<notin> held k"
    and "edu_probe K k = (ret, k')"
  shows "held (if ret = 0 then edu_remove K k' else k') = held k"
  using pci_resources.probe_outcome [OF assms] pci_resources.remove_held [OF assms(1), of k'] assms(2,3)
  by auto

theorem driver_releases_resources_witness:
  "host_held (if fst (edu_probe (host_kernel guest_qemu) (fresh_host {2})) = 0
     then edu_remove (host_kernel guest_qemu) (snd (edu_probe (host_kernel guest_qemu) (fresh_host {2})))
     else snd (edu_probe (host_kernel guest_qemu) (fresh_host {2}))) = host_held (fresh_host {2}) \<and>
   fst (edu_probe (host_kernel guest_qemu) (fresh_host {2})) = -16"
proof
  show "host_held (if fst (edu_probe (host_kernel guest_qemu) (fresh_host {2})) = 0
     then edu_remove (host_kernel guest_qemu) (snd (edu_probe (host_kernel guest_qemu) (fresh_host {2})))
     else snd (edu_probe (host_kernel guest_qemu) (fresh_host {2}))) = host_held (fresh_host {2})"
    by (rule driver_releases_resources [OF host.pci_resources_axioms])
       (simp_all add: fresh_host_def host_held_def)
  show "fst (edu_probe (host_kernel guest_qemu) (fresh_host {2})) = -16"
    by (simp add: edu_probe_def host_kernel_def fresh_host_def acquire_def err_disable_def err_free_def)
qed

text \<open>A successful probe of the modelled device leaves 0xDEADBEEF in its scratch register and
  changes nothing else of the device or its environment: no DMA, no interrupt.\<close>

lemma driver_probe_touches_scratch_only:
  assumes "edu_probe (host_kernel q) h = (0, h')"
  shows "edu_pci_read REG_SCRATCH 4 (fst (device h')) = 0xDEADBEEF \<and>
         device h' = ((fst (device h))\<lparr>scratch := 0xDEADBEEF\<rparr>, snd (device h))"
  using host_probe [OF assms] by (simp add: edu_pci_read_def)

lemma driver_probe_touches_scratch_only_example:
  "\<exists>h'. edu_probe (host_kernel guest_qemu) (fresh_host {}) = (0, h') \<and>
     edu_pci_read REG_SCRATCH 4 (fst (device h')) = 0xDEADBEEF \<and>
     device h' = ((fst (device (fresh_host {})))\<lparr>scratch := 0xDEADBEEF\<rparr>, snd (device (fresh_host {})))"
proof -
  have "fst (edu_probe (host_kernel guest_qemu) (fresh_host {})) = 0"
    by (simp add: edu_probe_def host_kernel_def fresh_host_def acquire_def edu_probe_ready_def
        bar0_offset_def)
  then obtain h' where h': "edu_probe (host_kernel guest_qemu) (fresh_host {}) = (0, h')"
    by (cases "edu_probe (host_kernel guest_qemu) (fresh_host {})") simp
  from driver_probe_touches_scratch_only [OF h'] h' show ?thesis by blast
qed

end
