(* ===== verification/Nvme_Storage.thy ===== *)
theory Nvme_Storage
  imports Edu_Nvme
begin

text \<open>
  The commands of the NVMe controller against an abstract disk of 2048 blocks of 512 bytes: which
  transfers are accepted, rejected or leave the storage buffer, what a write and a read do, and
  what every command keeps.
\<close>

subsection \<open>The range of a transfer\<close>

lemma cmd_nlb_bounds: "0 < unat (cmd_nlb cmd)" "unat (cmd_nlb cmd) \<le> 65536"
proof -
  have m: "(0xFFFF :: u32) = mask 16" by (simp add: mask_eq_exp_minus_1)
  have "unat (cdw12 cmd AND 0xFFFF) < 65536"
    unfolding m take_bit_eq_mask [symmetric] by (simp add: unsigned_take_bit_eq take_bit_nat_less_exp [of 16, simplified])
  then have "unat (cmd_nlb cmd) = unat (cdw12 cmd AND 0xFFFF) + 1"
    by (simp add: cmd_nlb_def unat_word_ariths)
  with \<open>unat (cdw12 cmd AND 0xFFFF) < 65536\<close>
  show "0 < unat (cmd_nlb cmd)" "unat (cmd_nlb cmd) \<le> 65536" by simp_all
qed

definition lba_n :: "NvmeCmd \<Rightarrow> nat" where
  "lba_n cmd = unat (cmd_lba cmd)"

definition nlb_n :: "NvmeCmd \<Rightarrow> nat" where
  "nlb_n cmd = unat (cmd_nlb cmd)"

definition nvme_wf :: "EduNvmeState \<Rightarrow> bool" where
  "nvme_wf s \<longleftrightarrow> length (storage s) = STORAGE_SIZE \<and> cq_phase s \<le> 1"

text \<open>The check of the code adds modulo \<open>2^64\<close>.\<close>

lemma range_check:
  "cmd_lba cmd + ucast (cmd_nlb cmd) > NUM_BLOCKS \<longleftrightarrow>
   (lba_n cmd + nlb_n cmd) mod 18446744073709551616 > 2048"
proof -
  have "unat (ucast (cmd_nlb cmd) :: u64) = nlb_n cmd"
    using cmd_nlb_bounds [of cmd] by (simp add: nlb_n_def unsigned_ucast_eq take_bit_nat_eq_self)
  then show ?thesis by (simp add: word_less_nat_alt unat_word_ariths lba_n_def)
qed

lemma storage_len_n: "storage_len (cmd_nlb cmd) = 512 * nlb_n cmd"
  using cmd_nlb_bounds [of cmd] by (simp add: storage_len_def nlb_n_def unat_word_ariths)

lemma storage_off_n: "lba_n cmd \<le> 2048 \<Longrightarrow> storage_off (cmd_lba cmd) = 512 * lba_n cmd"
  by (simp add: storage_off_def lba_n_def unat_word_ariths)

text \<open>An address that wraps past \<open>2^64\<close> points before the storage.\<close>

lemma storage_off_wrapped:
  assumes "18446744073709551616 \<le> lba_n cmd + nlb_n cmd"
  shows "1048576 < storage_off (cmd_lba cmd)"
proof -
  define k where "k = 18446744073709551616 - lba_n cmd"
  have l: "lba_n cmd < 18446744073709551616" unfolding lba_n_def by (rule unat_u64_less)
  have k: "0 < k" "k \<le> 65536" using assms l cmd_nlb_bounds [of cmd] by (simp_all add: k_def nlb_n_def)
  have "lba_n cmd * 512 = 511 * 18446744073709551616 + (18446744073709551616 - 512 * k)"
    using k l by (simp add: k_def)
  then have "(lba_n cmd * 512) mod 18446744073709551616 =
             (18446744073709551616 - 512 * k) mod 18446744073709551616"
    by (simp only: mod_mult_self3)
  also have "\<dots> = 18446744073709551616 - 512 * k" using k by simp
  finally show ?thesis
    using k by (simp add: storage_off_def lba_n_def unat_word_ariths)
qed

text \<open>The three outcomes of the range check of a READ or WRITE.\<close>

definition in_range :: "NvmeCmd \<Rightarrow> bool" where
  "in_range cmd \<longleftrightarrow> lba_n cmd + nlb_n cmd \<le> 2048"

definition wraps :: "NvmeCmd \<Rightarrow> bool" where
  "wraps cmd \<longleftrightarrow> 18446744073709551616 \<le> lba_n cmd + nlb_n cmd \<and>
     lba_n cmd + nlb_n cmd \<le> 18446744073709553664"

lemma range_cases:
  "cmd_lba cmd + ucast (cmd_nlb cmd) > NUM_BLOCKS \<longleftrightarrow> \<not> in_range cmd \<and> \<not> wraps cmd"
proof -
  have "lba_n cmd < 18446744073709551616" unfolding lba_n_def by (rule unat_u64_less)
  moreover have "nlb_n cmd \<le> 65536" using cmd_nlb_bounds [of cmd] by (simp add: nlb_n_def)
  ultimately show ?thesis
    unfolding range_check in_range_def wraps_def by (auto simp: mod_if)
qed

lemma storage_ok_cases:
  assumes "nvme_wf s"
  shows "in_range cmd \<Longrightarrow> storage_ok s (cmd_lba cmd) (cmd_nlb cmd)"
    and "wraps cmd \<Longrightarrow> \<not> storage_ok s (cmd_lba cmd) (cmd_nlb cmd)"
proof -
  assume "in_range cmd"
  then show "storage_ok s (cmd_lba cmd) (cmd_nlb cmd)"
    using assms by (simp add: storage_ok_def storage_len_n storage_off_n in_range_def nvme_wf_def)
next
  assume "wraps cmd"
  then have "1048576 < storage_off (cmd_lba cmd)"
    by (intro storage_off_wrapped) (simp add: wraps_def)
  then show "\<not> storage_ok s (cmd_lba cmd) (cmd_nlb cmd)"
    using assms by (simp add: storage_ok_def nvme_wf_def)
qed

subsection \<open>Blocks\<close>

definition nvme_block :: "EduNvmeState \<Rightarrow> nat \<Rightarrow> byte list" where
  "nvme_block s i = subarr (512 * i) 512 (storage s)"

text \<open>The bytes of the blocks a command names.\<close>

definition cmd_data :: "EduNvmeState \<Rightarrow> NvmeCmd \<Rightarrow> byte list" where
  "cmd_data s cmd = subarr (512 * lba_n cmd) (512 * nlb_n cmd) (storage s)"

definition put_data :: "byte list \<Rightarrow> NvmeCmd \<Rightarrow> EduNvmeState \<Rightarrow> EduNvmeState" where
  "put_data d cmd s = s\<lparr>storage := memcpy (storage s) (512 * lba_n cmd) d\<rparr>"

lemma length_cmd_data:
  "nvme_wf s \<Longrightarrow> in_range cmd \<Longrightarrow> length (cmd_data s cmd) = 512 * nlb_n cmd"
  by (simp add: cmd_data_def nvme_wf_def in_range_def)

lemma put_data_wf:
  "nvme_wf s \<Longrightarrow> in_range cmd \<Longrightarrow> length d = 512 * nlb_n cmd \<Longrightarrow> nvme_wf (put_data d cmd s)"
  by (simp add: put_data_def nvme_wf_def in_range_def)

lemma cmd_data_put_data:
  assumes "nvme_wf s" and "in_range cmd" and "length d = 512 * nlb_n cmd"
  shows "cmd_data (put_data d cmd s) cmd = d"
  using assms by (simp add: cmd_data_def put_data_def nvme_wf_def in_range_def subarr_memcpy_same)

lemma block_put_data:
  assumes "nvme_wf s" and "in_range cmd" and "length d = 512 * nlb_n cmd" and "i < 2048"
  shows "nvme_block (put_data d cmd s) i =
         (if lba_n cmd \<le> i \<and> i < lba_n cmd + nlb_n cmd then subarr (512 * (i - lba_n cmd)) 512 d
          else nvme_block s i)"
proof (rule nth_equalityI)
  have l: "length (storage s) = 1048576" using assms(1) by (simp add: nvme_wf_def)
  have off: "512 * lba_n cmd + length d \<le> length (storage s)"
    using assms(2,3) l by (simp add: in_range_def)
  show "length (nvme_block (put_data d cmd s) i) =
        length (if lba_n cmd \<le> i \<and> i < lba_n cmd + nlb_n cmd then subarr (512 * (i - lba_n cmd)) 512 d
          else nvme_block s i)"
    using assms(3,4) l off by (auto simp: nvme_block_def put_data_def)
  fix j assume "j < length (nvme_block (put_data d cmd s) i)"
  then have j: "j < 512" using assms(4) l off by (simp add: nvme_block_def put_data_def)
  have idx: "512 * i + j - 512 * lba_n cmd = 512 * (i - lba_n cmd) + j" if "lba_n cmd \<le> i"
    using that by (simp add: diff_mult_distrib2)
  show "nvme_block (put_data d cmd s) i ! j =
        (if lba_n cmd \<le> i \<and> i < lba_n cmd + nlb_n cmd then subarr (512 * (i - lba_n cmd)) 512 d
          else nvme_block s i) ! j"
    using j assms(3,4) l off
    by (auto simp: nvme_block_def put_data_def nth_subarr nth_memcpy idx)
qed

subsection \<open>READ and WRITE\<close>

context dma_bus
begin

lemma nvme_read_cmd:
  assumes "nvme_wf s"
  shows "nvme_cmd_read q cmd (s, w) =
    (if in_range cmd
     then Inr (if writable w (prp1 cmd) (512 * nlb_n cmd) then 0 else 0x8004, s,
               snd (pci_dma_write q (prp1 cmd) (cmd_data s cmd) w))
     else if wraps cmd then Inl Out_Of_Bounds
     else Inr (0x8002, s, w))"
proof (cases "in_range cmd")
  case True
  then have "\<not> wraps cmd" by (auto simp: in_range_def wraps_def)
  have off: "storage_off (cmd_lba cmd) = 512 * lba_n cmd"
    using True by (intro storage_off_n) (simp add: in_range_def)
  show ?thesis
    using True storage_ok_cases(1) [OF assms True] length_cmd_data [OF assms True]
      write_code [of "prp1 cmd" "cmd_data s cmd" w]
    by (simp add: nvme_cmd_read_def Let_def range_cases storage_len_n off cmd_data_def [symmetric]
        case_prod_beta)
next
  case False
  then show ?thesis
    using storage_ok_cases(2) [OF assms, of cmd] by (simp add: nvme_cmd_read_def Let_def range_cases)
qed

lemma nvme_write_cmd:
  assumes "nvme_wf s" and "in_range cmd" and "readable w (prp1 cmd) (512 * nlb_n cmd)"
  shows "nvme_cmd_write q cmd (s, w) =
         Inr (0, put_data (ram_bytes (ram w) (prp1 cmd) (512 * nlb_n cmd)) cmd s, w)"
proof -
  have off: "storage_off (cmd_lba cmd) = 512 * lba_n cmd"
    using assms(2) by (intro storage_off_n) (simp add: in_range_def)
  show ?thesis
    using assms(2,3) storage_ok_cases(1) [OF assms(1,2)] length_cmd_data [OF assms(1,2)]
      read_mapped [of w "prp1 cmd" "cmd_data s cmd"]
    by (simp add: nvme_cmd_write_def Let_def range_cases storage_len_n off cmd_data_def [symmetric]
        put_data_def)
qed

lemma nvme_write_cmd_outside:
  assumes "nvme_wf s" and "\<not> in_range cmd"
  shows "nvme_cmd_write q cmd (s, w) =
         (if wraps cmd then Inl Out_Of_Bounds else Inr (0x8002, s, w))"
  using assms storage_ok_cases(2) [OF assms(1), of cmd]
  by (simp add: nvme_cmd_write_def Let_def range_cases)

lemma nvme_write_cmd_wf:
  assumes "nvme_wf s" and "nvme_cmd_write q cmd (s, w) = Inr (st, s', w')"
  shows "nvme_wf s' \<and> w' = w"
proof (cases "in_range cmd")
  case True
  have off: "storage_off (cmd_lba cmd) = 512 * lba_n cmd"
    using True by (intro storage_off_n) (simp add: in_range_def)
  let ?b = "fst (snd (pci_dma_read q (prp1 cmd) (cmd_data s cmd) w))"
  have "length ?b = 512 * nlb_n cmd"
    using read_length length_cmd_data [OF assms(1) True] by simp
  then have "nvme_wf (put_data ?b cmd s)" by (rule put_data_wf [OF assms(1) True])
  then show ?thesis
    using assms(2) True storage_ok_cases(1) [OF assms(1) True] read_env
    by (auto simp: nvme_cmd_write_def Let_def range_cases storage_len_n off cmd_data_def [symmetric]
        case_prod_beta put_data_def)
next
  case False
  then show ?thesis
    using nvme_write_cmd_outside [OF assms(1) False] assms by (auto split: if_splits)
qed

end

subsection \<open>Completion\<close>

lemma advance_cq_frame [simp]:
  "storage (nvme_advance_cq s) = storage s" "sq_head (nvme_advance_cq s) = sq_head s"
  "sq_tail (nvme_advance_cq s) = sq_tail s" "aqa (nvme_advance_cq s) = aqa s"
  "asq (nvme_advance_cq s) = asq s" "acq (nvme_advance_cq s) = acq s"
  by (simp_all add: nvme_advance_cq_def Let_def)

lemma advance_cq_wf: "nvme_wf s \<Longrightarrow> nvme_wf (nvme_advance_cq s)"
proof -
  assume wf: "nvme_wf s"
  then have "unat (cq_phase s) \<le> 1" by (simp add: nvme_wf_def word_le_nat_alt)
  then have "cq_phase s = 0 \<or> cq_phase s = 1"
    by (auto simp: word_eq_iff_unsigned [where ?'a = nat] le_Suc_eq)
  then show ?thesis using wf by (auto simp: nvme_advance_cq_def Let_def nvme_wf_def)
qed

text \<open>The completion entry of a command with status \<open>st\<close>.\<close>

definition completion :: "EduNvmeState \<Rightarrow> NvmeCmd \<Rightarrow> u16 \<Rightarrow> NvmeCqe" where
  "completion s cmd st = \<lparr>cqe_result = 0, cqe_rsvd = 0, cqe_sq_head = sq_head s, cqe_sq_id = 0,
     cqe_cid = cmd_cid cmd, cqe_status = st OR push_bit 8 (ucast (cq_phase s))\<rparr>"

definition cqe_addr :: "EduNvmeState \<Rightarrow> u64" where
  "cqe_addr s = acq s + ucast (cq_tail s) * 16"

lemma length_cqe_bytes [simp]: "length (cqe_bytes c) = 16"
  by (simp add: cqe_bytes_def)

lemma length_identify_data [simp]: "length identify_data = 4096"
  by (simp add: identify_data_def Let_def)

definition nvme_exec ::
  "'w qemu \<Rightarrow> NvmeCmd \<Rightarrow> EduNvmeState \<times> 'w \<Rightarrow> (u16 \<times> EduNvmeState \<times> 'w) res" where
  "nvme_exec q cmd sw =
     (if opcode cmd = NVME_CMD_IDENTIFY then nvme_cmd_identify q cmd sw
      else if opcode cmd = NVME_CMD_READ then nvme_cmd_read q cmd sw
      else if opcode cmd = NVME_CMD_WRITE then nvme_cmd_write q cmd sw
      else Inr (0x0001, sw))"

text \<open>A command changes nothing but the storage before its completion.\<close>

lemma nvme_exec_frame:
  assumes "nvme_exec q cmd (s, w) = Inr (st, s', w')"
  shows "s' = s\<lparr>storage := storage s'\<rparr>"
  using assms unfolding nvme_exec_def nvme_cmd_identify_def nvme_cmd_read_def nvme_cmd_write_def
  by (auto simp: Let_def case_prod_beta split: if_splits)

lemma process_cmd_exec:
  "edu_nvme_process_cmd q cmd (s, w) =
   res_bind (nvme_exec q cmd (s, w)) (\<lambda>(st, s1, w1).
     Inr (nvme_advance_cq s1,
       let w2 = snd (pci_dma_write q (cqe_addr s) (cqe_bytes (completion s cmd st)) w1)
       in if msix_enabled q w2 then msix_notify q 0 w2 else w2))"
proof (cases "nvme_exec q cmd (s, w)")
  case (Inl e)
  then show ?thesis by (simp add: edu_nvme_process_cmd_def nvme_exec_def [symmetric])
next
  case (Inr r)
  obtain st s1 w1 where r: "r = (st, s1, w1)" by (cases r)
  have "s1 = s\<lparr>storage := storage s1\<rparr>" by (rule nvme_exec_frame) (use Inr r in simp)
  then obtain m where "s1 = s\<lparr>storage := m\<rparr>" by blast
  then show ?thesis
    using Inr r
    by (simp add: edu_nvme_process_cmd_def nvme_exec_def [symmetric] nvme_complete_def Let_def
        completion_def cqe_addr_def case_prod_beta)
qed

context dma_bus
begin

lemma nvme_exec_wf:
  assumes "nvme_wf s" and "nvme_exec q cmd (s, w) = Inr (st, s', w')"
  shows "nvme_wf s'"
  using assms nvme_write_cmd_wf [OF assms(1), of cmd w st s' w'] nvme_read_cmd [OF assms(1), of cmd w]
  by (auto simp: nvme_exec_def nvme_cmd_identify_def split: if_splits)

lemma process_cmd_wf:
  assumes "nvme_wf s" and "edu_nvme_process_cmd q cmd (s, w) = Inr (s', w')"
  shows "nvme_wf s'"
  using assms nvme_exec_wf [OF assms(1), of cmd w]
  by (auto simp: process_cmd_exec res_bind_Inr_iff intro: advance_cq_wf)

lemma process_cmd_fault:
  assumes "nvme_wf s"
  shows "edu_nvme_process_cmd q cmd (s, w) = Inl e \<longleftrightarrow>
         e = Out_Of_Bounds \<and> (opcode cmd = NVME_CMD_READ \<or> opcode cmd = NVME_CMD_WRITE) \<and> wraps cmd"
proof -
  have "\<not> (in_range cmd \<and> wraps cmd)" by (auto simp: in_range_def wraps_def)
  moreover have "nvme_cmd_write q cmd (s, w) \<noteq> Inl e" if "in_range cmd"
    using storage_ok_cases(1) [OF assms that] that
    by (simp add: nvme_cmd_write_def Let_def range_cases case_prod_beta)
  ultimately show ?thesis
    using nvme_read_cmd [OF assms, of cmd w] nvme_write_cmd_outside [OF assms, of cmd w]
    by (cases "in_range cmd")
       (auto simp: process_cmd_exec res_bind_Inl_iff nvme_exec_def nvme_cmd_identify_def
         split: if_splits)
qed

end

end
