(* ===== verification/Nvme_Queue.thy ===== *)
theory Nvme_Queue
  imports Nvme_Storage
begin

text \<open>
  The queues of the NVMe controller: both pointers are cyclic queues, the submission loop
  executes the slots from head to tail once each and in order, it returns exactly when the tail
  lies inside the queue, and the completion pointer and phase bit count the completions.
\<close>

subsection \<open>Pointers\<close>

interpretation sq: cyclic_queue nvme_sq_next unat unat
proof unfold_locales
  fix i z :: u16
  assume i: "unat i < unat z"
  moreover have "unat z < 65536" using unsigned_less [of z] by simp
  ultimately have "unat (i + 1) = unat i + 1" by (simp add: unat_word_ariths)
  then show "unat (nvme_sq_next z i) = (if unat i + 1 = unat z then 0 else unat i + 1)"
    using i by (simp add: nvme_sq_next_def Let_def word_le_nat_alt)
qed (rule unsigned_word_eqI)

text \<open>The completion queue holds \<open>(aqa >> 16) + 1\<close> entries.\<close>

definition nvme_cq_size :: "u32 \<Rightarrow> nat" where
  "nvme_cq_size a = unat (drop_bit 16 a) + 1"

definition nvme_cq_next :: "u32 \<Rightarrow> u16 \<Rightarrow> u16" where
  "nvme_cq_next a i = (if (ucast (i + 1) :: u32) \<ge> drop_bit 16 a + 1 then 0 else i + 1)"

lemma nvme_cq_size_bound: "nvme_cq_size a \<le> 65536"
proof -
  have "unat (drop_bit 16 a) = unat a div 65536" by (simp add: drop_bit_eq_div unat_div)
  moreover have "unat a < 4294967296" using unsigned_less [of a] by simp
  ultimately show ?thesis by (simp add: nvme_cq_size_def)
qed

lemma cq_full: "(ucast (j :: u16) :: u32) \<ge> drop_bit 16 a + 1 \<longleftrightarrow> nvme_cq_size a \<le> unat j"
proof -
  have "unat (drop_bit 16 a + 1) = nvme_cq_size a"
    using nvme_cq_size_bound [of a] by (simp add: nvme_cq_size_def unat_word_ariths)
  moreover have "unat (ucast j :: u32) = unat j"
    using unsigned_less [of j, where ?'a = nat] by (simp add: unsigned_ucast_eq take_bit_nat_eq_self)
  ultimately show ?thesis by (simp add: word_le_nat_alt)
qed

interpretation cq: cyclic_queue nvme_cq_next unat nvme_cq_size
proof unfold_locales
  fix i :: u16 and a :: u32
  assume i: "unat i < nvme_cq_size a"
  have "unat (i + 1) = (if unat i = 65535 then 0 else unat i + 1)"
    using unsigned_less [of i, where ?'a = nat] by (simp add: unat_word_ariths mod_if)
  then show "unat (nvme_cq_next a i) = (if unat i + 1 = nvme_cq_size a then 0 else unat i + 1)"
    using i nvme_cq_size_bound [of a] unsigned_less [of i, where ?'a = nat]
    by (auto simp: nvme_cq_next_def cq_full split: if_splits)
qed (rule unsigned_word_eqI)

lemma advance_cq_next: "cq_tail (nvme_advance_cq s) = nvme_cq_next (aqa s) (cq_tail s)"
  by (simp add: nvme_advance_cq_def nvme_cq_next_def Let_def)

subsection \<open>The completion counter\<close>

text \<open>
  The abstract completion queue is a counter: after \<open>n\<close> completions the next entry is
  \<open>n mod size\<close> and the phase bit is 1 on every even pass.
\<close>

definition cq_at :: "EduNvmeState \<Rightarrow> nat \<Rightarrow> bool" where
  "cq_at s n \<longleftrightarrow> unat (cq_tail s) = n mod nvme_cq_size (aqa s) \<and>
     cq_phase s = (if even (n div nvme_cq_size (aqa s)) then 1 else 0)"

lemma cq_at_advance:
  assumes "cq_at s n" and "nvme_cq_size (aqa s) \<le> 65535"
  shows "cq_at (nvme_advance_cq s) (Suc n)"
proof -
  let ?N = "nvme_cq_size (aqa s)"
  have N: "0 < ?N" by (simp add: nvme_cq_size_def)
  have tail: "unat (cq_tail s) = n mod ?N" "unat (cq_tail s) < ?N"
    using assms(1) N by (simp_all add: cq_at_def)
  have inc: "unat (cq_tail s + 1) = unat (cq_tail s) + 1"
    using tail(2) assms(2) by (simp add: unat_word_ariths)
  show ?thesis
  proof (cases "unat (cq_tail s) + 1 = ?N")
    case True
    then have "Suc n mod ?N = 0" "Suc n div ?N = Suc (n div ?N)"
      using tail(1) by (simp_all add: mod_Suc div_Suc)
    then show ?thesis
      using True inc assms(1)
      by (auto simp: cq_at_def nvme_advance_cq_def Let_def cq_full)
  next
    case False
    then have "Suc n mod ?N = Suc (n mod ?N)" "Suc n div ?N = n div ?N"
      using tail(1) by (auto simp: mod_Suc div_Suc)
    then show ?thesis
      using False inc assms(1) tail
      by (auto simp: cq_at_def nvme_advance_cq_def Let_def cq_full)
  qed
qed

subsection \<open>The submission loop\<close>

lemma process_cmd_frame:
  assumes "edu_nvme_process_cmd q cmd (s, w) = Inr (s', w')"
  shows "sq_head s' = sq_head s" "sq_tail s' = sq_tail s" "aqa s' = aqa s" "asq s' = asq s"
    "acq s' = acq s"
proof -
  obtain st s1 w1 where exec: "nvme_exec q cmd (s, w) = Inr (st, s1, w1)" and s': "s' = nvme_advance_cq s1"
    using assms by (auto simp: process_cmd_exec res_bind_Inr_iff)
  from nvme_exec_frame [OF exec] obtain m where "s1 = s\<lparr>storage := m\<rparr>" by blast
  then show "sq_head s' = sq_head s" "sq_tail s' = sq_tail s" "aqa s' = aqa s" "asq s' = asq s"
    "acq s' = acq s"
    by (simp_all add: s')
qed

lemma sq_step_frame:
  assumes "nvme_sq_step q sz (c, s, w) = Inr (c', s', w')"
  shows "sq_head s' = nvme_sq_next sz (sq_head s)" "sq_tail s' = sq_tail s" "aqa s' = aqa s"
    "asq s' = asq s" "acq s' = acq s"
proof -
  obtain b w0 s1 where cmd: "edu_nvme_process_cmd q (cmd_of_bytes b) (s, w0) = Inr (s1, w')"
    and s': "s' = s1\<lparr>sq_head := nvme_sq_next sz (sq_head s1)\<rparr>"
    using assms by (auto simp: nvme_sq_step_def Let_def res_bind_Inr_iff split: prod.splits)
  show "sq_head s' = nvme_sq_next sz (sq_head s)" "sq_tail s' = sq_tail s" "aqa s' = aqa s"
    "asq s' = asq s" "acq s' = acq s"
    using process_cmd_frame [OF cmd] by (simp_all add: s')
qed

text \<open>The specification: fetch and execute the given slots, one after the other.\<close>

fun nvme_run ::
  "'w qemu \<Rightarrow> u16 \<Rightarrow> u16 list \<Rightarrow> byte list \<times> EduNvmeState \<times> 'w \<Rightarrow> (EduNvmeState \<times> 'w) res" where
  "nvme_run q sz [] (c, s, w) = Inr (s, w)"
| "nvme_run q sz (i # is) (c, s, w) =
     res_bind (nvme_sq_step q sz (c, s\<lparr>sq_head := i\<rparr>, w)) (nvme_run q sz is)"

lemma sq_loop_runs:
  assumes "unat (sq_head s) < unat sz" and "unat (sq_tail s) < unat sz"
  shows "nvme_sq_loop q sz (c, s, w) =
         Some (nvme_run q sz (sq.slots sz (sq_head s) (sq_tail s)) (c, s, w))"
  using assms
proof (induction "sq.dist sz (sq_head s) (sq_tail s)" arbitrary: c s w rule: less_induct)
  case less
  show ?case
  proof (cases "sq_head s = sq_tail s")
    case True
    then show ?thesis by (subst nvme_sq_loop.simps) simp
  next
    case False
    note slots = sq.slots_Cons [OF less.prems False]
    show ?thesis
    proof (cases "nvme_sq_step q sz (c, s, w)")
      case (Inl e)
      then show ?thesis using False slots by (subst nvme_sq_loop.simps) simp
    next
      case (Inr r)
      obtain c' s' w' where r: "r = (c', s', w')" by (cases r)
      note frame = sq_step_frame [OF Inr [unfolded r]]
      have "nvme_sq_loop q sz (c', s', w') =
            Some (nvme_run q sz (sq.slots sz (sq_head s') (sq_tail s')) (c', s', w'))"
        using less.hyps [of s' c' w'] less.prems frame sq.dist_nxt [OF less.prems False]
          sq.nxt_valid [OF less.prems(1)]
        by simp
      then show ?thesis
        using Inr r False slots frame by (subst nvme_sq_loop.simps) simp
    qed
  qed
qed

text \<open>The loop returns when the tail lies in the queue, wherever the head was left.\<close>

lemma sq_loop_returns:
  assumes "sq_tail s < sz"
  shows "\<exists>r. nvme_sq_loop q sz (c, s, w) = Some r"
proof (cases "sq_head s < sz")
  case True
  then show ?thesis using sq_loop_runs [of s sz q c w] assms by (simp add: word_less_nat_alt)
next
  case False
  show ?thesis
  proof (cases "nvme_sq_step q sz (c, s, w)")
    case (Inl e)
    then show ?thesis by (subst nvme_sq_loop.simps) simp
  next
    case (Inr r)
    obtain c' s' w' where r: "r = (c', s', w')" by (cases r)
    have "unat (nvme_sq_next sz (sq_head s)) < unat sz"
    proof -
      have "nvme_sq_next sz (sq_head s) < sz"
        using assms by (auto simp: nvme_sq_next_def Let_def intro: le_less_trans [of _ "sq_tail s"])
      then show ?thesis by (simp add: word_less_nat_alt)
    qed
    then have "\<exists>r. nvme_sq_loop q sz (c', s', w') = Some r"
      using sq_loop_runs [of s' sz q c' w'] sq_step_frame [OF Inr [unfolded r]] assms
      by (simp add: word_less_nat_alt)
    then show ?thesis using Inr r False assms by (subst nvme_sq_loop.simps) auto
  qed
qed

text \<open>It never returns normally when the tail lies outside and the head is elsewhere.\<close>

lemma sq_loop_result:
  assumes ret: "nvme_sq_loop q sz csw = Some r" and "0 < sz"
  shows "r = Inr sw' \<longrightarrow> sq_head (fst (snd csw)) = sq_tail (fst (snd csw)) \<or> sq_tail (fst (snd csw)) < sz"
    (is "?P q sz csw r")
proof -
  have "0 < sz \<longrightarrow> ?P q sz csw r"
  proof (rule nvme_sq_loop.raw_induct [where P = "\<lambda>q sz csw r. 0 < sz \<longrightarrow> (r = Inr sw' \<longrightarrow>
        sq_head (fst (snd csw)) = sq_tail (fst (snd csw)) \<or> sq_tail (fst (snd csw)) < sz)", OF _ ret])
    fix f :: "'a qemu \<Rightarrow> u16 \<Rightarrow> byte list \<times> EduNvmeState \<times> 'a \<Rightarrow> ((EduNvmeState \<times> 'a) res) option"
      and q sz csw r
    assume IH: "\<And>q sz csw r. f q sz csw = Some r \<Longrightarrow> 0 < sz \<longrightarrow> (r = Inr sw' \<longrightarrow>
        sq_head (fst (snd csw)) = sq_tail (fst (snd csw)) \<or> sq_tail (fst (snd csw)) < sz)"
      and eq: "(if sq_head (fst (snd csw)) \<noteq> sq_tail (fst (snd csw)) then
          (case nvme_sq_step q sz csw of Inl e \<Rightarrow> Some (Inl e) | Inr csw' \<Rightarrow> f q sz csw')
        else Some (Inr (snd csw))) = Some r"
    obtain c s w where csw: "csw = (c, s, w)" by (cases csw)
    show "0 < sz \<longrightarrow> (r = Inr sw' \<longrightarrow>
        sq_head (fst (snd csw)) = sq_tail (fst (snd csw)) \<or> sq_tail (fst (snd csw)) < sz)"
    proof (intro impI, rule ccontr)
      assume sz: "0 < sz" and r: "r = Inr sw'"
        and no: "\<not> (sq_head (fst (snd csw)) = sq_tail (fst (snd csw)) \<or> sq_tail (fst (snd csw)) < sz)"
      then obtain c' s' w' where step: "nvme_sq_step q sz (c, s, w) = Inr (c', s', w')"
        and f: "f q sz (c', s', w') = Some r"
        using eq by (auto simp: csw split: sum.splits)
      have "nvme_sq_next sz (sq_head s) < sz" using sz by (simp add: nvme_sq_next_def Let_def not_le)
      then show False
        using IH [OF f] sz r no sq_step_frame [OF step] by (auto simp: csw)
    qed
  qed
  then show ?thesis using assms(2) by simp
qed

text \<open>The loop diverges from a set of states it cannot leave and in which the head is not at the tail.\<close>

lemma sq_loop_diverges:
  assumes "P csw"
    and step: "\<And>csw. P csw \<Longrightarrow> sq_head (fst (snd csw)) \<noteq> sq_tail (fst (snd csw)) \<and>
      (\<exists>csw'. nvme_sq_step q sz csw = Inr csw' \<and> P csw')"
  shows "nvme_sq_loop q sz csw = None"
proof (rule ccontr)
  assume "nvme_sq_loop q sz csw \<noteq> None"
  then obtain r where ret: "nvme_sq_loop q sz csw = Some r" by blast
  have "q = q \<and> sz = sz \<longrightarrow> \<not> P csw"
  proof (rule nvme_sq_loop.raw_induct [where P = "\<lambda>q' sz' csw r. q' = q \<and> sz' = sz \<longrightarrow> \<not> P csw", OF _ ret])
    fix f :: "'a qemu \<Rightarrow> u16 \<Rightarrow> byte list \<times> EduNvmeState \<times> 'a \<Rightarrow> ((EduNvmeState \<times> 'a) res) option"
      and q' sz' csw r
    assume IH: "\<And>q' sz' csw r. f q' sz' csw = Some r \<Longrightarrow> q' = q \<and> sz' = sz \<longrightarrow> \<not> P csw"
      and eq: "(if sq_head (fst (snd csw)) \<noteq> sq_tail (fst (snd csw)) then
          (case nvme_sq_step q' sz' csw of Inl e \<Rightarrow> Some (Inl e) | Inr csw' \<Rightarrow> f q' sz' csw')
        else Some (Inr (snd csw))) = Some r"
    show "q' = q \<and> sz' = sz \<longrightarrow> \<not> P csw"
    proof (intro impI notI)
      assume q: "q' = q \<and> sz' = sz" and "P csw"
      then obtain csw' where csw': "nvme_sq_step q sz csw = Inr csw'" "P csw'"
        and "sq_head (fst (snd csw)) \<noteq> sq_tail (fst (snd csw))"
        using step by blast
      then have "f q' sz' csw' = Some r" using eq q by simp
      then show False using IH [of q' sz' csw' r] q csw'(2) by blast
    qed
  qed
  then show False using assms(1) by simp
qed

lemma nvme_sq_size_bounds: "0 < nvme_sq_size s" "nvme_sq_size s \<le> 4096"
proof -
  have m: "(0xFFF :: u32) = mask 12" by (simp add: mask_eq_exp_minus_1)
  have a: "unat (aqa s AND 0xFFF) < 4096"
    unfolding m take_bit_eq_mask [symmetric]
    by (simp add: unsigned_take_bit_eq take_bit_nat_less_exp [of 12, simplified])
  then have "unat ((aqa s AND 0xFFF) + 1) = unat (aqa s AND 0xFFF) + 1"
    by (simp add: unat_word_ariths)
  then have "unat (nvme_sq_size s) = unat (aqa s AND 0xFFF) + 1"
    using a by (simp add: nvme_sq_size_def unsigned_ucast_eq take_bit_nat_eq_self)
  then show "0 < nvme_sq_size s" "nvme_sq_size s \<le> 4096"
    using a by (simp_all add: word_less_nat_alt word_le_nat_alt)
qed

lemma process_cmd_counts:
  assumes "edu_nvme_process_cmd q cmd (s, w) = Inr (s', w')" and "cq_at s n"
    and "nvme_cq_size (aqa s) \<le> 65535"
  shows "cq_at s' (Suc n)"
proof -
  obtain st s1 w1 where exec: "nvme_exec q cmd (s, w) = Inr (st, s1, w1)" and s': "s' = nvme_advance_cq s1"
    using assms(1) by (auto simp: process_cmd_exec res_bind_Inr_iff)
  obtain m where s1: "s1 = s\<lparr>storage := m\<rparr>" using nvme_exec_frame [OF exec] by blast
  then have "cq_at s1 n" using assms(2) by (simp add: cq_at_def)
  then show ?thesis using cq_at_advance [of s1 n] assms(3) by (simp add: s' s1)
qed

lemma nvme_run_counts:
  assumes "nvme_run q sz is (c, s, w) = Inr (s', w')" and "cq_at s n"
    and "nvme_cq_size (aqa s) \<le> 65535"
  shows "cq_at s' (n + length is) \<and> aqa s' = aqa s"
  using assms
proof (induction "is" arbitrary: c s w n)
  case (Cons i "is")
  let ?s = "s\<lparr>sq_head := i\<rparr>"
  obtain c1 s1 w1 where step: "nvme_sq_step q sz (c, ?s, w) = Inr (c1, s1, w1)"
    and run: "nvme_run q sz is (c1, s1, w1) = Inr (s', w')"
    using Cons.prems(1) by (auto simp: res_bind_Inr_iff)
  obtain b w0 s0 where cmd: "edu_nvme_process_cmd q (cmd_of_bytes b) (?s, w0) = Inr (s0, w1)"
    and s1: "s1 = s0\<lparr>sq_head := nvme_sq_next sz (sq_head s0)\<rparr>"
    using step by (auto simp: nvme_sq_step_def Let_def res_bind_Inr_iff split: prod.splits)
  have "cq_at ?s n" using Cons.prems(2) by (simp add: cq_at_def)
  then have "cq_at s0 (Suc n)" using process_cmd_counts [OF cmd] Cons.prems(3) by simp
  then have "cq_at s1 (Suc n)" "aqa s1 = aqa s"
    using process_cmd_frame(3) [OF cmd] by (simp_all add: s1 cq_at_def)
  then show ?case using Cons.IH [OF run, of "Suc n"] Cons.prems(3) by simp
qed simp

lemma nvme_run_tail:
  assumes "nvme_run q sz (sq.slots sz (sq_head s) (sq_tail s)) (c, s, w) = Inr (s', w')"
    and "unat (sq_head s) < unat sz" and "unat (sq_tail s) < unat sz"
  shows "sq_head s' = sq_tail s \<and> sq_tail s' = sq_tail s"
  using assms
proof (induction "sq.dist sz (sq_head s) (sq_tail s)" arbitrary: c s w rule: less_induct)
  case less
  show ?case
  proof (cases "sq_head s = sq_tail s")
    case True
    then show ?thesis using less.prems(1) by auto
  next
    case False
    note slots = sq.slots_Cons [OF less.prems(2,3) False]
    obtain c1 s1 w1 where step: "nvme_sq_step q sz (c, s, w) = Inr (c1, s1, w1)"
      and run: "nvme_run q sz (sq.slots sz (nvme_sq_next sz (sq_head s)) (sq_tail s)) (c1, s1, w1) = Inr (s', w')"
      using less.prems(1) slots by (auto simp: res_bind_Inr_iff)
    note frame = sq_step_frame [OF step]
    show ?thesis
      using less.hyps [of s1 c1 w1] run frame less.prems(2,3) sq.dist_nxt [OF less.prems(2,3) False]
        sq.nxt_valid [OF less.prems(2)]
      by simp
  qed
qed

subsection \<open>The entries posted\<close>

text \<open>A completion entry is the only write of 16 bytes a command makes: the data of an IDENTIFY has 4096
  bytes and that of a READ a positive multiple of 512.\<close>

definition cqe_writes :: "(u64 \<times> byte list) list \<Rightarrow> (u64 \<times> byte list) list" where
  "cqe_writes l = filter (\<lambda>(a, d). length d = 16) l"

lemma cqe_writes_append [simp]: "cqe_writes (l @ m) = cqe_writes l @ cqe_writes m"
  by (simp add: cqe_writes_def)

text \<open>The \<open>n\<close>-th entry posted to a queue of \<open>N\<close> entries at \<open>a\<close>, for a command taken from slot \<open>h\<close>.\<close>

definition cq_post :: "u64 \<Rightarrow> nat \<Rightarrow> nat \<Rightarrow> u16 \<Rightarrow> u16 \<times> u16 \<Rightarrow> u64 \<times> byte list" where
  "cq_post a N n h cs =
     (a + of_nat (n mod N) * 16,
      cqe_bytes \<lparr>cqe_result = 0, cqe_rsvd = 0, cqe_sq_head = h, cqe_sq_id = 0, cqe_cid = fst cs,
        cqe_status = snd cs OR push_bit 8 (if even (n div N) then 1 else 0)\<rparr>)"

lemma cq_post_completion:
  assumes "cq_at s n"
  shows "(cqe_addr s, cqe_bytes (completion s cmd st)) =
         cq_post (acq s) (nvme_cq_size (aqa s)) n (sq_head s) (cmd_cid cmd, st)"
proof -
  have "(ucast (cq_tail s) :: u64) = of_nat (unat (cq_tail s))" by simp
  then have "(ucast (cq_tail s) :: u64) = of_nat (n mod nvme_cq_size (aqa s))"
    using assms by (simp only: cq_at_def)
  moreover have "(ucast (cq_phase s) :: u16) = (if even (n div nvme_cq_size (aqa s)) then 1 else 0)"
    using assms by (simp add: cq_at_def)
  ultimately show ?thesis by (simp only: cqe_addr_def completion_def cq_post_def fst_conv snd_conv)
qed

lemma storage_len_16: "storage_len (cmd_nlb cmd) \<noteq> 16"
  using cmd_nlb_bounds [of cmd] by (simp add: storage_len_n nlb_n_def)

context write_log
begin

lemma exec_posts_nothing:
  assumes "nvme_exec q cmd (s, w) = Inr (st, s', w')"
  shows "cqe_writes (log w') = cqe_writes (log w)"
  using assms storage_len_16 [of cmd] unfolding nvme_exec_def
  by (auto simp: nvme_cmd_identify_def nvme_cmd_read_def nvme_cmd_write_def Let_def case_prod_beta
      log_write log_read cqe_writes_def storage_ok_def split: if_splits)

lemma process_cmd_posts:
  assumes "edu_nvme_process_cmd q cmd (s, w) = Inr (s', w')" and "cq_at s n"
  shows "\<exists>st. cqe_writes (log w') = cqe_writes (log w) @
    [cq_post (acq s) (nvme_cq_size (aqa s)) n (sq_head s) (cmd_cid cmd, st)]"
proof -
  obtain st s1 w1 where exec: "nvme_exec q cmd (s, w) = Inr (st, s1, w1)"
    and w': "w' = (let w2 = snd (pci_dma_write q (cqe_addr s) (cqe_bytes (completion s cmd st)) w1)
       in if msix_enabled q w2 then msix_notify q 0 w2 else w2)"
    using assms(1) by (auto simp: process_cmd_exec res_bind_Inr_iff)
  have "log w' = log w1 @ [(cqe_addr s, cqe_bytes (completion s cmd st))]"
    by (simp add: w' Let_def log_write log_notify)
  then have "cqe_writes (log w') = cqe_writes (log w) @ [(cqe_addr s, cqe_bytes (completion s cmd st))]"
    using exec_posts_nothing [OF exec] by (simp add: cqe_writes_def)
  then show ?thesis unfolding cq_post_completion [OF assms(2)] by blast
qed

lemma run_posts:
  assumes "nvme_run q sz is (c, s, w) = Inr (s', w')" and "cq_at s n"
    and "nvme_cq_size (aqa s) \<le> 65535"
  shows "\<exists>cs. length cs = length is \<and> cqe_writes (log w') = cqe_writes (log w) @
    map (\<lambda>i. cq_post (acq s) (nvme_cq_size (aqa s)) (n + i) (is ! i) (cs ! i)) [0..<length is]"
  using assms
proof (induction "is" arbitrary: c s w n)
  case (Cons h "is")
  let ?s = "s\<lparr>sq_head := h\<rparr>"
  obtain c1 s1 w1 where step: "nvme_sq_step q sz (c, ?s, w) = Inr (c1, s1, w1)"
    and run: "nvme_run q sz is (c1, s1, w1) = Inr (s', w')"
    using Cons.prems(1) by (auto simp: res_bind_Inr_iff)
  obtain b w0 s0 where cmd: "edu_nvme_process_cmd q (cmd_of_bytes b) (?s, w0) = Inr (s0, w1)"
    and s1: "s1 = s0\<lparr>sq_head := nvme_sq_next sz (sq_head s0)\<rparr>" and w0: "log w0 = log w"
    using step log_read [of "asq s + ucast h * 64" c w]
    by (auto simp: nvme_sq_step_def Let_def res_bind_Inr_iff split: prod.splits)
  have at: "cq_at ?s n" using Cons.prems(2) by (simp add: cq_at_def)
  then have "cq_at s0 (Suc n)" using process_cmd_counts [OF cmd] Cons.prems(3) by simp
  then have at1: "cq_at s1 (Suc n)" and frame: "aqa s1 = aqa s" "acq s1 = acq s"
    using process_cmd_frame(3,5) [OF cmd] by (simp_all add: s1 cq_at_def)
  obtain st where first: "cqe_writes (log w1) = cqe_writes (log w) @
      [cq_post (acq s) (nvme_cq_size (aqa s)) n h (cmd_cid (cmd_of_bytes b), st)]"
    using process_cmd_posts [OF cmd at] w0 by auto
  obtain cs where rest: "length cs = length is" "cqe_writes (log w') = cqe_writes (log w1) @
      map (\<lambda>i. cq_post (acq s) (nvme_cq_size (aqa s)) (Suc n + i) (is ! i) (cs ! i)) [0..<length is]"
    using Cons.IH [OF run at1] Cons.prems(3) by (auto simp: frame)
  have "[0..<length (h # is)] = 0 # map Suc [0..<length is]"
    by (simp add: map_Suc_upt upt_conv_Cons del: upt_Suc)
  then show ?case
    using first rest by (intro exI [of _ "(cmd_cid (cmd_of_bytes b), st) # cs"]) (simp add: comp_def)
qed simp

end

subsection \<open>The doorbell\<close>

definition nvme_ready :: "EduNvmeState \<Rightarrow> bool" where
  "nvme_ready s \<longleftrightarrow> nvme_wf s \<and> sq_head s < nvme_sq_size s"

definition nvme_pending :: "EduNvmeState \<Rightarrow> u16 list" where
  "nvme_pending s = cyc_slots (nvme_sq_next (nvme_sq_size s))
     (cyc_dist (unat (nvme_sq_size s)) (unat (sq_head s)) (unat (sq_tail s))) (sq_head s)"

lemma nvme_doorbell_runs:
  assumes "s' = s\<lparr>sq_tail := ucast val\<rparr>" and "sq_head s < nvme_sq_size s"
    and "sq_tail s' < nvme_sq_size s"
  shows "edu_nvme_write q NVME_SQ0TDBL val sz (s, w) =
         Some (nvme_run q (nvme_sq_size s) (nvme_pending s') (uninit q 64 w, s', w))"
proof -
  have z: "nvme_sq_size s' = nvme_sq_size s" using assms(1) by (simp add: nvme_sq_size_def)
  show ?thesis
    using sq_loop_runs [of s' "nvme_sq_size s" q "uninit q 64 w" w] assms z
    by (simp add: edu_nvme_write_def edu_nvme_process_sq_def nvme_pending_def word_less_nat_alt)
qed

text \<open>A doorbell that moves the tail one slot past the head makes one iteration.\<close>

lemma nvme_doorbell_one:
  assumes "sq_head s < nvme_sq_size s" and "ucast val = nvme_sq_next (nvme_sq_size s) (sq_head s)"
    and "sq_head s \<noteq> ucast val"
  shows "edu_nvme_write q NVME_SQ0TDBL val sz (s, w) =
    Some (res_bind (nvme_sq_step q (nvme_sq_size s) (uninit q 64 w, s\<lparr>sq_tail := ucast val\<rparr>, w))
      (\<lambda>(c, sw'). Inr sw'))"
proof -
  let ?s = "s\<lparr>sq_tail := ucast val\<rparr>" and ?z = "nvme_sq_size s"
  have z: "unat (sq_head s) < unat ?z" "unat (ucast val :: u16) < unat ?z"
    using assms(1) sq.nxt_valid [of "sq_head s" ?z] by (simp_all add: assms(2) word_less_nat_alt)
  have "nvme_pending ?s = [sq_head s]"
    using sq.slots_Cons [OF z(1), of "ucast val"] z(2) assms(2,3)
    by (simp add: nvme_pending_def nvme_sq_size_def)
  then show ?thesis
    using nvme_doorbell_runs [of ?s val s q sz w] assms(1) z(2)
    by (cases "nvme_sq_step q ?z (uninit q 64 w, ?s, w)") (auto simp: word_less_nat_alt)
qed

lemma nvme_doorbell_single:
  assumes "sq_head s < nvme_sq_size s" and "ucast val = nvme_sq_next (nvme_sq_size s) (sq_head s)"
    and "sq_head s \<noteq> ucast val"
    and "nvme_sq_step q (nvme_sq_size s) (uninit q 64 w, s\<lparr>sq_tail := ucast val\<rparr>, w) = Inr (c, sw')"
  shows "edu_nvme_write q NVME_SQ0TDBL val sz (s, w) = Some (Inr sw')"
  using nvme_doorbell_one [OF assms(1-3), of q sz w] assms(4) by simp

end
