(* ===== verification/Nvme_Engine.thy ===== *)
theory Nvme_Engine
  imports Nvme_Queue
begin

text \<open>
  What the NVMe controller promises its driver, on the storage, the queues and the registers,
  and where it does not keep the promise.
\<close>

subsection \<open>Commands in memory\<close>

definition cmd_bytes :: "NvmeCmd \<Rightarrow> byte list" where
  "cmd_bytes c = le_bytes 1 (opcode c) @ le_bytes 1 (cmd_flags c) @ le_bytes 2 (cmd_cid c) @
     le_bytes 4 (nsid c) @ le_bytes 8 (cmd_rsvd c) @ le_bytes 8 (mptr c) @ le_bytes 8 (prp1 c) @
     le_bytes 8 (prp2 c) @ le_bytes 4 (cdw10 c) @ le_bytes 4 (cdw11 c) @ le_bytes 4 (cdw12 c) @
     le_bytes 4 (cdw13 c) @ le_bytes 4 (cdw14 c) @ le_bytes 4 (cdw15 c)"

lemma cmd_of_cmd_bytes [simp]: "cmd_of_bytes (cmd_bytes c) = c"
  by (simp add: cmd_of_bytes_def cmd_bytes_def subarr_def le_word_le_bytes)

lemma length_cmd_bytes [simp]: "length (cmd_bytes c) = 64"
  by (simp add: cmd_bytes_def)

text \<open>Commands of the test drivers: one block at \<open>lba\<close>, from or to \<open>a\<close>.\<close>

definition io_cmd :: "byte \<Rightarrow> u64 \<Rightarrow> u32 \<Rightarrow> u32 \<Rightarrow> NvmeCmd" where
  "io_cmd opc a lo hi = \<lparr>opcode = opc, cmd_flags = 0, cmd_cid = 7, nsid = 1, cmd_rsvd = 0, mptr = 0,
     prp1 = a, prp2 = 0, cdw10 = lo, cdw11 = hi, cdw12 = 0, cdw13 = 0, cdw14 = 0, cdw15 = 0\<rparr>"

lemma io_cmd_simps [simp]:
  "opcode (io_cmd opc a lo hi) = opc" "prp1 (io_cmd opc a lo hi) = a"
  "nlb_n (io_cmd opc a lo hi) = 1" "lba_n (io_cmd opc a lo 0) = unat lo"
  "lba_n (io_cmd opc a 0xFFFFFFFF 0xFFFFFFFF) = 18446744073709551615"
proof -
  show "opcode (io_cmd opc a lo hi) = opc" "prp1 (io_cmd opc a lo hi) = a"
    "nlb_n (io_cmd opc a lo hi) = 1"
    by (simp_all add: io_cmd_def nlb_n_def cmd_nlb_def)
  show "lba_n (io_cmd opc a lo 0) = unat lo"
    using unsigned_less [of lo, where ?'a = nat]
    by (simp add: io_cmd_def lba_n_def cmd_lba_def unsigned_ucast_eq take_bit_nat_eq_self)
  show "lba_n (io_cmd opc a 0xFFFFFFFF 0xFFFFFFFF) = 18446744073709551615"
    by (simp add: io_cmd_def lba_n_def cmd_lba_def)
qed

definition nvme_on :: EduNvmeState where
  "nvme_on = edu_nvme_realized\<lparr>aqa := 0x00030003, asq := 0x0000, acq := 0x1000\<rparr>"

lemma nvme_on_wf [simp]: "nvme_wf nvme_on" "nvme_wf edu_nvme_realized"
  by (simp_all add: nvme_on_def nvme_wf_def edu_nvme_realized_def)

lemma nvme_on_simps [simp]:
  "sq_head nvme_on = 0" "sq_tail nvme_on = 0" "cq_tail nvme_on = 0" "cq_phase nvme_on = 1"
  "aqa nvme_on = 0x00030003" "asq nvme_on = 0" "acq nvme_on = 0x1000"
  "nvme_sq_size nvme_on = 4" "nvme_cq_size 0x00030003 = 4"
  by (simp_all add: nvme_on_def edu_nvme_realized_def nvme_sq_size_def nvme_cq_size_def)

context dma_bus
begin

lemma process_ram:
  assumes "nvme_exec q cmd (s, w) = Inr (st, s1, w1)" and "writable w1 (cqe_addr s) 16"
  shows "\<exists>w'. edu_nvme_process_cmd q cmd (s, w) = Inr (nvme_advance_cq s1, w') \<and>
    ram w' = ram_store (ram w1) (cqe_addr s) (cqe_bytes (completion s cmd st)) \<and>
    readable w' = readable w1 \<and> writable w' = writable w1"
  using assms write_ram [of w1 "cqe_addr s" "cqe_bytes (completion s cmd st)"]
  by (simp add: process_cmd_exec Let_def notify_frame write_maps)

lemma process_write:
  assumes "nvme_wf s" and "opcode cmd = NVME_CMD_WRITE" and "in_range cmd"
    and "readable w (prp1 cmd) (512 * nlb_n cmd)" and "writable w (cqe_addr s) 16"
  shows "\<exists>w'. edu_nvme_process_cmd q cmd (s, w) =
      Inr (nvme_advance_cq (put_data (ram_bytes (ram w) (prp1 cmd) (512 * nlb_n cmd)) cmd s), w') \<and>
    ram w' = ram_store (ram w) (cqe_addr s) (cqe_bytes (completion s cmd 0)) \<and>
    readable w' = readable w \<and> writable w' = writable w"
  using process_ram [of cmd s w 0 _ w] nvme_write_cmd [OF assms(1,3,4)] assms(2,5)
  by (simp add: nvme_exec_def)

lemma process_read:
  assumes "nvme_wf s" and "opcode cmd = NVME_CMD_READ" and "in_range cmd"
    and "writable w (prp1 cmd) (512 * nlb_n cmd)" and "writable w (cqe_addr s) 16"
  shows "\<exists>w'. edu_nvme_process_cmd q cmd (s, w) = Inr (nvme_advance_cq s, w') \<and>
    ram w' = ram_store (ram_store (ram w) (prp1 cmd) (cmd_data s cmd)) (cqe_addr s)
      (cqe_bytes (completion s cmd 0)) \<and>
    readable w' = readable w \<and> writable w' = writable w"
proof -
  let ?w1 = "snd (pci_dma_write q (prp1 cmd) (cmd_data s cmd) w)"
  have "nvme_exec q cmd (s, w) = Inr (0, s, ?w1)"
    using nvme_read_cmd [OF assms(1), of cmd w] assms(2-4) by (simp add: nvme_exec_def)
  then show ?thesis
    using process_ram [of cmd s w 0 s ?w1] assms(4,5) length_cmd_data [OF assms(1,3)]
    by (auto simp: write_ram write_maps)
qed

lemma write_then_read:
  assumes "nvme_wf s" and "opcode c1 = NVME_CMD_WRITE" and "opcode c2 = NVME_CMD_READ"
    and "in_range c1" and "cdw10 c2 = cdw10 c1" and "cdw11 c2 = cdw11 c1" and "cdw12 c2 = cdw12 c1"
    and "n = 512 * nlb_n c1" and "readable w (prp1 c1) n" and "writable w (prp1 c2) n"
    and "writable w (cqe_addr s) 16" and "writable w (cqe_addr (nvme_advance_cq s)) 16"
    and "disjoint_ranges (prp1 c2) n (cqe_addr (nvme_advance_cq s)) 16"
  shows "\<exists>s1 w1 s2 w2. edu_nvme_process_cmd q c1 (s, w) = Inr (s1, w1) \<and>
    edu_nvme_process_cmd q c2 (s1, w1) = Inr (s2, w2) \<and>
    ram_bytes (ram w2) (prp1 c2) n = ram_bytes (ram w) (prp1 c1) n"
proof -
  let ?d = "ram_bytes (ram w) (prp1 c1) n"
  let ?s1 = "nvme_advance_cq (put_data ?d c1 s)"
  have same: "lba_n c2 = lba_n c1" "nlb_n c2 = nlb_n c1" "in_range c2"
    using assms(4-7) by (simp_all add: lba_n_def nlb_n_def cmd_lba_def cmd_nlb_def in_range_def)
  have addr: "cqe_addr ?s1 = cqe_addr (nvme_advance_cq s)"
    by (simp add: cqe_addr_def nvme_advance_cq_def put_data_def Let_def)
  obtain w1 where w1: "edu_nvme_process_cmd q c1 (s, w) = Inr (?s1, w1)" "writable w1 = writable w"
    using process_write [OF assms(1,2,4)] assms(8,9,11) by auto
  have wf: "nvme_wf ?s1"
    using put_data_wf [OF assms(1,4)] assms(8) by (simp add: advance_cq_wf)
  have data: "cmd_data ?s1 c2 = ?d"
    using cmd_data_put_data [OF assms(1,4), of ?d] assms(8) same by (simp add: cmd_data_def)
  obtain w2 where w2: "edu_nvme_process_cmd q c2 (?s1, w1) = Inr (nvme_advance_cq ?s1, w2)"
    "ram w2 = ram_store (ram_store (ram w1) (prp1 c2) ?d) (cqe_addr ?s1)
      (cqe_bytes (completion ?s1 c2 0))"
    using process_read [OF wf assms(3) same(3), of w1] assms(8,10,12) same(2) w1(2) addr data by auto
  have "n \<le> 18446744073709551616" using assms(4,8) by (simp add: in_range_def)
  then have "ram_bytes (ram w2) (prp1 c2) n = ?d"
    using ram_bytes_store_same [of ?d "ram w1" "prp1 c2"] assms(13)
    by (simp add: w2(2) addr ram_bytes_store_disjoint)
  then show ?thesis using w1(1) w2(1) by blast
qed

end

subsection \<open>Properties of the commands\<close>

lemma small_guest_disjoint: "disjoint_ranges 0x400 512 0x1010 16"
  by (simp add: disjoint_ranges_def)

lemma nvme_on_cqe [simp]: "cqe_addr nvme_on = 0x1000" "cqe_addr (nvme_advance_cq nvme_on) = 0x1010"
  by (simp_all add: cqe_addr_def advance_cq_next nvme_cq_next_def word_le_nat_alt)

text \<open>C8. The disk stores: after a WRITE of blocks from one host buffer, a READ of the same blocks
  into another delivers the bytes that were written.\<close>

theorem nvme_write_then_read:
  assumes "dma_bus q ram readable writable"
    and "nvme_wf s" and "opcode c1 = NVME_CMD_WRITE" and "opcode c2 = NVME_CMD_READ"
    and "in_range c1" and "cdw10 c2 = cdw10 c1" and "cdw11 c2 = cdw11 c1" and "cdw12 c2 = cdw12 c1"
    and "n = 512 * nlb_n c1" and "readable w (prp1 c1) n" and "writable w (prp1 c2) n"
    and "writable w (cqe_addr s) 16" and "writable w (cqe_addr (nvme_advance_cq s)) 16"
    and "disjoint_ranges (prp1 c2) n (cqe_addr (nvme_advance_cq s)) 16"
  shows "\<exists>s1 w1 s2 w2. edu_nvme_process_cmd q c1 (s, w) = Inr (s1, w1) \<and>
    edu_nvme_process_cmd q c2 (s1, w1) = Inr (s2, w2) \<and>
    ram_bytes (ram w2) (prp1 c2) n = ram_bytes (ram w) (prp1 c1) n"
  by (rule dma_bus.write_then_read [OF assms])

theorem nvme_write_then_read_witness:
  "\<exists>s1 w1 s2 w2.
     edu_nvme_process_cmd guest_qemu (io_cmd NVME_CMD_WRITE 0x200 5 0) (nvme_on, small_guest) =
       Inr (s1, w1) \<and>
     edu_nvme_process_cmd guest_qemu (io_cmd NVME_CMD_READ 0x400 5 0) (s1, w1) = Inr (s2, w2) \<and>
     ram_bytes (mem w2) (prp1 (io_cmd NVME_CMD_READ 0x400 5 0)) 512 =
     ram_bytes (mem small_guest) (prp1 (io_cmd NVME_CMD_WRITE 0x200 5 0)) 512"
  by (rule nvme_write_then_read [OF guest_bus.dma_bus_axioms])
     (simp_all add: small_guest_mapped small_guest_disjoint in_range_def, simp_all add: io_cmd_def)

text \<open>A WRITE inside the disk replaces exactly the blocks it names by the host's data and
  leaves every other block as it was.\<close>

lemma nvme_write_replaces_blocks:
  assumes "dma_bus q ram readable writable"
    and "nvme_wf s" and "opcode cmd = NVME_CMD_WRITE" and "in_range cmd"
    and "readable w (prp1 cmd) (512 * nlb_n cmd)" and "writable w (cqe_addr s) 16" and "i < 2048"
  shows "\<exists>s' w'. edu_nvme_process_cmd q cmd (s, w) = Inr (s', w') \<and>
    nvme_block s' i =
      (if lba_n cmd \<le> i \<and> i < lba_n cmd + nlb_n cmd
       then ram_bytes (ram w) (prp1 cmd + of_nat (512 * (i - lba_n cmd))) 512
       else nvme_block s i)"
proof -
  let ?d = "ram_bytes (ram w) (prp1 cmd) (512 * nlb_n cmd)"
  obtain w' where run: "edu_nvme_process_cmd q cmd (s, w) = Inr (nvme_advance_cq (put_data ?d cmd s), w')"
    using dma_bus.process_write [OF assms(1-6)] by blast
  have "subarr (512 * (i - lba_n cmd)) 512 ?d =
        ram_bytes (ram w) (prp1 cmd + of_nat (512 * (i - lba_n cmd))) 512"
    if "lba_n cmd \<le> i \<and> i < lba_n cmd + nlb_n cmd"
  proof (rule nth_equalityI)
    have "i - lba_n cmd + 1 \<le> nlb_n cmd" using that by auto
    then have r: "512 * (i - lba_n cmd) + 512 \<le> 512 * nlb_n cmd" by simp
    then show "length (subarr (512 * (i - lba_n cmd)) 512 ?d) =
      length (ram_bytes (ram w) (prp1 cmd + of_nat (512 * (i - lba_n cmd))) 512)" by simp
    fix j assume "j < length (subarr (512 * (i - lba_n cmd)) 512 ?d)"
    then have "j < 512" using r by simp
    then show "subarr (512 * (i - lba_n cmd)) 512 ?d ! j =
      ram_bytes (ram w) (prp1 cmd + of_nat (512 * (i - lba_n cmd))) 512 ! j"
      using r by (simp add: nth_subarr nth_ram_bytes add.assoc)
  qed
  moreover have "nvme_block (nvme_advance_cq t) i = nvme_block t i" for t
    by (simp add: nvme_block_def)
  ultimately show ?thesis
    using run block_put_data [OF assms(2,4), of ?d i] assms(7) by simp
qed

lemma nvme_write_replaces_blocks_example:
  "\<exists>s' w'. edu_nvme_process_cmd guest_qemu (io_cmd NVME_CMD_WRITE 0x200 5 0) (nvme_on, small_guest) =
       Inr (s', w') \<and>
     nvme_block s' 5 =
       (if lba_n (io_cmd NVME_CMD_WRITE 0x200 5 0) \<le> 5 \<and>
           5 < lba_n (io_cmd NVME_CMD_WRITE 0x200 5 0) + nlb_n (io_cmd NVME_CMD_WRITE 0x200 5 0)
        then ram_bytes (mem small_guest) (prp1 (io_cmd NVME_CMD_WRITE 0x200 5 0) +
               of_nat (512 * (5 - lba_n (io_cmd NVME_CMD_WRITE 0x200 5 0)))) 512
        else nvme_block nvme_on 5)"
  by (rule nvme_write_replaces_blocks [OF guest_bus.dma_bus_axioms])
     (simp_all add: small_guest_mapped in_range_def)

text \<open>C20. The range check adds the block address and the count modulo \<open>2^64\<close>: a READ or WRITE whose
  sum wraps around to at most 2048 (\<open>wraps\<close>) passes it and accesses memory before the storage buffer.
  This is the only way a command faults: a sum that wraps to more than 2048 is rejected, and no other
  command has a range.\<close>

theorem nvme_cmd_faults_iff_wraps:
  assumes "dma_bus q ram readable writable" and "nvme_wf s"
  shows "edu_nvme_process_cmd q cmd (s, w) = Inl e \<longleftrightarrow>
         e = Out_Of_Bounds \<and> (opcode cmd = NVME_CMD_READ \<or> opcode cmd = NVME_CMD_WRITE) \<and> wraps cmd"
  by (rule dma_bus.process_cmd_fault [OF assms])

theorem nvme_cmd_faults_iff_wraps_witness:
  "edu_nvme_process_cmd guest_qemu (io_cmd NVME_CMD_READ 0x200 0xFFFFFFFF 0xFFFFFFFF)
     (nvme_on, small_guest) = Inl Out_Of_Bounds"
  using nvme_cmd_faults_iff_wraps [OF guest_bus.dma_bus_axioms nvme_on_wf(1),
      of "io_cmd NVME_CMD_READ 0x200 0xFFFFFFFF 0xFFFFFFFF" small_guest Out_Of_Bounds]
  by (simp add: wraps_def)

text \<open>A READ or WRITE that runs past the end of the disk, without wrapping, transfers nothing:
  the storage is unchanged and the only change of guest memory is the completion entry with
  status 0x8002.\<close>

lemma nvme_rejects_out_of_range:
  assumes "dma_bus q ram readable writable" and "nvme_wf s"
    and "opcode cmd = NVME_CMD_READ \<or> opcode cmd = NVME_CMD_WRITE"
    and "\<not> in_range cmd" and "\<not> wraps cmd" and "writable w (cqe_addr s) 16"
  shows "\<exists>w'. edu_nvme_process_cmd q cmd (s, w) = Inr (nvme_advance_cq s, w') \<and>
    ram w' = ram_store (ram w) (cqe_addr s) (cqe_bytes (completion s cmd 0x8002))"
proof -
  have "nvme_exec q cmd (s, w) = Inr (0x8002, s, w)"
    using dma_bus.nvme_read_cmd [OF assms(1,2), of cmd w] assms(3-5)
      dma_bus.nvme_write_cmd_outside [OF assms(1,2,4), of w]
    by (auto simp: nvme_exec_def)
  then show ?thesis using dma_bus.process_ram [OF assms(1)] assms(6) by blast
qed

lemma nvme_rejects_out_of_range_example:
  "\<exists>w'. edu_nvme_process_cmd guest_qemu (io_cmd NVME_CMD_WRITE 0x200 2048 0) (nvme_on, small_guest) =
       Inr (nvme_advance_cq nvme_on, w') \<and>
     mem w' = ram_store (mem small_guest) (cqe_addr nvme_on)
       (cqe_bytes (completion nvme_on (io_cmd NVME_CMD_WRITE 0x200 2048 0) 0x8002))"
  by (rule nvme_rejects_out_of_range [OF guest_bus.dma_bus_axioms])
     (simp_all add: small_guest_mapped in_range_def wraps_def)

subsection \<open>Properties of the queues\<close>

text \<open>C6. A submission doorbell with a tail inside the queue executes the commands in the slots from
  the head to the new tail, each once and in order (\<open>nvme_run\<close>: fetch, execute, complete,
  advance), and returns.\<close>

theorem nvme_doorbell_executes_slots:
  assumes "s' = s\<lparr>sq_tail := ucast val\<rparr>" and "sq_head s < nvme_sq_size s"
    and "sq_tail s' < nvme_sq_size s"
  shows "edu_nvme_write q NVME_SQ0TDBL val sz (s, w) =
         Some (nvme_run q (nvme_sq_size s) (nvme_pending s') (uninit q 64 w, s', w))"
  by (rule nvme_doorbell_runs [OF assms])

theorem nvme_doorbell_executes_slots_witness:
  "edu_nvme_write guest_qemu NVME_SQ0TDBL 3 4 (nvme_on, small_guest) =
   Some (nvme_run guest_qemu (nvme_sq_size nvme_on) (nvme_pending (nvme_on\<lparr>sq_tail := 3\<rparr>))
     (uninit guest_qemu 64 small_guest, nvme_on\<lparr>sq_tail := 3\<rparr>, small_guest))"
  by (rule nvme_doorbell_executes_slots) simp_all



text \<open>C17. A doorbell returns, with a result or a fault, whenever the tail it sets lies inside the
  submission queue, wherever the head was.\<close>

theorem nvme_doorbell_terminates:
  assumes "(ucast val :: u16) < nvme_sq_size s"
  shows "\<exists>r. edu_nvme_write q NVME_SQ0TDBL val sz (s, w) = Some r"
  using sq_loop_returns [of "s\<lparr>sq_tail := ucast val\<rparr>" "nvme_sq_size s" q "uninit q 64 w" w] assms
  by (simp add: edu_nvme_write_def edu_nvme_process_sq_def nvme_sq_size_def)

theorem nvme_doorbell_terminates_witness:
  "\<exists>r. edu_nvme_write guest_qemu NVME_SQ0TDBL 2 4 (nvme_on\<lparr>sq_head := 77\<rparr>, small_guest) = Some r"
  by (rule nvme_doorbell_terminates) (simp add: nvme_on_def nvme_sq_size_def)

text \<open>C19. A doorbell with a tail outside the submission queue never returns normally, unless the head
  is there already (it can be, after the queue was made smaller): the head cycles through the queue
  and never meets the tail, so the write loops for ever, or until a command faults.\<close>

theorem nvme_doorbell_outside_never_returns:
  assumes "nvme_sq_size s \<le> ucast val" and "sq_head s \<noteq> ucast val"
  shows "edu_nvme_write q NVME_SQ0TDBL val sz (s, w) = None \<or>
    (\<exists>e. edu_nvme_write q NVME_SQ0TDBL val sz (s, w) = Some (Inl e))"
proof -
  let ?s = "s\<lparr>sq_tail := ucast val\<rparr>"
  have eq: "edu_nvme_write q NVME_SQ0TDBL val sz (s, w) =
      nvme_sq_loop q (nvme_sq_size s) (uninit q 64 w, ?s, w)"
    by (simp add: edu_nvme_write_def edu_nvme_process_sq_def nvme_sq_size_def)
  have "nvme_sq_loop q (nvme_sq_size s) (uninit q 64 w, ?s, w) \<noteq> Some (Inr sw')" for sw'
    using sq_loop_result [OF _ nvme_sq_size_bounds(1), of q s "(uninit q 64 w, ?s, w)" "Inr sw'" sw'] assms
    by (auto simp: not_le [symmetric])
  then show ?thesis unfolding eq by (metis not_None_eq sum.exhaust)
qed

text \<open>A guest whose submission queue of four entries lies at an address the IOMMU does not map: every
  fetch gives zeros, an unknown command, so no command faults and the write of 9 never ends.\<close>

definition endless :: "byte list \<times> EduNvmeState \<times> guest \<Rightarrow> bool" where
  "endless csw \<longleftrightarrow> (case csw of (c, s, w) \<Rightarrow> length c = 64 \<and> asq s = 0xFFFF0000 \<and> sq_head s < 4 \<and>
     sq_tail s = 9 \<and> mapped w = mapped small_guest)"

lemma endless_step:
  assumes "endless csw"
  shows "\<exists>csw'. nvme_sq_step guest_qemu 4 csw = Inr csw' \<and> endless csw'"
proof -
  obtain c s w where csw: "csw = (c, s, w)" by (cases csw)
  have s: "length c = 64" "asq s = 0xFFFF0000" "sq_head s < 4" "sq_tail s = 9" "mapped w = mapped small_guest"
    using assms by (simp_all add: endless_def csw)
  let ?c = "cmd_of_bytes (replicate 64 0)"
  have "sq_head s \<in> {0, 1, 2, 3}"
  proof -
    have "unat (sq_head s) < 4" using s(3) by (simp add: word_less_nat_alt)
    then have "unat (sq_head s) = 0 \<or> unat (sq_head s) = 1 \<or> unat (sq_head s) = 2 \<or> unat (sq_head s) = 3"
      by linarith
    then show ?thesis by (auto simp: word_eq_iff_unsigned [where ?'a = nat])
  qed
  then have fetch: "pci_dma_read guest_qemu (asq s + ucast (sq_head s) * 64) c w = (2, replicate 64 0, w)"
    using s(1) by (elim insertE emptyE) (simp_all add: s(2,5) small_guest_mapped)
  have exec: "nvme_exec guest_qemu ?c (s, w) = Inr (1, s, w)"
    by (simp add: nvme_exec_def cmd_of_bytes_def subarr_def)
  obtain w2 where cmd: "edu_nvme_process_cmd guest_qemu ?c (s, w) = Inr (nvme_advance_cq s, w2)"
    and w2: "mapped w2 = mapped small_guest"
    using s(5) guest_bus.write_maps(1) [of _ _ w] by (simp add: process_cmd_exec exec Let_def del: guest_qemu_simps(2))
  have "nvme_sq_next 4 (sq_head s) < 4"
    by (auto simp: nvme_sq_next_def Let_def not_le)
  moreover have "nvme_sq_step guest_qemu 4 csw =
      Inr (replicate 64 0, (nvme_advance_cq s)\<lparr>sq_head := nvme_sq_next 4 (sq_head s)\<rparr>, w2)"
    using cmd by (simp only: csw nvme_sq_step_def Let_def prod.case fetch) simp
  ultimately show ?thesis using s(2,4) w2 by (simp add: endless_def)
qed

theorem nvme_doorbell_outside_never_returns_witness:
  "edu_nvme_write guest_qemu NVME_SQ0TDBL 9 4 (nvme_on\<lparr>asq := 0xFFFF0000\<rparr>, small_guest) = None"
proof -
  let ?s = "nvme_on\<lparr>asq := 0xFFFF0000\<rparr>"
  have z: "nvme_sq_size ?s = 4" by (simp add: nvme_sq_size_def)
  have "nvme_sq_loop guest_qemu 4 (replicate 64 0xCC, ?s\<lparr>sq_tail := 9\<rparr>, small_guest) = None"
  proof (rule sq_loop_diverges [where P = endless])
    fix csw assume "endless csw"
    then show "sq_head (fst (snd csw)) \<noteq> sq_tail (fst (snd csw)) \<and>
        (\<exists>csw'. nvme_sq_step guest_qemu 4 csw = Inr csw' \<and> endless csw')"
      using endless_step [of csw] by (auto simp: endless_def)
  qed (simp add: endless_def)
  then have "edu_nvme_write guest_qemu NVME_SQ0TDBL 9 4 (?s, small_guest) \<noteq> Some (Inl e)" for e
    by (simp add: edu_nvme_write_def edu_nvme_process_sq_def z nvme_sq_size_def)
  then show ?thesis
    using nvme_doorbell_outside_never_returns [of ?s 9 guest_qemu 4 small_guest] by (simp add: z)
qed

subsection \<open>Registers\<close>

text \<open>A driver's register writes, none of which is a doorbell: they return.\<close>

fun nvme_writes ::
  "'w qemu \<Rightarrow> (u64 \<times> u64) list \<Rightarrow> EduNvmeState \<times> 'w \<Rightarrow> ((EduNvmeState \<times> 'w) res) option" where
  "nvme_writes q [] sw = Some (Inr sw)"
| "nvme_writes q ((a, v) # ws) sw =
     (case edu_nvme_write q a v 4 sw of
        None \<Rightarrow> None
      | Some (Inl e) \<Rightarrow> Some (Inl e)
      | Some (Inr sw') \<Rightarrow> nvme_writes q ws sw')"

definition nvme_init_program :: "u32 \<Rightarrow> u64 \<Rightarrow> u64 \<Rightarrow> (u64 \<times> u64) list" where
  "nvme_init_program a sqb cqb =
     [(NVME_CC, 0), (NVME_AQA, ucast a), (NVME_ASQ, get_lo sqb), (NVME_ASQ + 4, get_hi sqb),
      (NVME_ACQ, get_lo cqb), (NVME_ACQ + 4, get_hi cqb), (NVME_CC, 1)]"

text \<open>The initialisation sequence of the drivers (disable, queue sizes and bases, enable) from
  any state makes the controller ready with both queues empty at their bases, the completion
  counter at 0 and the storage untouched.\<close>

lemma nvme_init_makes_ready:
  "\<exists>s'. nvme_writes q (nvme_init_program a sqb cqb) (s, w) = Some (Inr (s', w)) \<and>
     edu_nvme_read NVME_CSTS 4 s' AND 1 = 1 \<and> aqa s' = a \<and> asq s' = sqb \<and> acq s' = cqb \<and>
     sq_head s' = 0 \<and> sq_tail s' = 0 \<and> cq_at s' 0 \<and> storage s' = storage s"
proof -
  have a: "(ucast (ucast a :: u64) :: u32) = a" by (rule bit_word_eqI) (simp add: bit_simps)
  have rdy: "(ucast (c OR 1 :: u32) :: u64) AND 1 = 1" for c
    by (rule bit_word_eqI) (auto simp: bit_simps)
  show ?thesis
    by (simp add: nvme_init_program_def edu_nvme_write_def edu_nvme_read_def set_hi_set_lo_halves a
        rdy cq_at_def)
qed

text \<open>C33. A failed fetch of a command is not noticed: when the IOMMU does not map the slot, a doorbell of
  one command executes, and completes like any other, whatever 64 bytes the failed read left in the local
  variable, and moves the head past the slot.\<close>

theorem nvme_executes_failed_fetch:
  assumes "dma_bus q ram readable writable"
    and "\<not> readable w (asq s + ucast (sq_head s) * 64) 64"
    and "sq_head s < nvme_sq_size s" and "ucast val = nvme_sq_next (nvme_sq_size s) (sq_head s)"
    and "sq_head s \<noteq> ucast val"
  shows "\<exists>r b. pci_dma_read q (asq s + ucast (sq_head s) * 64) (uninit q 64 w) w = (r, b, w) \<and>
    r \<noteq> MEMTX_OK \<and> length b = 64 \<and>
    edu_nvme_write q NVME_SQ0TDBL val sz (s, w) =
      Some (res_bind (edu_nvme_process_cmd q (cmd_of_bytes b) (s\<lparr>sq_tail := ucast val\<rparr>, w))
        (\<lambda>(s1, w1). Inr (s1\<lparr>sq_head := ucast val\<rparr>, w1)))"
proof -
  let ?s = "s\<lparr>sq_tail := ucast val\<rparr>" and ?z = "nvme_sq_size s"
  have len: "length (uninit q 64 w) = 64" using dma_bus.uninit_length [OF assms(1)] .
  obtain r b where rd: "pci_dma_read q (asq s + ucast (sq_head s) * 64) (uninit q 64 w) w = (r, b, w)"
    "r \<noteq> MEMTX_OK" "length b = 64"
    using dma_bus.read_failed [OF assms(1), of w _ "uninit q 64 w"] assms(2) len by metis
  have step: "nvme_sq_step q ?z (uninit q 64 w, ?s, w) =
      res_bind (edu_nvme_process_cmd q (cmd_of_bytes b) (?s, w))
        (\<lambda>(s1, w1). Inr (b, s1\<lparr>sq_head := ucast val\<rparr>, w1))"
    using process_cmd_frame(1) [of q "cmd_of_bytes b" ?s w] assms(4) rd(1)
    by (cases "edu_nvme_process_cmd q (cmd_of_bytes b) (?s, w)") (auto simp: nvme_sq_step_def)
  show ?thesis
    using rd step nvme_doorbell_one [OF assms(3-5), of q sz w]
    by (cases "edu_nvme_process_cmd q (cmd_of_bytes b) (?s, w)") auto
qed

theorem nvme_executes_failed_fetch_witness:
  "\<exists>r b. pci_dma_read guest_qemu 0xFFFF0000 (replicate 64 0xCC) small_guest = (r, b, small_guest) \<and>
     r \<noteq> MEMTX_OK \<and> length b = 64 \<and>
     edu_nvme_write guest_qemu NVME_SQ0TDBL 1 4 (nvme_on\<lparr>asq := 0xFFFF0000\<rparr>, small_guest) =
       Some (res_bind (edu_nvme_process_cmd guest_qemu (cmd_of_bytes b)
           (nvme_on\<lparr>asq := 0xFFFF0000, sq_tail := 1\<rparr>, small_guest))
         (\<lambda>(s1, w1). Inr (s1\<lparr>sq_head := 1\<rparr>, w1)))"
  using nvme_executes_failed_fetch [OF guest_bus.dma_bus_axioms, of small_guest "nvme_on\<lparr>asq := 0xFFFF0000\<rparr>" 1 4]
  by (simp add: small_guest_mapped nvme_sq_size_def nvme_sq_next_def word_le_nat_alt)

text \<open>The controller never looks at the completion head: a command behaves the same whatever the
  host has acknowledged, so a full completion queue is overwritten.\<close>

lemma nvme_ignores_completion_head:
  "edu_nvme_process_cmd q cmd (s\<lparr>cq_head := h\<rparr>, w) =
   res_bind (edu_nvme_process_cmd q cmd (s, w)) (\<lambda>(s', w'). Inr (s'\<lparr>cq_head := h\<rparr>, w'))"
  by (simp add: edu_nvme_process_cmd_def nvme_cmd_identify_def nvme_cmd_read_def nvme_cmd_write_def
      nvme_complete_def nvme_advance_cq_def storage_ok_def Let_def case_prod_beta)

end
