(* ===== verification/Nvme_System.thy ===== *)
theory Nvme_System
  imports Nvme_Engine
begin

text \<open>
  The NVMe controller as a machine: a guest writes any register in any order while its memory
  changes between the writes. The storage and the phase bit stay well-formed, and from every
  reachable state the initialisation sequence and a command work.
\<close>

subsection \<open>Steps\<close>

text \<open>A write that faults or does not return has no successor state.\<close>

inductive nvme_step ::
  "'w qemu \<Rightarrow> ('w \<Rightarrow> 'w \<Rightarrow> bool) \<Rightarrow> EduNvmeState \<times> 'w \<Rightarrow> EduNvmeState \<times> 'w \<Rightarrow> bool"
  for q E where
  bar0: "edu_nvme_write q addr val 4 sw = Some (Inr sw') \<Longrightarrow> nvme_step q E sw sw'"
| env: "E w w' \<Longrightarrow> nvme_step q E (s, w) (s, w')"

text \<open>What one iteration of the submission loop preserves, the loop preserves.\<close>

lemma sq_loop_preserves:
  assumes "nvme_sq_loop q sz csw = Some (Inr sw')" and "P (snd csw)"
    and "\<And>t t'. nvme_sq_step q sz t = Inr t' \<Longrightarrow> P (snd t) \<Longrightarrow> P (snd t')"
  shows "P sw'"
proof -
  obtain r where ret: "nvme_sq_loop q sz csw = Some r" and r: "r = Inr sw'" using assms(1) by simp
  let ?Q = "\<lambda>q sz csw r. (\<forall>t t'. nvme_sq_step q sz t = Inr t' \<longrightarrow> P (snd t) \<longrightarrow> P (snd t')) \<longrightarrow>
      P (snd csw) \<longrightarrow> (\<forall>sw'. r = Inr sw' \<longrightarrow> P sw')"
  have "?Q q sz csw r"
  proof (rule nvme_sq_loop.raw_induct [where P = "\<lambda>q sz csw r.
        (\<forall>t t'. nvme_sq_step q sz t = Inr t' \<longrightarrow> P (snd t) \<longrightarrow> P (snd t')) \<longrightarrow>
        P (snd csw) \<longrightarrow> (\<forall>sw'. r = Inr sw' \<longrightarrow> P sw')", OF _ ret])
    fix f :: "'a qemu \<Rightarrow> u16 \<Rightarrow> byte list \<times> EduNvmeState \<times> 'a \<Rightarrow> ((EduNvmeState \<times> 'a) res) option"
      and q sz csw r
    assume IH: "\<And>q sz csw r. f q sz csw = Some r \<Longrightarrow> ?Q q sz csw r"
      and eq: "(if sq_head (fst (snd csw)) \<noteq> sq_tail (fst (snd csw)) then
          (case nvme_sq_step q sz csw of Inl e \<Rightarrow> Some (Inl e) | Inr csw' \<Rightarrow> f q sz csw')
        else Some (Inr (snd csw))) = Some r"
    show "?Q q sz csw r"
    proof (cases "sq_head (fst (snd csw)) \<noteq> sq_tail (fst (snd csw))")
      case False
      then show ?thesis using eq by auto
    next
      case True
      show ?thesis
      proof (cases "nvme_sq_step q sz csw")
        case (Inl e)
        then show ?thesis using eq True by auto
      next
        case (Inr t)
        then have "f q sz t = Some r" using eq True by simp
        from IH [OF this] show ?thesis using Inr by blast
      qed
    qed
  qed
  then show ?thesis using assms(2,3) r by blast
qed

context dma_bus
begin

lemma sq_step_wf:
  assumes "nvme_sq_step q sz t = Inr t'" and "nvme_wf (fst (snd t))"
  shows "nvme_wf (fst (snd t'))"
proof -
  obtain c s w where t: "t = (c, s, w)" by (cases t)
  obtain b w0 s1 w1 where cmd: "edu_nvme_process_cmd q (cmd_of_bytes b) (s, w0) = Inr (s1, w1)"
    and t': "snd t' = (s1\<lparr>sq_head := nvme_sq_next sz (sq_head s1)\<rparr>, w1)"
    using assms(1) by (auto simp: t nvme_sq_step_def Let_def res_bind_Inr_iff split: prod.splits)
  have "nvme_wf s1" using process_cmd_wf [OF _ cmd] assms(2) by (simp add: t)
  then show ?thesis by (simp add: t' nvme_wf_def)
qed

lemma nvme_write_wf:
  assumes "edu_nvme_write q addr val sz sw = Some (Inr sw')" and "nvme_wf (fst sw)"
  shows "nvme_wf (fst sw')"
proof (cases "addr = NVME_SQ0TDBL")
  case True
  let ?s = "(fst sw)\<lparr>sq_tail := ucast val\<rparr>"
  have "nvme_sq_loop q (nvme_sq_size ?s) (uninit q 64 (snd sw), ?s, snd sw) = Some (Inr sw')"
    using assms(1) True by (simp add: edu_nvme_write_def edu_nvme_process_sq_def case_prod_beta)
  moreover have "nvme_wf ?s" using assms(2) by (simp add: nvme_wf_def)
  ultimately show ?thesis
    using sq_loop_preserves [where P = "\<lambda>sw. nvme_wf (fst sw)"] sq_step_wf by (metis fst_conv snd_conv)
next
  case False
  then show ?thesis
    using assms by (auto simp: edu_nvme_write_def nvme_wf_def Let_def case_prod_beta split: if_splits)
qed

end

sublocale dma_bus \<subseteq> nvme_machine: stepper "nvme_step q E" "\<lambda>sw. nvme_wf (fst sw)" for E
  by unfold_locales (auto elim!: nvme_step.cases intro: nvme_write_wf)

context dma_bus
begin

lemma nvme_reachable_wf:
  assumes "(nvme_step q E)\<^sup>*\<^sup>* (edu_nvme_realized, w0) (s, w)"
  shows "nvme_wf s"
  using nvme_machine.run_good [OF assms] by simp

end

subsection \<open>One command from its slot in memory\<close>

text \<open>Where the controller fetches its next command, and its state after one completion with the
  tail at \<open>t\<close>.\<close>

definition sq_addr :: "EduNvmeState \<Rightarrow> u64" where
  "sq_addr s = asq s + ucast (sq_head s) * 64"

definition nvme_done :: "u16 \<Rightarrow> EduNvmeState \<Rightarrow> EduNvmeState" where
  "nvme_done t s = (nvme_advance_cq s)\<lparr>sq_tail := t, sq_head := t\<rparr>"

text \<open>The next command is \<open>cmd\<close>, and the queue has room for it.\<close>

definition nvme_next_is ::
  "('w \<Rightarrow> u64 \<Rightarrow> byte) \<Rightarrow> ('w \<Rightarrow> u64 \<Rightarrow> nat \<Rightarrow> bool) \<Rightarrow> NvmeCmd \<Rightarrow> EduNvmeState \<Rightarrow> 'w \<Rightarrow> bool" where
  "nvme_next_is ram readable cmd s w \<longleftrightarrow> sq_head s < nvme_sq_size s \<and> nvme_sq_size s \<noteq> 1 \<and>
     readable w (sq_addr s) 64 \<and> ram_bytes (ram w) (sq_addr s) 64 = cmd_bytes cmd"

definition sq_after :: "EduNvmeState \<Rightarrow> u16" where
  "sq_after s = nvme_sq_next (nvme_sq_size s) (sq_head s)"

lemma sq_after_moves:
  assumes "sq_head s < nvme_sq_size s" and "nvme_sq_size s \<noteq> 1"
  shows "sq_head s \<noteq> sq_after s" "sq_after s < nvme_sq_size s"
proof -
  have h: "unat (sq_head s) < unat (nvme_sq_size s)" using assms(1) by (simp add: word_less_nat_alt)
  have n: "unat (sq_after s) =
      (if unat (sq_head s) + 1 = unat (nvme_sq_size s) then 0 else unat (sq_head s) + 1)"
    unfolding sq_after_def by (rule sq.pos_nxt [OF h])
  have one: "unat (nvme_sq_size s) \<noteq> 1"
  proof
    assume "unat (nvme_sq_size s) = 1"
    then have "nvme_sq_size s = 1" by (simp only: word_eq_iff_unsigned [where ?'a = nat]) simp
    then show False using assms(2) by simp
  qed
  have "unat (sq_after s) \<noteq> unat (sq_head s)" using n h one by (simp split: if_splits)
  then show "sq_head s \<noteq> sq_after s" by (rule contrapos_nn) simp
  have "unat (sq_after s) < unat (nvme_sq_size s)" using n h by (simp split: if_splits)
  then show "sq_after s < nvme_sq_size s" by (simp only: word_less_nat_alt)
qed

lemma ucast_u16_u64: "(ucast (ucast x :: u64) :: u16) = x"
  by (rule bit_word_eqI) (simp add: bit_simps)

context dma_bus
begin

lemma doorbell_cmd:
  assumes "nvme_next_is ram readable cmd s w" and "t = sq_after s"
    and "edu_nvme_process_cmd q cmd (s\<lparr>sq_tail := t\<rparr>, w) = Inr (s1, w1)"
  shows "edu_nvme_write q NVME_SQ0TDBL (ucast t) sz (s, w) = Some (Inr (s1\<lparr>sq_head := t\<rparr>, w1))"
proof -
  have "pci_dma_read q (sq_addr s) (uninit q 64 w) w = (MEMTX_OK, cmd_bytes cmd, w)"
    using assms(1) read_mapped [of w "sq_addr s" "uninit q 64 w"]
    by (simp add: nvme_next_is_def uninit_length)
  then have step: "nvme_sq_step q (nvme_sq_size s) (uninit q 64 w, s\<lparr>sq_tail := t\<rparr>, w) =
      Inr (cmd_bytes cmd, s1\<lparr>sq_head := t\<rparr>, w1)"
    using assms(2,3) process_cmd_frame(1) [OF assms(3)]
    by (simp add: nvme_sq_step_def sq_addr_def sq_after_def)
  have h: "sq_head s < nvme_sq_size s" "sq_head s \<noteq> t"
    using assms(1,2) sq_after_moves [of s] by (simp_all add: nvme_next_is_def)
  show ?thesis
    by (rule nvme_doorbell_single [where c = "cmd_bytes cmd", OF h(1)])
       (simp_all only: ucast_u16_u64 step h(2) not_False_eq_True, simp add: assms(2) sq_after_def)
qed

text \<open>READ and WRITE through the doorbell.\<close>

lemma doorbell_write:
  assumes "nvme_next_is ram readable cmd s w" and "nvme_wf s" and "opcode cmd = NVME_CMD_WRITE"
    and "in_range cmd" and "n = 512 * nlb_n cmd" and "readable w (prp1 cmd) n"
    and "writable w (cqe_addr s) 16"
  shows "\<exists>w'. edu_nvme_write q NVME_SQ0TDBL (ucast (sq_after s)) sz (s, w) =
      Some (Inr (nvme_done (sq_after s) (put_data (ram_bytes (ram w) (prp1 cmd) n) cmd s), w')) \<and>
    ram w' = ram_store (ram w) (cqe_addr s) (cqe_bytes (completion s cmd 0)) \<and>
    readable w' = readable w \<and> writable w' = writable w"
proof -
  let ?s = "s\<lparr>sq_tail := sq_after s\<rparr>"
  have wf: "nvme_wf ?s" and same: "cqe_addr ?s = cqe_addr s" "completion ?s cmd 0 = completion s cmd 0"
    using assms(2) by (simp_all add: nvme_wf_def cqe_addr_def completion_def)
  obtain w' where w': "edu_nvme_process_cmd q cmd (?s, w) =
      Inr (nvme_advance_cq (put_data (ram_bytes (ram w) (prp1 cmd) n) cmd ?s), w')"
    "ram w' = ram_store (ram w) (cqe_addr s) (cqe_bytes (completion s cmd 0))"
    "readable w' = readable w" "writable w' = writable w"
    using process_write [OF wf assms(3,4), of w] assms(5-7) same by auto
  have "(nvme_advance_cq (put_data d cmd ?s))\<lparr>sq_head := sq_after s\<rparr> =
      nvme_done (sq_after s) (put_data d cmd s)" for d
    by (simp add: nvme_done_def nvme_advance_cq_def put_data_def Let_def)
  then show ?thesis using doorbell_cmd [OF assms(1) refl w'(1)] w'(2-4) by simp
qed

lemma doorbell_read:
  assumes "nvme_next_is ram readable cmd s w" and "nvme_wf s" and "opcode cmd = NVME_CMD_READ"
    and "in_range cmd" and "n = 512 * nlb_n cmd" and "writable w (prp1 cmd) n"
    and "writable w (cqe_addr s) 16"
  shows "\<exists>w'. edu_nvme_write q NVME_SQ0TDBL (ucast (sq_after s)) sz (s, w) =
      Some (Inr (nvme_done (sq_after s) s, w')) \<and>
    ram w' = ram_store (ram_store (ram w) (prp1 cmd) (cmd_data s cmd)) (cqe_addr s)
      (cqe_bytes (completion s cmd 0)) \<and>
    readable w' = readable w \<and> writable w' = writable w"
proof -
  let ?s = "s\<lparr>sq_tail := sq_after s\<rparr>"
  have wf: "nvme_wf ?s" and same: "cqe_addr ?s = cqe_addr s" "completion ?s cmd 0 = completion s cmd 0"
    "cmd_data ?s cmd = cmd_data s cmd"
    using assms(2) by (simp_all add: nvme_wf_def cqe_addr_def completion_def cmd_data_def)
  obtain w' where w': "edu_nvme_process_cmd q cmd (?s, w) = Inr (nvme_advance_cq ?s, w')"
    "ram w' = ram_store (ram_store (ram w) (prp1 cmd) (cmd_data s cmd)) (cqe_addr s)
      (cqe_bytes (completion s cmd 0))" "readable w' = readable w" "writable w' = writable w"
    using process_read [OF wf assms(3,4), of w] assms(5-7) same by auto
  have "(nvme_advance_cq ?s)\<lparr>sq_head := sq_after s\<rparr> = nvme_done (sq_after s) s"
    by (simp add: nvme_done_def nvme_advance_cq_def Let_def)
  then show ?thesis using doorbell_cmd [OF assms(1) refl w'(1)] w'(2-4) by simp
qed

end

subsection \<open>From any state to a working controller\<close>

lemma nvme_writes_append:
  "nvme_writes q xs sw = Some (Inr sw1) \<Longrightarrow> nvme_writes q (xs @ ys) sw = nvme_writes q ys sw1"
  by (induction xs arbitrary: sw) (auto split: option.splits sum.splits)

definition nvme_inited :: "u32 \<Rightarrow> u64 \<Rightarrow> u64 \<Rightarrow> EduNvmeState \<Rightarrow> EduNvmeState" where
  "nvme_inited a sqb cqb s = s\<lparr>cc := 1, csts := (csts s AND NOT 1) OR 1, aqa := a, asq := sqb,
     acq := cqb, sq_tail := 0, sq_head := 0, cq_tail := 0, cq_head := 0, cq_phase := 1\<rparr>"

lemma nvme_inited_simps [simp]:
  "sq_head (nvme_inited a sqb cqb s) = 0" "storage (nvme_inited a sqb cqb s) = storage s"
  "sq_addr (nvme_inited a sqb cqb s) = sqb" "cqe_addr (nvme_inited a sqb cqb s) = cqb"
  "nvme_sq_size (nvme_inited a sqb cqb s) = ucast ((a AND 0xFFF) + 1)"
  "nvme_wf s \<Longrightarrow> nvme_wf (nvme_inited a sqb cqb s)"
  by (simp_all add: nvme_inited_def sq_addr_def cqe_addr_def nvme_sq_size_def nvme_wf_def)

lemma nvme_init_runs:
  "nvme_writes q (nvme_init_program a sqb cqb) (s, w) = Some (Inr (nvme_inited a sqb cqb s, w))"
proof -
  have "(ucast (ucast a :: u64) :: u32) = a" by (rule bit_word_eqI) (simp add: bit_simps)
  then show ?thesis
    by (simp add: nvme_init_program_def edu_nvme_write_def set_hi_set_lo_halves nvme_inited_def)
qed

lemma queue_of_two:
  fixes a :: u32
  assumes "a AND 0xFFF \<noteq> 0"
  shows "1 < (ucast ((a AND 0xFFF) + 1) :: u16)"
proof -
  have m: "(0xFFF :: u32) = mask 12" by (simp add: mask_eq_exp_minus_1)
  have "unat (a AND 0xFFF) < 4096"
    unfolding m take_bit_eq_mask [symmetric]
    by (simp add: unsigned_take_bit_eq take_bit_nat_less_exp [of 12, simplified])
  moreover have "0 < unat (a AND 0xFFF)" using assms by (simp add: unat_gt_0)
  ultimately show ?thesis
    by (simp add: word_less_nat_alt unat_word_ariths unsigned_ucast_eq take_bit_nat_eq_self)
qed

context dma_bus
begin

lemma init_then_write:
  assumes "nvme_wf s" and "a AND 0xFFF \<noteq> 0"
    and "readable w sqb 64" and "ram_bytes (ram w) sqb 64 = cmd_bytes cmd"
    and "opcode cmd = NVME_CMD_WRITE" and "in_range cmd" and "n = 512 * nlb_n cmd"
    and "readable w (prp1 cmd) n" and "writable w cqb 16"
  shows "\<exists>s' w'. nvme_writes q (nvme_init_program a sqb cqb @ [(NVME_SQ0TDBL, 1)]) (s, w) =
      Some (Inr (s', w')) \<and>
    cmd_data s' cmd = ram_bytes (ram w) (prp1 cmd) n \<and>
    ram w' = ram_store (ram w) cqb (cqe_bytes \<lparr>cqe_result = 0, cqe_rsvd = 0, cqe_sq_head = 0,
      cqe_sq_id = 0, cqe_cid = cmd_cid cmd, cqe_status = 0x100\<rparr>)"
proof -
  let ?s = "nvme_inited a sqb cqb s"
  let ?d = "ram_bytes (ram w) (prp1 cmd) n"
  have size: "1 < nvme_sq_size ?s" using queue_of_two [OF assms(2)] by simp
  then have after: "sq_after ?s = 1" "0 < nvme_sq_size ?s" "nvme_sq_size ?s \<noteq> 1"
    by (auto simp: sq_after_def nvme_sq_next_def not_le intro: less_trans [of 0 1])
  have "nvme_next_is ram readable cmd ?s w"
    using assms(3,4) after by (simp add: nvme_next_is_def del: nvme_inited_simps(5))
  moreover have wf: "nvme_wf ?s" using assms(1) by simp
  ultimately obtain w' where w': "edu_nvme_write q NVME_SQ0TDBL 1 4 (?s, w) =
      Some (Inr (nvme_done 1 (put_data ?d cmd ?s), w'))"
    "ram w' = ram_store (ram w) cqb (cqe_bytes (completion ?s cmd 0))"
    using doorbell_write [of cmd ?s w n 4] assms(5-9) after(1) by auto
  have "completion ?s cmd 0 = \<lparr>cqe_result = 0, cqe_rsvd = 0, cqe_sq_head = 0, cqe_sq_id = 0,
      cqe_cid = cmd_cid cmd, cqe_status = 0x100\<rparr>"
    by (simp add: completion_def nvme_inited_def)
  moreover have "cmd_data (nvme_done 1 (put_data ?d cmd ?s)) cmd = ?d"
    using cmd_data_put_data [OF wf assms(6), of ?d] assms(7) by (simp add: cmd_data_def nvme_done_def)
  ultimately show ?thesis
    using w' by (simp add: nvme_writes_append [OF nvme_init_runs])
qed

end

subsection \<open>Properties\<close>

text \<open>C7. No history wedges the controller: from every state that any register writes (those that
  returned) and any changes of guest memory lead to, the initialisation sequence followed by a
  doorbell executes the WRITE command the host put into slot 0: the disk holds the host's data and
  the completion entry, with success and the phase bit set, is in the completion queue.\<close>

theorem nvme_serves_after_any_history:
  assumes "dma_bus q ram readable writable"
    and "(nvme_step q E)\<^sup>*\<^sup>* (edu_nvme_realized, w0) (s, w)" and "a AND 0xFFF \<noteq> 0"
    and "readable w sqb 64" and "ram_bytes (ram w) sqb 64 = cmd_bytes cmd"
    and "opcode cmd = NVME_CMD_WRITE" and "in_range cmd" and "n = 512 * nlb_n cmd"
    and "readable w (prp1 cmd) n" and "writable w cqb 16"
  shows "\<exists>s' w'. nvme_writes q (nvme_init_program a sqb cqb @ [(NVME_SQ0TDBL, 1)]) (s, w) =
      Some (Inr (s', w')) \<and>
    cmd_data s' cmd = ram_bytes (ram w) (prp1 cmd) n \<and>
    ram w' = ram_store (ram w) cqb (cqe_bytes \<lparr>cqe_result = 0, cqe_rsvd = 0, cqe_sq_head = 0,
      cqe_sq_id = 0, cqe_cid = cmd_cid cmd, cqe_status = 0x100\<rparr>)"
proof -
  have "nvme_wf s"
    by (rule dma_bus.nvme_reachable_wf [OF assms(1,2)])
  then show ?thesis by (rule dma_bus.init_then_write [OF assms(1) _ assms(3-10)])
qed

text \<open>A guest whose memory holds a WRITE of block 5 in the slot at 0x800, and a history: an enabled
  controller with a tail that was never valid, and the environment moving memory.\<close>

definition slot_guest :: guest where
  "slot_guest = small_guest\<lparr>mem := ram_store (mem small_guest) 0x800
     (cmd_bytes (io_cmd NVME_CMD_WRITE 0x200 5 0))\<rparr>"

definition nvme_past :: EduNvmeState where
  "nvme_past = edu_nvme_realized\<lparr>aqa := 0x00030003, cq_head := 9\<rparr>"

lemma nvme_past_reachable:
  "(nvme_step guest_qemu (\<lambda>_ _. True))\<^sup>*\<^sup>* (edu_nvme_realized, small_guest) (nvme_past, slot_guest)"
proof -
  let ?E = "\<lambda>_ _. True" and ?s1 = "edu_nvme_realized\<lparr>aqa := 0x00030003\<rparr>"
  have "nvme_step guest_qemu ?E (edu_nvme_realized, small_guest) (?s1, small_guest)"
    by (rule nvme_step.bar0 [where addr = NVME_AQA and val = "0x00030003"]) (simp add: edu_nvme_write_def)
  moreover have "nvme_step guest_qemu ?E (?s1, small_guest) (nvme_past, small_guest)"
    by (rule nvme_step.bar0 [where addr = NVME_CQ0HDBL and val = 9])
       (simp add: edu_nvme_write_def nvme_past_def)
  moreover have "nvme_step guest_qemu ?E (nvme_past, small_guest) (nvme_past, slot_guest)"
    by (rule nvme_step.env) simp
  ultimately show ?thesis by (meson rtranclp.rtrancl_into_rtrancl rtranclp.rtrancl_refl)
qed

theorem nvme_serves_after_any_history_witness:
  "\<exists>s' w'. nvme_writes guest_qemu (nvme_init_program 0x00030003 0x800 0x1000 @ [(NVME_SQ0TDBL, 1)])
       (nvme_past, slot_guest) = Some (Inr (s', w')) \<and>
     cmd_data s' (io_cmd NVME_CMD_WRITE 0x200 5 0) = ram_bytes (mem slot_guest)
       (prp1 (io_cmd NVME_CMD_WRITE 0x200 5 0)) 512 \<and>
     mem w' = ram_store (mem slot_guest) 0x1000 (cqe_bytes \<lparr>cqe_result = 0, cqe_rsvd = 0,
       cqe_sq_head = 0, cqe_sq_id = 0, cqe_cid = cmd_cid (io_cmd NVME_CMD_WRITE 0x200 5 0),
       cqe_status = 0x100\<rparr>)"
proof -
  have "ram_bytes (mem slot_guest) 0x800 64 = cmd_bytes (io_cmd NVME_CMD_WRITE 0x200 5 0)"
    using ram_bytes_store_same [of "cmd_bytes (io_cmd NVME_CMD_WRITE 0x200 5 0)" "mem small_guest" "0x800"]
    by (simp add: slot_guest_def)
  moreover have "mapped slot_guest b n \<longleftrightarrow> unat b + n \<le> 12288" for b n
    by (simp add: slot_guest_def small_guest_mapped)
  ultimately show ?thesis
    by (intro nvme_serves_after_any_history [OF guest_bus.dma_bus_axioms nvme_past_reachable])
       (simp_all add: in_range_def)
qed

end
