(* ===== verification/Machine.thy ===== *)
theory Machine
  imports Pf_System Edu_Vf Nvme_System
begin

text \<open>
  A virtual machine with the three PCI devices of the repository: one guest program writes the
  registers of the physical function, of a virtual function and of the NVMe controller, and all of
  them reach the same guest memory by DMA. The invariants of the devices hold together, and the
  devices compose: the NVMe controller fetches blocks, the crypto engine encrypts them in memory and
  the controller stores the ciphertext.
\<close>

subsection \<open>The machine\<close>

record pc =
  pf_dev :: EduPciState
  vf_dev :: EduPciVfState
  nvme_dev :: EduNvmeState

definition pc_reset :: pc where
  "pc_reset = \<lparr>pf_dev = edu_pci_init, vf_dev = edu_vf_init, nvme_dev = edu_nvme_realized\<rparr>"

datatype bar = Pf_Bar0 | Pf_Bar4 | Pf_Bar5 | Vf_Bar0 | Nvme_Bar0

text \<open>Each device has its own services \<open>q1\<close>, \<open>qv\<close>, \<open>q2\<close> (its requester id, its MSI-X table).\<close>

fun pc_write ::
  "'w qemu \<Rightarrow> 'w qemu \<Rightarrow> 'w qemu \<Rightarrow> bar \<times> u64 \<times> u64 \<Rightarrow> pc \<times> 'w \<Rightarrow> ((pc \<times> 'w) res) option" where
  "pc_write q1 qv q2 (Pf_Bar0, a, v) (c, w) =
     (let (s, w) = edu_pci_write q1 a v 4 (pf_dev c, w) in Some (Inr (c\<lparr>pf_dev := s\<rparr>, w)))"
| "pc_write q1 qv q2 (Pf_Bar4, a, v) (c, w) =
     Some (res_bind (edu_ring_write q1 a v 4 (pf_dev c, w)) (\<lambda>(s, w). Inr (c\<lparr>pf_dev := s\<rparr>, w)))"
| "pc_write q1 qv q2 (Pf_Bar5, a, v) (c, w) =
     (let (s, w) = edu_crypto_write q1 a v 4 (pf_dev c, w) in Some (Inr (c\<lparr>pf_dev := s\<rparr>, w)))"
| "pc_write q1 qv q2 (Vf_Bar0, a, v) (c, w) =
     (let (s, w) = edu_vf_write qv a v 4 (vf_dev c, w) in Some (Inr (c\<lparr>vf_dev := s\<rparr>, w)))"
| "pc_write q1 qv q2 (Nvme_Bar0, a, v) (c, w) =
     (case edu_nvme_write q2 a v 4 (nvme_dev c, w) of
        None \<Rightarrow> None
      | Some r \<Rightarrow> Some (res_bind r (\<lambda>(s, w). Inr (c\<lparr>nvme_dev := s\<rparr>, w))))"

fun pc_run ::
  "'w qemu \<Rightarrow> 'w qemu \<Rightarrow> 'w qemu \<Rightarrow> (bar \<times> u64 \<times> u64) list \<Rightarrow> pc \<times> 'w \<Rightarrow> ((pc \<times> 'w) res) option" where
  "pc_run q1 qv q2 [] cw = Some (Inr cw)"
| "pc_run q1 qv q2 (x # xs) cw =
     (case pc_write q1 qv q2 x cw of
        None \<Rightarrow> None
      | Some (Inl e) \<Rightarrow> Some (Inl e)
      | Some (Inr cw') \<Rightarrow> pc_run q1 qv q2 xs cw')"

lemma pc_run_append:
  "pc_run q1 qv q2 xs cw = Some (Inr cw1) \<Longrightarrow> pc_run q1 qv q2 (xs @ ys) cw = pc_run q1 qv q2 ys cw1"
  by (induction xs arbitrary: cw) (auto split: option.splits sum.splits)

text \<open>A program for one device runs as it does on the device alone.\<close>

lemma pc_run_nvme:
  assumes "nvme_writes q2 ws (nvme_dev c, w) = Some (Inr (s', w'))"
  shows "pc_run q1 qv q2 (map (Pair Nvme_Bar0) ws) (c, w) = Some (Inr (c\<lparr>nvme_dev := s'\<rparr>, w'))"
  using assms
proof (induction ws arbitrary: c w)
  case (Cons x ws)
  obtain a v where x: "x = (a, v)" by (cases x)
  from Cons.prems obtain s1 w1 where s1: "edu_nvme_write q2 a v 4 (nvme_dev c, w) = Some (Inr (s1, w1))"
    "nvme_writes q2 ws (s1, w1) = Some (Inr (s', w'))"
    by (auto simp: x split: option.splits sum.splits)
  then show ?case using Cons.IH [of "c\<lparr>nvme_dev := s1\<rparr>" w1] by (simp add: x)
qed simp

lemma pc_run_crypto:
  assumes "crypto_writes q1 ws (pf_dev c, w) = Inr (s', w')"
  shows "pc_run q1 qv q2 (map (Pair Pf_Bar5) ws) (c, w) = Some (Inr (c\<lparr>pf_dev := s'\<rparr>, w'))"
  using assms
proof (induction ws arbitrary: c w)
  case (Cons x ws)
  obtain a v where x: "x = (a, v)" by (cases x)
  obtain s1 w1 where s1: "edu_crypto_write q1 a v 4 (pf_dev c, w) = (s1, w1)" by fastforce
  then show ?case using Cons.IH [of "c\<lparr>pf_dev := s1\<rparr>" w1] Cons.prems by (simp add: x)
qed simp

subsection \<open>Reachable states\<close>

inductive pc_step ::
  "'w qemu \<Rightarrow> 'w qemu \<Rightarrow> 'w qemu \<Rightarrow> ('w \<Rightarrow> 'w \<Rightarrow> bool) \<Rightarrow> pc \<times> 'w \<Rightarrow> pc \<times> 'w \<Rightarrow> bool"
  for q1 qv q2 E where
  guest: "pc_write q1 qv q2 x cw = Some (Inr cw') \<Longrightarrow> pc_step q1 qv q2 E cw cw'"
| env: "E w w' \<Longrightarrow> pc_step q1 qv q2 E (c, w) (c, w')"

definition pc_inv :: "pc \<Rightarrow> bool" where
  "pc_inv c \<longleftrightarrow> pf_inv (pf_dev c) \<and> vf_dma_busy (vf_dev c) = 0 \<and> nvme_wf (nvme_dev c)"

lemma pc_inv_reset: "pc_inv pc_reset"
  by (simp add: pc_inv_def pc_reset_def pf_inv_init edu_vf_init_def)

lemma vf_write_idle:
  "vf_dma_busy (fst sw) = 0 \<Longrightarrow> vf_dma_busy (fst (edu_vf_write q a v sz sw)) = 0"
  by (cases sw) (simp add: edu_vf_write_def edu_vf_dma_def Let_def case_prod_beta)

context dma_bus
begin

lemma pc_write_inv:
  assumes "pc_write q1 qv q x cw = Some (Inr cw')" and "pc_inv (fst cw)"
  shows "pc_inv (fst cw')"
proof -
  obtain b a v c w where x: "x = (b, a, v)" and cw: "cw = (c, w)" by (cases x, cases cw)
  have inv: "pf_inv (pf_dev c)" "vf_dma_busy (vf_dev c) = 0" "nvme_wf (nvme_dev c)"
    using assms(2) by (simp_all add: pc_inv_def cw)
  show ?thesis
  proof (cases b)
    case Pf_Bar0
    then show ?thesis
      using assms(1) inv bar0_inv [of "(pf_dev c, w)" q1 a v 4]
      by (auto simp: x cw pc_inv_def case_prod_beta)
  next
    case Pf_Bar4
    then obtain s where "edu_ring_write q1 a v 4 (pf_dev c, w) = Inr s" "fst cw' = c\<lparr>pf_dev := fst s\<rparr>"
      using assms(1) by (auto simp: x cw res_bind_Inr_iff)
    then show ?thesis using inv bar4_inv [of "(pf_dev c, w)" q1 a v 4 s] by (simp add: pc_inv_def)
  next
    case Pf_Bar5
    then show ?thesis
      using assms(1) inv bar5_inv [of "pf_dev c" q1 a v w] by (auto simp: x cw pc_inv_def case_prod_beta)
  next
    case Vf_Bar0
    then show ?thesis
      using assms(1) inv vf_write_idle [of "(vf_dev c, w)" qv a v 4]
      by (auto simp: x cw pc_inv_def case_prod_beta)
  next
    case Nvme_Bar0
    then obtain s where "edu_nvme_write q a v 4 (nvme_dev c, w) = Some (Inr s)"
      "fst cw' = c\<lparr>nvme_dev := fst s\<rparr>"
      using assms(1) by (auto simp: x cw res_bind_Inr_iff split: option.splits)
    then show ?thesis using inv nvme_write_wf [of a v 4 "(nvme_dev c, w)" s] by (simp add: pc_inv_def)
  qed
qed

end

sublocale dma_bus \<subseteq> pc_machine: stepper "pc_step q1 qv q E" "\<lambda>cw. pc_inv (fst cw)" for q1 qv E
  by unfold_locales (auto elim!: pc_step.cases intro: pc_write_inv)

context dma_bus
begin

lemma pc_reachable_inv:
  assumes "(pc_step q1 qv q E)\<^sup>*\<^sup>* (pc_reset, w0) (c, w)"
  shows "pc_inv c"
  using pc_machine.run_good [OF assms] pc_inv_reset by simp

end

subsection \<open>What a write does to the rest of the environment\<close>

text \<open>A part \<open>F\<close> of the environment that DMA and interrupts of a device leave alone, the
  register writes of the device leave alone.\<close>

definition untouched :: "'w qemu \<Rightarrow> ('w \<Rightarrow> 'x) \<Rightarrow> bool" where
  "untouched q F \<longleftrightarrow> (\<forall>a d w. F (snd (pci_dma_write q a d w)) = F w) \<and>
     (\<forall>a d w. F (snd (snd (pci_dma_read q a d w))) = F w) \<and> (\<forall>v w. F (msix_notify q v w) = F w)"

lemma untouched_simps:
  assumes "untouched q F"
  shows "F (snd (pci_dma_write q a d w)) = F w" "F (snd (snd (pci_dma_read q a d w))) = F w"
    "F (msix_notify q v w) = F w"
  using assms by (simp_all add: untouched_def)

lemma crypto_write_untouched:
  assumes "untouched q F"
  shows "F (snd (edu_crypto_write q a v sz (s, w))) = F w"
  by (simp add: edu_crypto_write_def edu_crypto_cmd_def Let_def case_prod_beta untouched_simps [OF assms])

lemma crypto_writes_untouched:
  assumes "untouched q F" and "crypto_writes q ws sw = Inr sw'"
  shows "F (snd sw') = F (snd sw)"
  using assms(2)
proof (induction ws arbitrary: sw)
  case (Cons x ws)
  then show ?case
    using crypto_write_untouched [OF assms(1), of "fst x" "snd x" 4 "fst sw" "snd sw"]
    by (cases x; cases sw) auto
qed simp

lemma process_cmd_untouched:
  assumes "untouched q F" and "edu_nvme_process_cmd q cmd (s, w) = Inr (s', w')"
  shows "F w' = F w"
proof -
  obtain st s1 w1 where ex: "nvme_exec q cmd (s, w) = Inr (st, s1, w1)"
    and w': "w' = (let w2 = snd (pci_dma_write q (cqe_addr s) (cqe_bytes (completion s cmd st)) w1)
       in if msix_enabled q w2 then msix_notify q 0 w2 else w2)"
    using assms(2) by (auto simp: process_cmd_exec res_bind_Inr_iff)
  have "F w1 = F w"
    using ex by (auto simp: nvme_exec_def nvme_cmd_identify_def nvme_cmd_read_def nvme_cmd_write_def
        Let_def case_prod_beta untouched_simps [OF assms(1)] split: if_splits)
  then show ?thesis by (simp add: w' Let_def untouched_simps [OF assms(1)])
qed

lemma sq_step_untouched:
  assumes "untouched q F" and "nvme_sq_step q sz t = Inr t'"
  shows "F (snd (snd t')) = F (snd (snd t))"
proof -
  obtain c s w where t: "t = (c, s, w)" by (cases t)
  let ?r = "pci_dma_read q (asq s + ucast (sq_head s) * 64) c w"
  obtain s1 w1 where cmd: "edu_nvme_process_cmd q (cmd_of_bytes (fst (snd ?r))) (s, snd (snd ?r)) =
      Inr (s1, w1)" and t': "snd (snd t') = w1"
    using assms(2) by (auto simp: t nvme_sq_step_def Let_def case_prod_beta res_bind_Inr_iff)
  show ?thesis
    using process_cmd_untouched [OF assms(1) cmd] untouched_simps(2) [OF assms(1)] by (simp add: t t')
qed

lemma nvme_write_untouched:
  assumes "untouched q F" and "edu_nvme_write q a v sz sw = Some (Inr sw')"
  shows "F (snd sw') = F (snd sw)"
proof (cases "a = NVME_SQ0TDBL")
  case True
  let ?s = "(fst sw)\<lparr>sq_tail := ucast v\<rparr>"
  have run: "nvme_sq_loop q (nvme_sq_size ?s) (uninit q 64 (snd sw), ?s, snd sw) = Some (Inr sw')"
    using assms(2) True by (simp add: edu_nvme_write_def edu_nvme_process_sq_def case_prod_beta)
  show ?thesis
    by (rule sq_loop_preserves [where P = "\<lambda>t. F (snd t) = F (snd sw)", OF run])
       (simp_all add: sq_step_untouched [OF assms(1)])
next
  case False
  then show ?thesis
    using assms(2) by (auto simp: edu_nvme_write_def Let_def case_prod_beta split: if_splits)
qed

lemma nvme_writes_untouched:
  assumes "untouched q F" and "nvme_writes q ws sw = Some (Inr sw')"
  shows "F (snd sw') = F (snd sw)"
  using assms(2)
proof (induction ws arbitrary: sw)
  case (Cons x ws)
  then show ?case
    using nvme_write_untouched [OF assms(1), of "fst x" "snd x" 4 sw]
    by (cases x) (auto split: option.splits sum.splits)
qed simp

subsection \<open>Two devices that share memory\<close>

text \<open>Both devices see the same guest memory, each through its own IOMMU mappings, and a transfer
  or an interrupt of one leaves the mappings of the other alone.\<close>

locale two_masters =
  pf_bus: dma_bus q1 ram r1 wr1 + nvme_bus: dma_bus q2 ram r2 wr2
  for q1 q2 :: "'w qemu" and ram :: "'w \<Rightarrow> u64 \<Rightarrow> byte"
    and r1 wr1 r2 wr2 :: "'w \<Rightarrow> u64 \<Rightarrow> nat \<Rightarrow> bool" +
  assumes pf_leaves: "untouched q1 r2" "untouched q1 wr2"
    and nvme_leaves: "untouched q2 r1" "untouched q2 wr1"

interpretation guest_devices: two_masters guest_qemu guest_qemu mem mapped mapped mapped mapped
  by unfold_locales (simp_all add: untouched_def)

subsection \<open>Encrypting blocks of the disk\<close>

text \<open>The guest initialises the controller, has it READ blocks into \<open>A\<close> (the command in slot 0),
  has the crypto engine encrypt \<open>A\<close> into \<open>B\<close>, and has the controller WRITE \<open>B\<close> (slot 1).\<close>

definition disk_encrypt_program ::
  "u32 \<Rightarrow> u64 \<Rightarrow> u64 \<Rightarrow> byte list \<Rightarrow> byte list \<Rightarrow> u64 \<Rightarrow> u64 \<Rightarrow> nat \<Rightarrow> (bar \<times> u64 \<times> u64) list" where
  "disk_encrypt_program a sqb cqb key iv A B n =
     map (Pair Nvme_Bar0) (nvme_init_program a sqb cqb @ [(NVME_SQ0TDBL, 1)]) @
     map (Pair Pf_Bar5) (encrypt_program key iv A B n) @
     map (Pair Nvme_Bar0) [(NVME_SQ0TDBL, 2)]"

lemma queue_sizes:
  assumes "2 \<le> a AND 0xFFF" and "drop_bit 16 a \<noteq> 0"
  shows "2 < nvme_sq_size (nvme_inited a sqb cqb s)" and "nvme_cq_next a 0 = 1"
proof -
  have m: "(0xFFF :: u32) = mask 12" by (simp add: mask_eq_exp_minus_1)
  have "unat (a AND 0xFFF) < 4096"
    unfolding m take_bit_eq_mask [symmetric]
    by (simp add: unsigned_take_bit_eq take_bit_nat_less_exp [of 12, simplified])
  moreover have "2 \<le> unat (a AND 0xFFF)" using assms(1) by (simp add: word_le_nat_alt)
  ultimately show "2 < nvme_sq_size (nvme_inited a sqb cqb s)"
    by (simp add: word_less_nat_alt unat_word_ariths unsigned_ucast_eq take_bit_nat_eq_self)
  have "0 < unat (drop_bit 16 a)" using assms(2) by (simp add: unat_gt_0)
  then have "\<not> nvme_cq_size a \<le> unat (1 :: u16)" by (simp add: nvme_cq_size_def)
  then show "nvme_cq_next a 0 = 1" by (simp add: nvme_cq_next_def cq_full [of a 1, simplified])
qed

text \<open>The controller after the first command of a queue, and after the second.\<close>

lemma nvme_done_simps:
  "sq_head (nvme_done t s) = t" "nvme_sq_size (nvme_done t s) = nvme_sq_size s"
  "sq_addr (nvme_done t s) = asq s + ucast t * 64" "storage (nvme_done t s) = storage s"
  "nvme_wf s \<Longrightarrow> nvme_wf (nvme_done t s)"
  "cqe_addr (nvme_done t s) = acq s + ucast (nvme_cq_next (aqa s) (cq_tail s)) * 16"
  using advance_cq_wf [of s]
  by (simp_all add: nvme_done_def nvme_sq_size_def sq_addr_def nvme_wf_def cqe_addr_def advance_cq_next)

lemma sq_after_small:
  assumes "2 < nvme_sq_size s"
  shows "sq_head s = 0 \<Longrightarrow> sq_after s = 1" "sq_head s = 1 \<Longrightarrow> sq_after s = 2"
    "sq_head s = 0 \<or> sq_head s = 1 \<Longrightarrow> sq_head s < nvme_sq_size s" "nvme_sq_size s \<noteq> 1"
proof -
  have n: "2 < unat (nvme_sq_size s)" using assms by (simp add: word_less_nat_alt)
  show "sq_head s = 0 \<Longrightarrow> sq_after s = 1" "sq_head s = 1 \<Longrightarrow> sq_after s = 2"
    "sq_head s = 0 \<or> sq_head s = 1 \<Longrightarrow> sq_head s < nvme_sq_size s"
    using n by (auto simp: sq_after_def nvme_sq_next_def word_le_nat_alt word_less_nat_alt)
  show "nvme_sq_size s \<noteq> 1" using n by (metis less_numeral_extra(4) not_numeral_less_one unat_1)
qed

context dma_bus
begin

text \<open>The first half: initialisation and the READ.\<close>

lemma init_then_read:
  assumes "nvme_wf s" and "2 \<le> a AND 0xFFF" and "drop_bit 16 a \<noteq> 0"
    and "readable w sqb 64" and "ram_bytes (ram w) sqb 64 = cmd_bytes cmd"
    and "opcode cmd = NVME_CMD_READ" and "in_range cmd" and "n = 512 * nlb_n cmd"
    and "writable w (prp1 cmd) n" and "writable w cqb 16"
  shows "\<exists>w' c. nvme_writes q (nvme_init_program a sqb cqb @ [(NVME_SQ0TDBL, 1)]) (s, w) =
      Some (Inr (nvme_done 1 (nvme_inited a sqb cqb s), w')) \<and> length c = 16 \<and>
    ram w' = ram_store (ram_store (ram w) (prp1 cmd) (cmd_data s cmd)) cqb c \<and>
    readable w' = readable w \<and> writable w' = writable w"
proof -
  let ?s = "nvme_inited a sqb cqb s"
  have size: "2 < nvme_sq_size ?s" by (rule queue_sizes(1) [OF assms(2,3)])
  have "nvme_next_is ram readable cmd ?s w"
    using assms(4,5) sq_after_small(3,4) [OF size]
    by (simp add: nvme_next_is_def del: nvme_inited_simps(5))
  moreover have "sq_after ?s = 1" using sq_after_small(1) [OF size] by simp
  moreover have "cmd_data ?s cmd = cmd_data s cmd" by (simp add: cmd_data_def)
  ultimately obtain w' where w': "edu_nvme_write q NVME_SQ0TDBL 1 4 (?s, w) =
      Some (Inr (nvme_done 1 ?s, w'))"
    "ram w' = ram_store (ram_store (ram w) (prp1 cmd) (cmd_data s cmd)) cqb
      (cqe_bytes (completion ?s cmd 0))" "readable w' = readable w" "writable w' = writable w"
    using doorbell_read [of cmd ?s w n 4] assms(1,6-10) by auto
  then show ?thesis
    by (intro exI [of _ w'] exI [of _ "cqe_bytes (completion ?s cmd 0)"])
       (simp add: nvme_writes_append [OF nvme_init_runs])
qed

text \<open>The second half: the WRITE in slot 1.\<close>

lemma then_write:
  assumes "nvme_wf s" and "2 \<le> a AND 0xFFF" and "drop_bit 16 a \<noteq> 0"
    and "readable w (sqb + 64) 64" and "ram_bytes (ram w) (sqb + 64) 64 = cmd_bytes cmd"
    and "opcode cmd = NVME_CMD_WRITE" and "in_range cmd" and "n = 512 * nlb_n cmd"
    and "readable w (prp1 cmd) n" and "writable w (cqb + 16) 16"
  shows "\<exists>s' w'. nvme_writes q [(NVME_SQ0TDBL, 2)] (nvme_done 1 (nvme_inited a sqb cqb s), w) =
      Some (Inr (s', w')) \<and> storage s' = storage (put_data (ram_bytes (ram w) (prp1 cmd) n) cmd s) \<and>
    ram w' = ram_store (ram w) (cqb + 16) (cqe_bytes \<lparr>cqe_result = 0, cqe_rsvd = 0, cqe_sq_head = 1,
      cqe_sq_id = 0, cqe_cid = cmd_cid cmd, cqe_status = 0x100\<rparr>)"
proof -
  let ?i = "nvme_inited a sqb cqb s"
  let ?s = "nvme_done 1 ?i"
  let ?d = "ram_bytes (ram w) (prp1 cmd) n"
  have regs: "asq ?i = sqb" "acq ?i = cqb" "aqa ?i = a" "cq_tail ?i = 0" by (simp_all add: nvme_inited_def)
  have size: "2 < nvme_sq_size ?s" and cq: "nvme_cq_next a 0 = 1"
    using queue_sizes [OF assms(2,3)] by (simp_all add: nvme_done_simps)
  have "nvme_next_is ram readable cmd ?s w"
    using assms(4,5) sq_after_small(3,4) [OF size]
    by (simp add: nvme_next_is_def nvme_done_simps regs del: nvme_inited_simps)
  moreover have wf: "nvme_wf ?s" using assms(1) by (simp add: nvme_done_simps)
  moreover have "sq_after ?s = 2" using sq_after_small(2) [OF size] by (simp add: nvme_done_simps)
  moreover have "cqe_addr ?s = cqb + 16" by (simp add: nvme_done_simps regs cq del: nvme_inited_simps)
  ultimately obtain w' where w': "edu_nvme_write q NVME_SQ0TDBL 2 4 (?s, w) =
      Some (Inr (nvme_done 2 (put_data ?d cmd ?s), w'))"
    "ram w' = ram_store (ram w) (cqb + 16) (cqe_bytes (completion ?s cmd 0))"
    using doorbell_write [of cmd ?s w n 4] assms(6-10) by auto
  have "cq_phase ?s = 1"
    using cq
    by (auto simp: nvme_done_def nvme_advance_cq_def nvme_inited_def nvme_cq_next_def Let_def
        split: if_splits)
  then have "completion ?s cmd 0 = \<lparr>cqe_result = 0, cqe_rsvd = 0, cqe_sq_head = 1, cqe_sq_id = 0,
      cqe_cid = cmd_cid cmd, cqe_status = 0x100\<rparr>"
    by (simp add: completion_def nvme_done_simps)
  then show ?thesis using w' by (simp add: nvme_done_simps put_data_def)
qed

end

context two_masters
begin

text \<open>What the memory holds after the READ, and after the encryption.\<close>

lemma read_stage:
  assumes "nvme_wf s" and "2 \<le> a AND 0xFFF" and "drop_bit 16 a \<noteq> 0"
    and "r2 w sqb 64" and "ram_bytes (ram w) sqb 64 = cmd_bytes rd"
    and "opcode rd = NVME_CMD_READ" and "in_range rd" and "n = 512 * nlb_n rd" and "n \<le> 4096"
    and "wr2 w (prp1 rd) n" and "wr2 w cqb 16"
    and "disjoint_ranges x 64 (prp1 rd) n" and "disjoint_ranges x 64 cqb 16"
    and "disjoint_ranges (prp1 rd) n cqb 16"
  shows "\<exists>w1. nvme_writes q2 (nvme_init_program a sqb cqb @ [(NVME_SQ0TDBL, 1)]) (s, w) =
      Some (Inr (nvme_done 1 (nvme_inited a sqb cqb s), w1)) \<and>
    ram_bytes (ram w1) (prp1 rd) n = cmd_data s rd \<and>
    ram_bytes (ram w1) x 64 = ram_bytes (ram w) x 64 \<and>
    r1 w1 = r1 w \<and> wr1 w1 = wr1 w \<and> r2 w1 = r2 w \<and> wr2 w1 = wr2 w"
proof -
  let ?d = "cmd_data s rd"
  have len: "length ?d = n" using length_cmd_data [OF assms(1,7)] assms(8) by simp
  obtain w1 e where w1: "nvme_writes q2 (nvme_init_program a sqb cqb @ [(NVME_SQ0TDBL, 1)]) (s, w) =
      Some (Inr (nvme_done 1 (nvme_inited a sqb cqb s), w1))" and e: "length e = 16"
    and ram1: "ram w1 = ram_store (ram_store (ram w) (prp1 rd) ?d) cqb e"
    and maps: "r2 w1 = r2 w" "wr2 w1 = wr2 w"
    using nvme_bus.init_then_read [OF assms(1-8,10,11)] by blast
  have "ram_bytes (ram w1) (prp1 rd) n = ?d"
    using assms(9,14) len e ram_bytes_store_same [of ?d "ram w" "prp1 rd"]
    by (simp add: ram1 ram_bytes_store_disjoint)
  moreover have "ram_bytes (ram w1) x 64 = ram_bytes (ram w) x 64"
    using assms(12,13) len e by (simp add: ram1 ram_bytes_store_disjoint)
  ultimately show ?thesis
    using w1 maps nvme_writes_untouched [OF nvme_leaves(1) w1]
      nvme_writes_untouched [OF nvme_leaves(2) w1] by auto
qed

lemma encrypt_stage:
  assumes "crypto_wf p" and "crypto_busy p = 0" and "n \<le> 4096" and "n mod 16 = 0"
    and "r1 w A n" and "wr1 w B n" and "length key = 16" and "length iv = 16"
    and "disjoint_ranges x 64 B n"
  shows "\<exists>p2 w2. crypto_writes q1 (encrypt_program key iv A B n) (p, w) = Inr (p2, w2) \<and>
    ram_bytes (ram w2) B n = fips_cbc key iv (ram_bytes (ram w) A n) \<and>
    ram_bytes (ram w2) x 64 = ram_bytes (ram w) x 64 \<and> r2 w2 = r2 w \<and> wr2 w2 = wr2 w"
proof -
  let ?ct = "fips_cbc key iv (ram_bytes (ram w) A n)"
  obtain k where k: "n = 16 * k" using assms(4) by (auto elim: dvdE)
  have len: "length ?ct = n"
    using length_textbook_cbc [of "ram_bytes (ram w) A n" k True "aes_key_expand key (round_keys p)" iv]
      k assms(1,7) by (simp add: textbook_cbc_fips crypto_wf_def)
  obtain p2 w2 where w2: "crypto_writes q1 (encrypt_program key iv A B n) (p, w) = Inr (p2, w2)"
    and ram2: "ram w2 = ram_store (ram w) B ?ct"
    using pf_bus.encrypt_program_run [OF assms(1-8)] by blast
  have "ram_bytes (ram w2) B n = ?ct" "ram_bytes (ram w2) x 64 = ram_bytes (ram w) x 64"
    using ram_bytes_store_same [of ?ct "ram w" B] assms(3,9) len
    by (simp_all add: ram2 ram_bytes_store_disjoint)
  then show ?thesis
    using w2 crypto_writes_untouched [OF pf_leaves(1) w2] crypto_writes_untouched [OF pf_leaves(2) w2]
    by auto
qed

lemma disk_encrypted:
  assumes "pc_inv c" and "2 \<le> a AND 0xFFF" and "drop_bit 16 a \<noteq> 0"
    and "r2 w sqb 64" and "ram_bytes (ram w) sqb 64 = cmd_bytes rd"
    and "r2 w (sqb + 64) 64" and "ram_bytes (ram w) (sqb + 64) 64 = cmd_bytes wr"
    and "opcode rd = NVME_CMD_READ" and "in_range rd" and "n = 512 * nlb_n rd"
    and "opcode wr = NVME_CMD_WRITE" and "in_range wr" and "n = 512 * nlb_n wr" and "n \<le> 4096"
    and "wr2 w (prp1 rd) n" and "r1 w (prp1 rd) n" and "wr1 w (prp1 wr) n" and "r2 w (prp1 wr) n"
    and "wr2 w cqb 16" and "wr2 w (cqb + 16) 16"
    and "disjoint_ranges (sqb + 64) 64 (prp1 rd) n" and "disjoint_ranges (sqb + 64) 64 cqb 16"
    and "disjoint_ranges (sqb + 64) 64 (prp1 wr) n" and "disjoint_ranges (prp1 rd) n cqb 16"
    and "length key = 16" and "length iv = 16"
  shows "\<exists>c' w'. pc_run q1 qv q2 (disk_encrypt_program a sqb cqb key iv (prp1 rd) (prp1 wr) n) (c, w) =
      Some (Inr (c', w')) \<and>
    storage (nvme_dev c') = memcpy (storage (nvme_dev c)) (512 * lba_n wr)
      (fips_cbc key iv (cmd_data (nvme_dev c) rd)) \<and>
    ram_bytes (ram w') (cqb + 16) 16 = cqe_bytes \<lparr>cqe_result = 0, cqe_rsvd = 0, cqe_sq_head = 1,
      cqe_sq_id = 0, cqe_cid = cmd_cid wr, cqe_status = 0x100\<rparr>"
proof -
  let ?s = "nvme_dev c" and ?p = "pf_dev c"
  let ?s1 = "nvme_done 1 (nvme_inited a sqb cqb ?s)"
  let ?ct = "fips_cbc key iv (cmd_data ?s rd)"
  have inv: "nvme_wf ?s" "crypto_wf ?p" "crypto_busy ?p = 0"
    using assms(1) by (simp_all add: pc_inv_def pf_inv_def)
  obtain w1 where w1: "nvme_writes q2 (nvme_init_program a sqb cqb @ [(NVME_SQ0TDBL, 1)]) (?s, w) =
      Some (Inr (?s1, w1))" and m1: "ram_bytes (ram w1) (prp1 rd) n = cmd_data ?s rd"
      "ram_bytes (ram w1) (sqb + 64) 64 = cmd_bytes wr"
      "r1 w1 = r1 w" "wr1 w1 = wr1 w" "r2 w1 = r2 w" "wr2 w1 = wr2 w"
    using read_stage [OF inv(1) assms(2-5,8-10,14,15,19,21,22,24)] assms(7) by auto
  have n: "n mod 16 = 0" and ok1: "r1 w1 (prp1 rd) n" "wr1 w1 (prp1 wr) n"
    using assms(10,16,17) by (simp_all add: m1)
  obtain p2 w2 where w2: "crypto_writes q1 (encrypt_program key iv (prp1 rd) (prp1 wr) n) (?p, w1) =
      Inr (p2, w2)" and m2: "ram_bytes (ram w2) (prp1 wr) n = ?ct"
      "ram_bytes (ram w2) (sqb + 64) 64 = cmd_bytes wr" "r2 w2 = r2 w" "wr2 w2 = wr2 w"
    using encrypt_stage [OF inv(2,3) assms(14) n ok1 assms(25,26,23)] m1 by auto
  have ok2: "r2 w2 (sqb + 64) 64" "r2 w2 (prp1 wr) n" "wr2 w2 (cqb + 16) 16"
    using assms(6,18,20) by (simp_all add: m2)
  obtain s3 w3 where w3: "nvme_writes q2 [(NVME_SQ0TDBL, 2)] (?s1, w2) = Some (Inr (s3, w3))"
    and disk: "storage s3 = storage (put_data ?ct wr ?s)"
    and ram3: "ram w3 = ram_store (ram w2) (cqb + 16) (cqe_bytes \<lparr>cqe_result = 0, cqe_rsvd = 0,
      cqe_sq_head = 1, cqe_sq_id = 0, cqe_cid = cmd_cid wr, cqe_status = 0x100\<rparr>)"
    using nvme_bus.then_write [OF inv(1) assms(2,3) ok2(1) m2(2) assms(11-13) ok2(2,3)]
    unfolding m2(1) by blast
  let ?c1 = "c\<lparr>nvme_dev := ?s1\<rparr>"
  have "pc_run q1 qv q2 (disk_encrypt_program a sqb cqb key iv (prp1 rd) (prp1 wr) n) (c, w) =
      Some (Inr (?c1\<lparr>pf_dev := p2, nvme_dev := s3\<rparr>, w3))"
    unfolding disk_encrypt_program_def
    using pc_run_nvme [OF w1, of q1 qv] pc_run_crypto [where c = ?c1, of q1 _ w1 p2 w2 qv q2] w2
      pc_run_nvme [of q2 _ "?c1\<lparr>pf_dev := p2\<rparr>" w2 s3 w3 q1 qv] w3
    by (simp add: pc_run_append del: list.map pc_run.simps map_append)
  then show ?thesis
    using disk ram_bytes_store_same [of "cqe_bytes \<lparr>cqe_result = 0, cqe_rsvd = 0, cqe_sq_head = 1,
      cqe_sq_id = 0, cqe_cid = cmd_cid wr, cqe_status = 0x100\<rparr>" "ram w2" "cqb + 16"]
    by (simp add: ram3 put_data_def)
qed

end

subsection \<open>Properties\<close>

text \<open>C9. The invariants of the devices hold together: whatever registers of the three devices a
  guest writes in whatever order, while its memory changes, the physical function keeps its
  invariant (ring pointers inside the ring, key arrays of their sizes, engines idle), the virtual
  function is idle, and the NVMe controller keeps its storage and a phase bit of 0 or 1.\<close>

theorem machine_reachable_wellformed:
  assumes "dma_bus q2 ram readable writable"
    and "(pc_step q1 qv q2 E)\<^sup>*\<^sup>* (pc_reset, w0) (c, w)"
  shows "ring_inv (pf_dev c) \<and> crypto_wf (pf_dev c) \<and> dma_busy (pf_dev c) = 0 \<and>
    crypto_busy (pf_dev c) = 0 \<and> vf_dma_busy (vf_dev c) = 0 \<and>
    length (storage (nvme_dev c)) = 1048576 \<and> cq_phase (nvme_dev c) \<le> 1"
  using dma_bus.pc_reachable_inv [OF assms] by (simp add: pc_inv_def pf_inv_def nvme_wf_def)

text \<open>C1. The devices compose. From every reachable state of the machine, a guest that has the NVMe
  controller read blocks into memory, the crypto engine encrypt them and the controller write them
  back leaves the FIPS-197 CBC encryption of the blocks on the disk where the WRITE names it, every
  other byte of the disk as it was, and a success entry with the phase bit in the completion queue.\<close>

theorem machine_encrypts_disk:
  assumes "two_masters q1 q2 ram r1 wr1 r2 wr2"
    and "(pc_step q1 qv q2 E)\<^sup>*\<^sup>* (pc_reset, w0) (c, w)"
    and "2 \<le> a AND 0xFFF" and "drop_bit 16 a \<noteq> 0"
    and "r2 w sqb 64" and "ram_bytes (ram w) sqb 64 = cmd_bytes rd"
    and "r2 w (sqb + 64) 64" and "ram_bytes (ram w) (sqb + 64) 64 = cmd_bytes wr"
    and "opcode rd = NVME_CMD_READ" and "in_range rd" and "n = 512 * nlb_n rd"
    and "opcode wr = NVME_CMD_WRITE" and "in_range wr" and "n = 512 * nlb_n wr" and "n \<le> 4096"
    and "wr2 w (prp1 rd) n" and "r1 w (prp1 rd) n" and "wr1 w (prp1 wr) n" and "r2 w (prp1 wr) n"
    and "wr2 w cqb 16" and "wr2 w (cqb + 16) 16"
    and "disjoint_ranges (sqb + 64) 64 (prp1 rd) n" and "disjoint_ranges (sqb + 64) 64 cqb 16"
    and "disjoint_ranges (sqb + 64) 64 (prp1 wr) n" and "disjoint_ranges (prp1 rd) n cqb 16"
    and "length key = 16" and "length iv = 16"
  shows "\<exists>c' w'. pc_run q1 qv q2 (disk_encrypt_program a sqb cqb key iv (prp1 rd) (prp1 wr) n) (c, w) =
      Some (Inr (c', w')) \<and>
    storage (nvme_dev c') = memcpy (storage (nvme_dev c)) (512 * lba_n wr)
      (fips_cbc key iv (cmd_data (nvme_dev c) rd)) \<and>
    ram_bytes (ram w') (cqb + 16) 16 = cqe_bytes \<lparr>cqe_result = 0, cqe_rsvd = 0, cqe_sq_head = 1,
      cqe_sq_id = 0, cqe_cid = cmd_cid wr, cqe_status = 0x100\<rparr>"
proof -
  have "dma_bus q2 ram r2 wr2" using assms(1) by (simp add: two_masters_def)
  then have "pc_inv c" by (rule dma_bus.pc_reachable_inv [OF _ assms(2)])
  then show ?thesis by (rule two_masters.disk_encrypted [OF assms(1) _ assms(3-27)])
qed

text \<open>A guest with the two commands in the slots at 0x800, whose past is a write of the key register
  and one of the admin queue sizes.\<close>

definition rd5 :: NvmeCmd where "rd5 = io_cmd NVME_CMD_READ 0x1000 5 0"
definition wr9 :: NvmeCmd where "wr9 = io_cmd NVME_CMD_WRITE 0x2000 9 0"

definition disk_guest :: guest where
  "disk_guest = small_guest\<lparr>mem := ram_store (ram_store (mem small_guest) 0x800 (cmd_bytes rd5))
     0x840 (cmd_bytes wr9)\<rparr>"

definition used_pc :: pc where
  "used_pc = pc_reset\<lparr>nvme_dev := edu_nvme_realized\<lparr>aqa := 0x00030003\<rparr>\<rparr>"

lemma used_pc_reachable:
  "(pc_step guest_qemu guest_qemu guest_qemu (\<lambda>_ _. True))\<^sup>*\<^sup>* (pc_reset, small_guest) (used_pc, disk_guest)"
proof -
  let ?step = "pc_step guest_qemu guest_qemu guest_qemu (\<lambda>_ _. True)"
  have "?step (pc_reset, small_guest) (used_pc, small_guest)"
    by (rule pc_step.guest [where x = "(Nvme_Bar0, NVME_AQA, 0x00030003)"])
       (simp add: edu_nvme_write_def used_pc_def pc_reset_def)
  moreover have "?step (used_pc, small_guest) (used_pc, disk_guest)"
    by (rule pc_step.env) simp
  ultimately show ?thesis by (meson rtranclp.rtrancl_into_rtrancl rtranclp.rtrancl_refl)
qed

lemma disk_guest_facts:
  "mapped disk_guest b m \<longleftrightarrow> unat b + m \<le> 12288"
  "ram_bytes (mem disk_guest) 0x800 64 = cmd_bytes rd5"
  "ram_bytes (mem disk_guest) (0x800 + 64) 64 = cmd_bytes wr9"
proof -
  show "mapped disk_guest b m \<longleftrightarrow> unat b + m \<le> 12288"
    by (simp add: disk_guest_def small_guest_mapped)
  have len: "length (cmd_bytes rd5) = 64" "length (cmd_bytes wr9) = 64" by simp_all
  show "ram_bytes (mem disk_guest) 0x800 64 = cmd_bytes rd5"
    using ram_bytes_store_same [of "cmd_bytes rd5" "mem small_guest" "0x800"] len
    by (simp add: disk_guest_def ram_bytes_store_disjoint disjoint_ranges_def)
  show "ram_bytes (mem disk_guest) (0x800 + 64) 64 = cmd_bytes wr9"
    using ram_bytes_store_same [of "cmd_bytes wr9" _ "0x840"] len by (simp add: disk_guest_def)
qed

theorem machine_encrypts_disk_witness:
  "\<exists>c' w'. pc_run guest_qemu guest_qemu guest_qemu
       (disk_encrypt_program 0x00030003 0x800 0x900 (replicate 16 1) (replicate 16 2)
         (prp1 rd5) (prp1 wr9) 512) (used_pc, disk_guest) = Some (Inr (c', w')) \<and>
     storage (nvme_dev c') = memcpy (storage (nvme_dev used_pc)) (512 * lba_n wr9)
       (fips_cbc (replicate 16 1) (replicate 16 2) (cmd_data (nvme_dev used_pc) rd5)) \<and>
     ram_bytes (mem w') (0x900 + 16) 16 = cqe_bytes \<lparr>cqe_result = 0, cqe_rsvd = 0, cqe_sq_head = 1,
       cqe_sq_id = 0, cqe_cid = cmd_cid wr9, cqe_status = 0x100\<rparr>"
  by (rule machine_encrypts_disk [OF guest_devices.two_masters_axioms used_pc_reachable])
     (simp_all only: disk_guest_facts, simp_all add: rd5_def wr9_def in_range_def disjoint_ranges_def)

theorem machine_reachable_wellformed_witness:
  "ring_inv (pf_dev used_pc) \<and> crypto_wf (pf_dev used_pc) \<and> dma_busy (pf_dev used_pc) = 0 \<and>
   crypto_busy (pf_dev used_pc) = 0 \<and> vf_dma_busy (vf_dev used_pc) = 0 \<and>
   length (storage (nvme_dev used_pc)) = 1048576 \<and> cq_phase (nvme_dev used_pc) \<le> 1"
  by (rule machine_reachable_wellformed [OF guest_bus.dma_bus_axioms used_pc_reachable])

end
