(* ===== verification/Nvme_Disk.thy ===== *)
theory Nvme_Disk
  imports Nvme_Engine
begin

text \<open>
  The whole NVMe doorbell against an abstract controller: a disk of 2048 numbered blocks, the guest
  memory, and the number of completions so far. The abstract controller knows neither the flat
  storage buffer nor the queue pointers and the phase bit; the code is shown to implement it for
  every batch of commands whose buffers are mapped.
\<close>

subsection \<open>The abstract controller\<close>

type_synonym blocks = "nat \<Rightarrow> byte list"
type_synonym memory = "u64 \<Rightarrow> byte"

text \<open>The transfer of a command: its status, the disk and the memory after it.\<close>

definition transfer :: "NvmeCmd \<Rightarrow> blocks \<times> memory \<Rightarrow> u16 \<times> blocks \<times> memory" where
  "transfer cmd = (\<lambda>(b, m).
     if opcode cmd = NVME_CMD_IDENTIFY then
       (0, b, if prp1 cmd = 0 then m else ram_store m (prp1 cmd) identify_data)
     else if opcode cmd = NVME_CMD_READ then
       (if in_range cmd
        then (0, b, ram_store m (prp1 cmd) (concat (map b [lba_n cmd..<lba_n cmd + nlb_n cmd])))
        else (0x8002, b, m))
     else if opcode cmd = NVME_CMD_WRITE then
       (if in_range cmd
        then (0, \<lambda>i. if lba_n cmd \<le> i \<and> i < lba_n cmd + nlb_n cmd
                     then ram_bytes m (prp1 cmd + of_nat (512 * (i - lba_n cmd))) 512 else b i, m)
        else (0x8002, b, m))
     else (1, b, m))"

text \<open>The buffers of a command are mapped, and its block range does not wrap.\<close>

definition buffers_ok ::
  "(u64 \<Rightarrow> nat \<Rightarrow> bool) \<Rightarrow> (u64 \<Rightarrow> nat \<Rightarrow> bool) \<Rightarrow> NvmeCmd \<Rightarrow> bool" where
  "buffers_ok rd wt cmd \<longleftrightarrow>
     (if opcode cmd = NVME_CMD_IDENTIFY then prp1 cmd = 0 \<or> wt (prp1 cmd) 4096
      else if opcode cmd = NVME_CMD_READ then
        \<not> wraps cmd \<and> (\<not> in_range cmd \<or> wt (prp1 cmd) (512 * nlb_n cmd))
      else if opcode cmd = NVME_CMD_WRITE then
        \<not> wraps cmd \<and> (\<not> in_range cmd \<or> rd (prp1 cmd) (512 * nlb_n cmd))
      else True)"

text \<open>
  Slot \<open>i\<close> of a submission queue at \<open>sqb\<close>, with a completion queue of \<open>N\<close> entries at \<open>cqb\<close>, when
  \<open>n\<close> commands have been completed: fetch, transfer, post. \<open>None\<close> when a buffer is not mapped.
\<close>

definition disk_step ::
  "(u64 \<Rightarrow> nat \<Rightarrow> bool) \<Rightarrow> (u64 \<Rightarrow> nat \<Rightarrow> bool) \<Rightarrow> u64 \<Rightarrow> u64 \<Rightarrow> nat \<Rightarrow> u16 \<Rightarrow>
   blocks \<times> memory \<times> nat \<Rightarrow> (blocks \<times> memory \<times> nat) option" where
  "disk_step rd wt sqb cqb N i = (\<lambda>(b, m, n).
     let slot = sqb + ucast i * 64;
         entry = cqb + of_nat (n mod N) * 16;
         cmd = cmd_of_bytes (ram_bytes m slot 64);
         (st, b, m) = transfer cmd (b, m);
         e = \<lparr>cqe_result = 0, cqe_rsvd = 0, cqe_sq_head = i, cqe_sq_id = 0, cqe_cid = cmd_cid cmd,
              cqe_status = (if even (n div N) then st OR 0x100 else st)\<rparr>
     in if rd slot 64 \<and> buffers_ok rd wt cmd \<and> wt entry 16
        then Some (b, ram_store m entry (cqe_bytes e), n + 1) else None)"

fun disk_run ::
  "(u64 \<Rightarrow> nat \<Rightarrow> bool) \<Rightarrow> (u64 \<Rightarrow> nat \<Rightarrow> bool) \<Rightarrow> u64 \<Rightarrow> u64 \<Rightarrow> nat \<Rightarrow> u16 list \<Rightarrow>
   blocks \<times> memory \<times> nat \<Rightarrow> (blocks \<times> memory \<times> nat) option" where
  "disk_run rd wt sqb cqb N [] a = Some a"
| "disk_run rd wt sqb cqb N (i # is) a =
     (case disk_step rd wt sqb cqb N i a of None \<Rightarrow> None | Some a' \<Rightarrow> disk_run rd wt sqb cqb N is a')"

subsection \<open>The storage as blocks\<close>

lemma subarr_append: "subarr a (n + m) xs = subarr a n xs @ subarr (a + n) m xs"
  by (simp add: subarr_def take_add add.commute [of a n])

lemma subarr_blocks:
  "subarr (512 * l) (512 * n) xs = concat (map (\<lambda>i. subarr (512 * i) 512 xs) [l..<l + n])"
proof (induction n)
  case (Suc n)
  have "subarr (512 * l) (512 * Suc n) xs =
        subarr (512 * l) (512 * n) xs @ subarr (512 * (l + n)) 512 xs"
    using subarr_append [of "512 * l" "512 * n" 512 xs] by (simp add: algebra_simps)
  then show ?case using Suc by simp
qed (simp add: subarr_def)

lemma subarr_ram_bytes:
  "off + n \<le> k \<Longrightarrow> subarr off n (ram_bytes m a k) = ram_bytes m (a + of_nat off) n"
  by (rule nth_equalityI) (simp_all add: nth_subarr nth_ram_bytes add.assoc)

definition blocks_are :: "EduNvmeState \<Rightarrow> blocks \<Rightarrow> bool" where
  "blocks_are s b \<longleftrightarrow> nvme_wf s \<and> (\<forall>i < 2048. nvme_block s i = b i)"

lemma cmd_data_blocks:
  assumes "blocks_are s b" and "in_range cmd"
  shows "cmd_data s cmd = concat (map b [lba_n cmd..<lba_n cmd + nlb_n cmd])"
proof -
  have "map (\<lambda>i. subarr (512 * i) 512 (storage s)) [lba_n cmd..<lba_n cmd + nlb_n cmd] =
        map b [lba_n cmd..<lba_n cmd + nlb_n cmd]"
    using assms by (auto simp: blocks_are_def nvme_block_def in_range_def)
  then show ?thesis by (simp only: cmd_data_def subarr_blocks)
qed

lemma put_data_blocks:
  assumes "blocks_are s b" and "in_range cmd"
  shows "blocks_are (put_data (ram_bytes m a (512 * nlb_n cmd)) cmd s)
    (\<lambda>i. if lba_n cmd \<le> i \<and> i < lba_n cmd + nlb_n cmd
         then ram_bytes m (a + of_nat (512 * (i - lba_n cmd))) 512 else b i)"
proof -
  let ?d = "ram_bytes m a (512 * nlb_n cmd)"
  have wf: "nvme_wf s" using assms(1) by (simp add: blocks_are_def)
  have "subarr (512 * (i - lba_n cmd)) 512 ?d = ram_bytes m (a + of_nat (512 * (i - lba_n cmd))) 512"
    if "lba_n cmd \<le> i" "i < lba_n cmd + nlb_n cmd" for i
    using that by (intro subarr_ram_bytes) simp
  then show ?thesis
    using assms put_data_wf [OF wf assms(2), of ?d] block_put_data [OF wf assms(2), of ?d]
    by (simp add: blocks_are_def)
qed

subsection \<open>One command\<close>

context dma_bus
begin

lemma exec_refines:
  assumes "blocks_are s b" and "buffers_ok (readable w) (writable w) cmd"
    and "transfer cmd (b, ram w) = (st, b', m')"
  shows "\<exists>s1 w1. nvme_exec q cmd (s, w) = Inr (st, s1, w1) \<and> blocks_are s1 b' \<and> ram w1 = m' \<and>
    readable w1 = readable w \<and> writable w1 = writable w"
proof -
  have wf: "nvme_wf s" using assms(1) by (simp add: blocks_are_def)
  consider (ident) "opcode cmd = NVME_CMD_IDENTIFY"
    | (rd) "opcode cmd = NVME_CMD_READ" | (wr) "opcode cmd = NVME_CMD_WRITE"
    | (other) "opcode cmd \<noteq> NVME_CMD_IDENTIFY" "opcode cmd \<noteq> NVME_CMD_READ"
        "opcode cmd \<noteq> NVME_CMD_WRITE" by blast
  then show ?thesis
  proof cases
    case ident
    then show ?thesis
      using assms write_ram [of w "prp1 cmd" identify_data]
      by (auto simp: nvme_exec_def nvme_cmd_identify_def transfer_def buffers_ok_def write_maps)
  next
    case rd
    show ?thesis
    proof (cases "in_range cmd")
      case True
      have "writable w (prp1 cmd) (length (cmd_data s cmd))"
        using assms(2) rd True length_cmd_data [OF wf True] by (simp add: buffers_ok_def)
      then show ?thesis
        using rd True assms nvme_read_cmd [OF wf, of cmd w] length_cmd_data [OF wf True]
          cmd_data_blocks [OF assms(1) True] write_ram [of w "prp1 cmd" "cmd_data s cmd"]
        by (auto simp: nvme_exec_def transfer_def buffers_ok_def write_maps)
    next
      case False
      then show ?thesis
        using rd assms nvme_read_cmd [OF wf, of cmd w]
        by (auto simp: nvme_exec_def transfer_def buffers_ok_def)
    qed
  next
    case wr
    show ?thesis
    proof (cases "in_range cmd")
      case True
      then have "readable w (prp1 cmd) (512 * nlb_n cmd)"
        using assms(2) wr by (simp add: buffers_ok_def)
      then show ?thesis
        using wr True assms nvme_write_cmd [OF wf True, of w]
          put_data_blocks [OF assms(1) True, of "ram w" "prp1 cmd"]
        by (auto simp: nvme_exec_def transfer_def)
    next
      case False
      then show ?thesis
        using wr assms nvme_write_cmd_outside [OF wf False, of w]
        by (auto simp: nvme_exec_def transfer_def buffers_ok_def)
    qed
  next
    case other
    then show ?thesis using assms by (auto simp: nvme_exec_def transfer_def)
  qed
qed

end

subsection \<open>One slot\<close>

lemma blocks_are_frame [simp]:
  "blocks_are (s\<lparr>sq_head := h\<rparr>) b = blocks_are s b" "blocks_are (s\<lparr>sq_tail := h\<rparr>) b = blocks_are s b"
  by (simp_all add: blocks_are_def nvme_wf_def nvme_block_def)

lemma blocks_are_advance: "blocks_are s b \<Longrightarrow> blocks_are (nvme_advance_cq s) b"
  using advance_cq_wf [of s] by (simp add: blocks_are_def nvme_block_def)

lemma cq_at_frame [simp]: "cq_at (s\<lparr>sq_head := h\<rparr>) n = cq_at s n"
  by (simp add: cq_at_def)

text \<open>Pointer and phase bit of the code are those of the counter.\<close>

lemma cqe_at:
  assumes "cq_at s n"
  shows "cqe_addr s = acq s + of_nat (n mod nvme_cq_size (aqa s)) * 16"
    and "completion s cmd st = \<lparr>cqe_result = 0, cqe_rsvd = 0, cqe_sq_head = sq_head s, cqe_sq_id = 0,
      cqe_cid = cmd_cid cmd,
      cqe_status = (if even (n div nvme_cq_size (aqa s)) then st OR 0x100 else st)\<rparr>"
proof -
  have tail: "unat (cq_tail s) = n mod nvme_cq_size (aqa s)" using assms by (simp add: cq_at_def)
  have "(of_nat (unat (cq_tail s)) :: u64) = ucast (cq_tail s)" by simp
  then have "(ucast (cq_tail s) :: u64) = of_nat (n mod nvme_cq_size (aqa s))" by (simp only: tail)
  then show "cqe_addr s = acq s + of_nat (n mod nvme_cq_size (aqa s)) * 16" by (simp add: cqe_addr_def)
  show "completion s cmd st = \<lparr>cqe_result = 0, cqe_rsvd = 0, cqe_sq_head = sq_head s, cqe_sq_id = 0,
      cqe_cid = cmd_cid cmd,
      cqe_status = (if even (n div nvme_cq_size (aqa s)) then st OR 0x100 else st)\<rparr>"
    using assms by (simp add: completion_def cq_at_def)
qed

context dma_bus
begin

lemma sq_step_refines:
  assumes "blocks_are s b" and "cq_at s n" and "nvme_cq_size (aqa s) \<le> 65535" and "length c = 64"
    and "disk_step (readable w) (writable w) (asq s) (acq s) (nvme_cq_size (aqa s)) i (b, ram w, n) =
      Some (b', m', n')"
  shows "\<exists>c' s' w'. nvme_sq_step q sz (c, s\<lparr>sq_head := i\<rparr>, w) = Inr (c', s', w') \<and> length c' = 64 \<and>
    blocks_are s' b' \<and> ram w' = m' \<and> cq_at s' n' \<and> readable w' = readable w \<and> writable w' = writable w"
proof -
  let ?s = "s\<lparr>sq_head := i\<rparr>" and ?c = "ram_bytes (ram w) (asq s + ucast i * 64) 64"
  let ?cmd = "cmd_of_bytes ?c"
  obtain st b1 m1 where t: "transfer ?cmd (b, ram w) = (st, b1, m1)" by (cases "transfer ?cmd (b, ram w)")
  have ok: "readable w (asq s + ucast i * 64) 64" "buffers_ok (readable w) (writable w) ?cmd"
    "writable w (cqe_addr ?s) 16" and b': "b' = b1" and n': "n' = Suc n"
    and m': "m' = ram_store m1 (cqe_addr ?s) (cqe_bytes (completion ?s ?cmd st))"
    using assms(5) cqe_at(1) [of ?s n] cqe_at(2) [of ?s n ?cmd st] assms(2)
    by (simp_all add: disk_step_def t Let_def split: if_splits)
  have bs: "blocks_are ?s b" "cq_at ?s n" "nvme_cq_size (aqa ?s) \<le> 65535" using assms(1-3) by simp_all
  obtain s1 w1 where ex: "nvme_exec q ?cmd (?s, w) = Inr (st, s1, w1)" "blocks_are s1 b1" "ram w1 = m1"
    "readable w1 = readable w" "writable w1 = writable w"
    using exec_refines [OF bs(1) ok(2) t] by blast
  obtain w' where w': "edu_nvme_process_cmd q ?cmd (?s, w) = Inr (nvme_advance_cq s1, w')" "ram w' = m'"
    "readable w' = readable w" "writable w' = writable w"
    using process_ram [OF ex(1)] ex(3-5) ok(3) m' by auto
  have "pci_dma_read q (asq s + ucast i * 64) c w = (MEMTX_OK, ?c, w)"
    using read_mapped [of w "asq s + ucast i * 64" c] ok(1) assms(4) by simp
  then have "nvme_sq_step q sz (c, ?s, w) = Inr (?c,
      (nvme_advance_cq s1)\<lparr>sq_head := nvme_sq_next sz (sq_head (nvme_advance_cq s1))\<rparr>, w')"
    using w'(1) by (simp add: nvme_sq_step_def)
  moreover have "cq_at (nvme_advance_cq s1) (Suc n)" by (rule process_cmd_counts [OF w'(1) bs(2,3)])
  ultimately show ?thesis
    using blocks_are_advance [OF ex(2)] w'(2-4) b' n' by auto
qed

lemma nvme_run_refines:
  assumes "blocks_are s b" and "cq_at s n" and "nvme_cq_size (aqa s) \<le> 65535" and "length c = 64"
    and "disk_run (readable w) (writable w) (asq s) (acq s) (nvme_cq_size (aqa s)) is (b, ram w, n) =
      Some (b', m', n')"
  shows "\<exists>s' w'. nvme_run q sz is (c, s, w) = Inr (s', w') \<and> blocks_are s' b' \<and> ram w' = m' \<and> cq_at s' n'"
  using assms
proof (induction "is" arbitrary: c s w b n)
  case (Cons i "is")
  obtain b1 m1 n1 where d: "disk_step (readable w) (writable w) (asq s) (acq s) (nvme_cq_size (aqa s)) i
      (b, ram w, n) = Some (b1, m1, n1)"
    and rest: "disk_run (readable w) (writable w) (asq s) (acq s) (nvme_cq_size (aqa s)) is (b1, m1, n1) =
      Some (b', m', n')"
    using Cons.prems(5) by (auto split: option.splits)
  obtain c1 s1 w1 where s1: "nvme_sq_step q sz (c, s\<lparr>sq_head := i\<rparr>, w) = Inr (c1, s1, w1)"
    "length c1 = 64" "blocks_are s1 b1" "ram w1 = m1" "cq_at s1 n1"
    "readable w1 = readable w" "writable w1 = writable w"
    using sq_step_refines [OF Cons.prems(1-4) d] by blast
  have "aqa s1 = aqa s" "asq s1 = asq s" "acq s1 = acq s" using sq_step_frame [OF s1(1)] by simp_all
  then show ?case
    using Cons.IH [OF s1(3,5) _ s1(2), of w1] Cons.prems(3) rest s1 by simp
qed simp

end

subsection \<open>Properties\<close>

text \<open>C2. The doorbell implements the abstract controller: for every batch of commands, of any mix and
  number, that the abstract controller can execute (the buffers of each command, when its turn
  comes, are mapped), the doorbell returns, the storage holds the blocks of the abstract disk, guest
  memory is the abstract memory, with the data of the READs and one completion entry per command at
  its place and with its phase bit, and the queue is empty.\<close>

theorem nvme_doorbell_refines_disk:
  assumes "dma_bus q ram readable writable" and "nvme_wf s" and "cq_at s n"
    and "nvme_cq_size (aqa s) \<le> 65535" and "sq_head s < nvme_sq_size s"
    and "(ucast val :: u16) < nvme_sq_size s"
    and "disk_run (readable w) (writable w) (asq s) (acq s) (nvme_cq_size (aqa s))
      (nvme_pending (s\<lparr>sq_tail := ucast val\<rparr>)) (nvme_block s, ram w, n) = Some (b', m', n')"
  shows "\<exists>s' w'. edu_nvme_write q NVME_SQ0TDBL val sz (s, w) = Some (Inr (s', w')) \<and>
    map (nvme_block s') [0..<2048] = map b' [0..<2048] \<and> ram w' = m' \<and> cq_at s' n' \<and>
    sq_head s' = ucast val \<and> sq_tail s' = ucast val"
proof -
  let ?s = "s\<lparr>sq_tail := ucast val\<rparr>"
  have bus: "length (uninit q 64 w) = 64" by (rule dma_bus.uninit_length [OF assms(1)])
  have "blocks_are ?s (nvme_block s)" "cq_at ?s n" "nvme_cq_size (aqa ?s) \<le> 65535"
    using assms(2-4) by (simp_all add: blocks_are_def cq_at_def nvme_wf_def nvme_block_def)
  from dma_bus.nvme_run_refines [OF assms(1) this bus, of w "nvme_pending ?s" b' m' n' "nvme_sq_size s"]
  obtain s' w' where run: "nvme_run q (nvme_sq_size s) (nvme_pending ?s) (uninit q 64 w, ?s, w) = Inr (s', w')"
    and a: "blocks_are s' b'" "ram w' = m'" "cq_at s' n'"
    using assms(7) by auto
  have door: "edu_nvme_write q NVME_SQ0TDBL val sz (s, w) = Some (Inr (s', w'))"
    using nvme_doorbell_runs [of ?s val s q sz w] assms(5,6) run by simp
  have "nvme_sq_size ?s = nvme_sq_size s" by (simp add: nvme_sq_size_def)
  then have "sq_head s' = ucast val \<and> sq_tail s' = ucast val"
    using nvme_run_tail [of q "nvme_sq_size s" ?s "uninit q 64 w" w s' w'] run assms(5,6)
    by (simp add: nvme_pending_def word_less_nat_alt)
  then show ?thesis using door a by (simp add: blocks_are_def)
qed

text \<open>A batch: a WRITE of block 5 in slot 0 and a READ of block 9 in slot 1.\<close>

definition batch_guest :: guest where
  "batch_guest = small_guest\<lparr>mem := ram_store (ram_store (mem small_guest) 0
     (cmd_bytes (io_cmd NVME_CMD_WRITE 0x200 5 0))) 0x40 (cmd_bytes (io_cmd NVME_CMD_READ 0x400 9 0))\<rparr>"

lemma batch_memory:
  "ram_bytes (mem batch_guest) 0 64 = cmd_bytes (io_cmd NVME_CMD_WRITE 0x200 5 0)"
  "ram_bytes (mem batch_guest) 0x40 64 = cmd_bytes (io_cmd NVME_CMD_READ 0x400 9 0)"
  "mapped batch_guest a k \<longleftrightarrow> unat a + k \<le> 12288"
proof -
  show "ram_bytes (mem batch_guest) 0 64 = cmd_bytes (io_cmd NVME_CMD_WRITE 0x200 5 0)"
    using ram_bytes_store_same [of "cmd_bytes (io_cmd NVME_CMD_WRITE 0x200 5 0)" "mem small_guest" 0]
    by (simp add: batch_guest_def ram_bytes_store_disjoint disjoint_ranges_def)
  show "ram_bytes (mem batch_guest) 0x40 64 = cmd_bytes (io_cmd NVME_CMD_READ 0x400 9 0)"
    using ram_bytes_store_same [of "cmd_bytes (io_cmd NVME_CMD_READ 0x400 9 0)" _ "0x40"]
    by (simp add: batch_guest_def)
  show "mapped batch_guest a k \<longleftrightarrow> unat a + k \<le> 12288"
    by (simp add: batch_guest_def small_guest_mapped)
qed

lemma batch_runs:
  "\<exists>b' m'. disk_run (mapped batch_guest) (mapped batch_guest) (asq nvme_on) (acq nvme_on)
     (nvme_cq_size (aqa nvme_on)) [0, 1] (b, mem batch_guest, 0) = Some (b', m', 2)"
proof -
  have regs: "asq nvme_on = 0" "acq nvme_on = 0x1000" by (simp_all add: nvme_on_def)
  let ?e = "cqe_bytes \<lparr>cqe_result = 0, cqe_rsvd = 0, cqe_sq_head = 0, cqe_sq_id = 0,
    cqe_cid = cmd_cid (io_cmd NVME_CMD_WRITE 0x200 5 0), cqe_status = 0x100\<rparr>"
  have "\<exists>b1. disk_step (mapped batch_guest) (mapped batch_guest) 0 0x1000 4 0
      (b, mem batch_guest, 0) = Some (b1, ram_store (mem batch_guest) 0x1000 ?e, 1)"
    by (simp add: disk_step_def batch_memory transfer_def buffers_ok_def in_range_def wraps_def Let_def)
  then obtain b1 where one: "disk_step (mapped batch_guest) (mapped batch_guest)
      0 0x1000 4 0 (b, mem batch_guest, 0) = Some (b1, ram_store (mem batch_guest) 0x1000 ?e, 1)"
    by blast
  have "ram_bytes (ram_store (mem batch_guest) 0x1000 ?e) 0x40 64 =
      cmd_bytes (io_cmd NVME_CMD_READ 0x400 9 0)"
    by (simp add: ram_bytes_store_disjoint disjoint_ranges_def batch_memory)
  then have "\<exists>b2 m2. disk_step (mapped batch_guest) (mapped batch_guest) 0 0x1000 4 1
      (b1, ram_store (mem batch_guest) 0x1000 ?e, 1) = Some (b2, m2, 2)"
    by (simp add: disk_step_def batch_memory transfer_def buffers_ok_def in_range_def wraps_def Let_def)
  then show ?thesis using one by (auto simp: regs)
qed

theorem nvme_doorbell_refines_disk_witness:
  "\<exists>b' m' s' w'. disk_run (mapped batch_guest) (mapped batch_guest) (asq nvme_on) (acq nvme_on)
       (nvme_cq_size (aqa nvme_on)) [0, 1] (nvme_block nvme_on, mem batch_guest, 0) = Some (b', m', 2) \<and>
     edu_nvme_write guest_qemu NVME_SQ0TDBL 2 4 (nvme_on, batch_guest) = Some (Inr (s', w')) \<and>
     map (nvme_block s') [0..<2048] = map b' [0..<2048] \<and> mem w' = m' \<and> cq_at s' 2 \<and>
     sq_head s' = 2 \<and> sq_tail s' = 2"
proof -
  obtain b' m' where run: "disk_run (mapped batch_guest) (mapped batch_guest) (asq nvme_on) (acq nvme_on)
      (nvme_cq_size (aqa nvme_on)) [0, 1] (nvme_block nvme_on, mem batch_guest, 0) = Some (b', m', 2)"
    using batch_runs by blast
  have slots: "nvme_pending (nvme_on\<lparr>sq_tail := 2\<rparr>) = [0, 1]"
    by (simp add: nvme_pending_def nvme_sq_size_def cyc_slots_def cyc_dist_def nvme_sq_next_def upt_rec
        word_le_nat_alt)
  have two: "(ucast (2 :: u64) :: u16) = 2" by simp
  have batch: "disk_run (mapped batch_guest) (mapped batch_guest) (asq nvme_on) (acq nvme_on)
      (nvme_cq_size (aqa nvme_on)) (nvme_pending (nvme_on\<lparr>sq_tail := ucast (2 :: u64)\<rparr>))
      (nvme_block nvme_on, mem batch_guest, 0) = Some (b', m', 2)"
    unfolding two slots by (rule run)
  have "cq_at nvme_on 0" by (simp add: cq_at_def nvme_on_def edu_nvme_realized_def)
  then have "\<exists>s' w'. edu_nvme_write guest_qemu NVME_SQ0TDBL 2 4 (nvme_on, batch_guest) =
        Some (Inr (s', w')) \<and>
      map (nvme_block s') [0..<2048] = map b' [0..<2048] \<and> mem w' = m' \<and> cq_at s' 2 \<and>
      sq_head s' = ucast (2 :: u64) \<and> sq_tail s' = ucast (2 :: u64)"
    by (intro nvme_doorbell_refines_disk [OF guest_bus.dma_bus_axioms _ _ _ _ _ batch]) simp_all
  then show ?thesis using run by auto
qed

end
