(* ===== verification/Usb_System.thy ===== *)
theory Usb_System
  imports Usb_Serial Usb_Edu
begin

text \<open>
  Whole sessions with the USB devices. With the serial device a host sends texts, reads, polls the
  notification endpoint and resets the bus in any order: the abstract device holds a counter and at
  most one pending echo, and the handlers of \<open>dev-edu-serial.c\<close> implement it. With the counter device
  a host submits any packet to any endpoint: the handlers of \<open>dev-edu.c\<close> are a 32-bit register.
\<close>

subsection \<open>Sessions\<close>

datatype host_op = Send "byte list" | Receive nat | Notify nat | Bus_Reset

datatype reply = Sent | Data "byte list" | Nak | Stalled | Reset_Done

definition reply_of :: "USBPacket \<Rightarrow> reply" where
  "reply_of p =
     (if status p = USB_RET_NAK then Nak
      else if status p = USB_RET_STALL then Stalled
      else if pid p = USB_TOKEN_IN then Data (take (actual_length p) (iov p))
      else Sent)"

text \<open>\<open>stack\<close> is what the stack held at the place of the handler's local buffer.\<close>

fun serial_op ::
  "packet_copy \<Rightarrow> (nat \<Rightarrow> byte) \<Rightarrow> host_op \<Rightarrow> USBEduSerialState \<Rightarrow> (reply \<times> USBEduSerialState) res" where
  "serial_op copy stack (Send d) s =
     res_bind (usb_edu_serial_handle_data copy stack (out_packet 3 d) s) (\<lambda>(p, s). Inr (reply_of p, s))"
| "serial_op copy stack (Receive n) s =
     res_bind (usb_edu_serial_handle_data copy stack (in_packet 2 n) s) (\<lambda>(p, s). Inr (reply_of p, s))"
| "serial_op copy stack (Notify n) s =
     res_bind (usb_edu_serial_handle_data copy stack (in_packet 1 n) s) (\<lambda>(p, s). Inr (reply_of p, s))"
| "serial_op copy stack Bus_Reset s = Inr (Reset_Done, usb_edu_serial_reset s)"

fun serial_session ::
  "packet_copy \<Rightarrow> (host_op \<times> (nat \<Rightarrow> byte)) list \<Rightarrow> USBEduSerialState \<Rightarrow> (reply list \<times> USBEduSerialState) res" where
  "serial_session copy [] s = Inr ([], s)"
| "serial_session copy ((op, stack) # ops) s =
     res_bind (serial_op copy stack op s) (\<lambda>(r, s).
       res_bind (serial_session copy ops s) (\<lambda>(rs, s). Inr (r # rs, s)))"

subsection \<open>The abstract device\<close>

text \<open>An echo of more than 63 bytes is cut and keeps a NUL as its last byte.\<close>

definition cut_echo :: "byte list \<Rightarrow> byte list" where
  "cut_echo t = (if length t \<le> 63 then t else take 63 t @ [0])"

type_synonym echo_state = "u32 \<times> byte list option"

fun echo_op :: "host_op \<Rightarrow> echo_state \<Rightarrow> reply \<times> echo_state" where
  "echo_op (Send d) (c, t) = (Sent, c + 1, Some (cut_echo (echo_text (c + 1) d)))"
| "echo_op (Receive n) (c, None) = (Nak, c, None)"
| "echo_op (Receive n) (c, Some t) = (Data (take n t), c, None)"
| "echo_op (Notify n) a = (Nak, a)"
| "echo_op Bus_Reset a = (Reset_Done, 0, None)"

fun echo_session :: "host_op list \<Rightarrow> echo_state \<Rightarrow> reply list" where
  "echo_session [] a = []"
| "echo_session (op # ops) a = (let (r, a) = echo_op op a in r # echo_session ops a)"

text \<open>What a host may send without harm: C strings that do not fill a packet, and reads of at most
  one packet.\<close>

fun harmless :: "host_op \<Rightarrow> bool" where
  "harmless (Send d) = (length d < 64 \<and> 0 \<notin> set d)"
| "harmless (Receive n) = (n \<le> 64)"
| "harmless _ = True"

definition echo_rel :: "USBEduSerialState \<Rightarrow> echo_state \<Rightarrow> bool" where
  "echo_rel s a \<longleftrightarrow> length (rx_buf s) = 64 \<and> counter s = fst a \<and>
     (case snd a of
        None \<Rightarrow> rx_len s = 0
      | Some t \<Rightarrow> 0 < rx_len s \<and> take (min (rx_len s) 64) (rx_buf s) = t)"

lemma cut_echo_buffer:
  assumes "length b = 64"
  shows "take (min (length t) 64) (memcpy b 0 (take 63 t @ [0])) = cut_echo t"
proof (cases "length t \<le> 63")
  case True
  then show ?thesis by (simp add: memcpy_def cut_echo_def)
next
  case False
  then have "min (length t) 64 = 64" "length (take 63 t) = 63" by simp_all
  then show ?thesis using False assms by (simp add: memcpy_def cut_echo_def)
qed

lemma packet_status [simp]:
  "status (in_packet ep n) = USB_RET_SUCCESS" "status (out_packet ep d) = USB_RET_SUCCESS"
  by (simp_all add: in_packet_def out_packet_def)

context usb_core
begin

lemma send_up_to:
  assumes "0 < rx_len s" and "m = min (rx_len s) n" and "m \<le> length (rx_buf s)"
  shows "serial_send usb_packet_copy (in_packet 2 n) s =
    Inr ((in_packet 2 n)\<lparr>iov := take m (rx_buf s) @ replicate (n - m) 0, actual_length := m\<rparr>,
         s\<lparr>rx_len := 0\<rparr>)"
proof -
  have "memcpy (rx_buf s) 0 (take m (rx_buf s)) = rx_buf s"
    using assms(3) by (simp add: memcpy_def)
  moreover have "length (take m (rx_buf s)) = m" "m \<le> n" using assms(2,3) by simp_all
  ultimately show ?thesis
    using copy_in_packet [of "take m (rx_buf s)" n 2] assms
    by (cases s; cases "n < rx_len s") (simp_all add: serial_send_def copy_array_def Let_def)
qed

lemma pending_reply:
  assumes "0 < rx_len s" and "length (rx_buf s) = 64" and "n \<le> 64"
  shows "serial_op usb_packet_copy stack (Receive n) s =
    Inr (Data (take n (take (min (rx_len s) 64) (rx_buf s))), s\<lparr>rx_len := 0\<rparr>)"
proof -
  let ?m = "min (rx_len s) n"
  have m: "?m \<le> length (rx_buf s)" using assms(2,3) by simp
  have "min n (min (rx_len s) 64) = ?m" using assms(3) by simp
  then have "take n (take (min (rx_len s) 64) (rx_buf s)) = take ?m (rx_buf s)" by (simp only: take_take)
  then show ?thesis
    using send_up_to [OF assms(1) refl m] assms(2,3)
    by (simp add: usb_edu_serial_handle_data_def reply_of_def)
qed

lemma echo_step:
  assumes "echo_rel s a" and "harmless op" and "echo_op op a = (r, a')"
  shows "\<exists>s'. serial_op usb_packet_copy stack op s = Inr (r, s') \<and> echo_rel s' a'"
proof -
  have s: "length (rx_buf s) = 64" "counter s = fst a" using assms(1) by (simp_all add: echo_rel_def)
  show ?thesis
  proof (cases op)
    case (Send d)
    let ?t = "echo_text (counter s + 1) d"
    have d: "length d < 64" "0 \<notin> set d" using assms(2) by (simp_all add: Send)
    have "0 < length ?t" by (simp add: echo_text_def)
    moreover have "r = Sent" "a' = (counter s + 1, Some (cut_echo ?t))"
      using assms(3) s(2) by (cases a; simp add: Send)+
    ultimately show ?thesis
      using receive_echo [OF _ s(1) d(2) refl, of "local_array 64 stack"] d(1) cut_echo_buffer [OF s(1), of ?t] s(1)
      by (simp add: Send usb_edu_serial_handle_data_def Let_def reply_of_def echo_rel_def out_packet_def)
  next
    case (Receive n)
    show ?thesis
    proof (cases "snd a")
      case None
      then have "rx_len s = 0" using assms(1) by (simp add: echo_rel_def)
      moreover have "r = Nak" "a' = a" using assms(3) None by (cases a; simp add: Receive)+
      ultimately show ?thesis
        using assms(1)
        by (simp add: Receive usb_edu_serial_handle_data_def serial_send_def reply_of_def)
    next
      case (Some t)
      then have t: "0 < rx_len s" "take (min (rx_len s) 64) (rx_buf s) = t"
        using assms(1) by (simp_all add: echo_rel_def)
      have "r = Data (take n t)" "a' = (counter s, None)"
        using assms(3) Some s(2) by (cases a; simp add: Receive)+
      then show ?thesis
        using pending_reply [OF t(1) s(1), of n stack] t(2) assms(2) s
        by (simp add: Receive echo_rel_def)
    qed
  next
    case (Notify n)
    then show ?thesis
      using assms(1,3) by (auto simp: usb_edu_serial_handle_data_def reply_of_def)
  next
    case Bus_Reset
    then show ?thesis
      using assms(3) s(1) by (auto simp: usb_edu_serial_reset_def echo_rel_def)
  qed
qed

lemma session_refines:
  assumes "echo_rel s a" and "list_all (\<lambda>(op, stack). harmless op) ops"
  shows "\<exists>s'. serial_session usb_packet_copy ops s = Inr (echo_session (map fst ops) a, s')"
  using assms
proof (induction ops arbitrary: s a)
  case (Cons x ops)
  obtain op stack where x: "x = (op, stack)" by (cases x)
  obtain r a' where ra: "echo_op op a = (r, a')" by (cases "echo_op op a")
  obtain s1 where s1: "serial_op usb_packet_copy stack op s = Inr (r, s1)" "echo_rel s1 a'"
    using echo_step [OF Cons.prems(1) _ ra, of stack] Cons.prems(2) x by auto
  then obtain s' where "serial_session usb_packet_copy ops s1 = Inr (echo_session (map fst ops) a', s')"
    using Cons.IH [of s1 a'] Cons.prems(2) by auto
  then show ?case using s1(1) ra by (simp add: x)
qed simp

end

subsection \<open>The counter device\<close>

text \<open>Any packet to any endpoint, and a reset.\<close>

datatype edu_packet = In nat nat | Out nat "byte list" | Edu_Reset

fun edu_op ::
  "packet_copy \<Rightarrow> byte list \<Rightarrow> edu_packet \<Rightarrow> USBEduState \<Rightarrow> (reply \<times> USBEduState) res" where
  "edu_op copy stack (In ep n) s =
     res_bind (usb_edu_handle_data copy stack (in_packet ep n) s) (\<lambda>(p, s). Inr (reply_of p, s))"
| "edu_op copy stack (Out ep d) s =
     res_bind (usb_edu_handle_data copy stack (out_packet ep d) s) (\<lambda>(p, s). Inr (reply_of p, s))"
| "edu_op copy stack Edu_Reset s = Inr (Reset_Done, usb_edu_handle_reset s)"

text \<open>The register: endpoint 1 reads it, endpoint 2 writes it, a packet of the other direction is
  ignored, any other endpoint stalls; a short packet aborts the emulator.\<close>

fun register_op :: "edu_packet \<Rightarrow> u32 \<Rightarrow> (reply \<times> u32) res" where
  "register_op (In ep n) c =
     (if ep = 1 then (if n < 4 then Inl Assertion_Failed else Inr (Data (le_bytes 4 c), c))
      else Inr (if ep = 2 then Data [] else Stalled, c))"
| "register_op (Out ep d) c =
     (if ep = 2 then (if length d < 4 then Inl Assertion_Failed else Inr (Sent, le_word (take 4 d)))
      else Inr (if ep = 1 then Sent else Stalled, c))"
| "register_op Edu_Reset c = Inr (Reset_Done, 0)"

fun edu_session ::
  "packet_copy \<Rightarrow> (edu_packet \<times> byte list) list \<Rightarrow> USBEduState \<Rightarrow> (reply list \<times> USBEduState) res" where
  "edu_session copy [] s = Inr ([], s)"
| "edu_session copy ((op, stack) # ops) s =
     res_bind (edu_op copy stack op s) (\<lambda>(r, s).
       res_bind (edu_session copy ops s) (\<lambda>(rs, s). Inr (r # rs, s)))"

fun register_session :: "edu_packet list \<Rightarrow> u32 \<Rightarrow> (reply list \<times> u32) res" where
  "register_session [] c = Inr ([], c)"
| "register_session (op # ops) c =
     res_bind (register_op op c) (\<lambda>(r, c).
       res_bind (register_session ops c) (\<lambda>(rs, c). Inr (r # rs, c)))"

context usb_core
begin

lemma edu_op_register:
  assumes "length stack = 64"
  shows "edu_op usb_packet_copy stack op s =
    res_bind (register_op op (edu_counter s)) (\<lambda>(r, c). Inr (r, s\<lparr>edu_counter := c\<rparr>))"
proof (cases op)
  case (In ep n)
  have "usb_packet_copy (in_packet 1 n) buf = Inl Assertion_Failed" if "n < 4" "length buf = 4" for buf
    using copy_overrun [of "in_packet 1 n" buf] that by simp
  then show ?thesis
    using handle_in [of n stack s]
    by (cases "n < 4") (auto simp: In usb_edu_handle_data_def reply_of_def)
next
  case (Out ep d)
  have "usb_packet_copy (out_packet 2 d) buf = Inl Assertion_Failed" if "length d < 4" "length buf = 4" for buf
    using copy_overrun [of "out_packet 2 d" buf] that by simp
  then show ?thesis
    using handle_out [OF assms, of d s] assms
    by (cases "length d < 4") (auto simp: Out usb_edu_handle_data_def reply_of_def)
next
  case Edu_Reset
  then show ?thesis by (simp add: usb_edu_handle_reset_def)
qed

lemma edu_session_register:
  assumes "list_all (\<lambda>(op, stack). length stack = 64) ops"
  shows "edu_session usb_packet_copy ops s =
    res_bind (register_session (map fst ops) (edu_counter s)) (\<lambda>(rs, c). Inr (rs, s\<lparr>edu_counter := c\<rparr>))"
  using assms
proof (induction ops arbitrary: s)
  case (Cons x ops)
  obtain op stack where x: "x = (op, stack)" by (cases x)
  have "edu_op usb_packet_copy stack op s =
      res_bind (register_op op (edu_counter s)) (\<lambda>(r, c). Inr (r, s\<lparr>edu_counter := c\<rparr>))"
    using Cons.prems x by (intro edu_op_register) simp
  then show ?case
    using Cons.IH Cons.prems
    by (cases "register_op op (edu_counter s)")
       (auto simp: x case_prod_beta res_bind_def split: sum.splits)
qed simp

end

subsection \<open>Properties\<close>

text \<open>C16. The counter device is a register: for every sequence of packets, of any length, to any
  endpoint in either direction, and of resets, the replies, the final counter and the abort at the
  first short packet are those of a 32-bit little-endian register.\<close>

theorem usb_session_is_register:
  assumes "usb_core copy" and "list_all (\<lambda>(op, stack). length stack = 64) ops"
  shows "edu_session copy ops s =
    res_bind (register_session (map fst ops) (edu_counter s)) (\<lambda>(rs, c). Inr (rs, s\<lparr>edu_counter := c\<rparr>))"
  by (rule usb_core.edu_session_register [OF assms])

theorem usb_session_is_register_witness:
  "edu_session iov_copy (map (\<lambda>op. (op, replicate 64 0xAA))
       [Out 2 [0x78, 0x56, 0x34, 0x12], In 3 8, In 1 64, In 1 2, Edu_Reset]) \<lparr>edu_counter = 9\<rparr> =
     Inl Assertion_Failed \<and>
   edu_session iov_copy (map (\<lambda>op. (op, replicate 64 0xAA))
       [Out 2 [0x78, 0x56, 0x34, 0x12], In 3 8, In 2 8]) \<lparr>edu_counter = 9\<rparr> =
     Inr ([Sent, Stalled, Data []], \<lparr>edu_counter = 0x12345678\<rparr>)"
proof -
  have "le_word [0x78, 0x56, 0x34, 0x12] = (0x12345678 :: u32)" by simp
  then show ?thesis
    using usb_session_is_register [OF usb.usb_core_axioms, of "map (\<lambda>op. (op, replicate 64 0xAA))
        [Out 2 [0x78, 0x56, 0x34, 0x12], In 3 8, In 1 64, In 1 2, Edu_Reset]" "\<lparr>edu_counter = 9\<rparr>"]
      usb_session_is_register [OF usb.usb_core_axioms, of "map (\<lambda>op. (op, replicate 64 0xAA))
        [Out 2 [0x78, 0x56, 0x34, 0x12], In 3 8, In 2 8]" "\<lparr>edu_counter = 9\<rparr>"]
    by (simp del: edu_session.simps le_word.simps)
qed


text \<open>C15. Every session with the serial device refines the abstract one: as long as the host sends C
  strings shorter than a packet and reads at most one packet at a time, in any order and with
  resets at any point, the handlers never fault and the replies are those of a device that counts
  the texts since reset, keeps the last echo until it is read once, and answers NAK otherwise.\<close>

theorem serial_session_refines_echo:
  assumes "usb_core copy" and "length (rx_buf s) = 64" and "rx_len s = 0"
    and "list_all (\<lambda>(op, stack). harmless op) ops"
  shows "\<exists>s'. serial_session copy ops s = Inr (echo_session (map fst ops) (counter s, None), s')"
  by (rule usb_core.session_refines [OF assms(1) _ assms(4)]) (simp add: echo_rel_def assms(2,3))

theorem serial_session_refines_echo_witness:
  "\<exists>s'. serial_session iov_copy
       (map (\<lambda>op. (op, \<lambda>_. 0xAA)) [Receive 64, Send [0x68, 0x69], Send [0x79], Receive 64, Receive 64])
       serial_reset_state =
     Inr ([Nak, Sent, Sent, Data [0x5B, 0x32, 0x5D, 0x20, 0x79], Nak], s')"
proof -
  have "format_d 2 = [0x32]" by (simp add: format_d_def dec_digits.simps)
  then show ?thesis
    using serial_session_refines_echo [OF usb.usb_core_axioms, of serial_reset_state
        "map (\<lambda>op. (op, \<lambda>_. 0xAA)) [Receive 64, Send [0x68, 0x69], Send [0x79], Receive 64, Receive 64]"]
    by (simp add: serial_reset_state_def cut_echo_def echo_text_def format_d_1 del: serial_session.simps)
qed

end
