(* ===== verification/Epoll_Demo.thy ===== *)
theory Epoll_Demo
  imports Prelude
begin

text \<open>
  The two threads of \<open>examples/epoll_demo.c\<close>: one signals an eventfd three times, the other runs an
  event loop over the eventfd, a listening socket and its clients. The system calls are parameters;
  the locale \<open>event_kernel\<close> states what the loop relies on, and \<open>small_kernel\<close> is a kernel that
  obeys it. Steps of the threads interleave in any order.
\<close>

subsection \<open>System calls\<close>

text \<open>
  The calls of the set-up return a descriptor or a result code, negative when they fail.
  Calls that may block return an option, with \<open>None\<close> while they would. \<open>efd_read\<close> and \<open>efd_write\<close>
  are \<open>read\<close> and \<open>write\<close> of the eventfd with a 64-bit value; \<open>epoll_wait S ep n\<close> returns the
  descriptors of the events it stores, at most \<open>n\<close>, and no event when it fails. \<open>read_fd S fd n\<close>
  returns the result code and the bytes stored.
\<close>

record sockaddr_in =
  sin_family :: u16
  sin_port :: u16
  sin_addr :: u32

record 'k sys =
  eventfd :: "u32 \<Rightarrow> 'k \<Rightarrow> int \<times> 'k"
  socket_stream :: "'k \<Rightarrow> int \<times> 'k"
  set_reuseaddr :: "int \<Rightarrow> int \<Rightarrow> 'k \<Rightarrow> int \<times> 'k"
  bind_inet :: "int \<Rightarrow> sockaddr_in \<Rightarrow> 'k \<Rightarrow> int \<times> 'k"
  listen_fd :: "int \<Rightarrow> nat \<Rightarrow> 'k \<Rightarrow> int \<times> 'k"
  epoll_create :: "'k \<Rightarrow> int \<times> 'k"
  efd_read :: "'k \<Rightarrow> (u64 \<times> 'k) option"
  efd_write :: "u64 \<Rightarrow> 'k \<Rightarrow> 'k option"
  epoll_wait :: "int \<Rightarrow> nat \<Rightarrow> 'k \<Rightarrow> (int list \<times> 'k) option"
  epoll_add :: "int \<Rightarrow> int \<Rightarrow> 'k \<Rightarrow> 'k"
  epoll_del :: "int \<Rightarrow> int \<Rightarrow> 'k \<Rightarrow> 'k"
  accept :: "int \<Rightarrow> 'k \<Rightarrow> (int \<times> 'k) option"
  read_fd :: "int \<Rightarrow> nat \<Rightarrow> 'k \<Rightarrow> (int \<times> byte list \<times> 'k) option"
  write_fd :: "int \<Rightarrow> byte list \<Rightarrow> 'k \<Rightarrow> 'k"
  close_fd :: "int \<Rightarrow> 'k \<Rightarrow> 'k"

subsection \<open>The two threads\<close>

text \<open>What the threads print.\<close>

datatype line = Banner string | Sending nat | Got_Event u64 | New_Connection int | Client_Data int "byte list"
  | Disconnected int

text \<open>
  \<open>sig_next\<close> is the loop variable of the signal thread, \<open>batch\<close> the events of the last
  \<open>epoll_wait\<close> that the event loop has not handled yet.
\<close>

record 'k demo =
  sig_next :: nat
  batch :: "int list"
  printed :: "line list"
  kern :: 'k

definition signal_event :: "'k sys \<Rightarrow> 'k demo \<Rightarrow> 'k demo option" where
  "signal_event S st =
     map_option (\<lambda>k. st\<lparr>sig_next := sig_next st + 1, printed := printed st @ [Sending (sig_next st)],
                        kern := k\<rparr>)
       (efd_write S (of_nat (sig_next st)) (kern st))"

definition handle_custom :: "'k sys \<Rightarrow> 'k demo \<Rightarrow> 'k demo option" where
  "handle_custom S st =
     map_option (\<lambda>(val, k). st\<lparr>printed := printed st @ [Got_Event val], kern := k\<rparr>)
       (efd_read S (kern st))"

definition handle_connection :: "'k sys \<Rightarrow> int \<Rightarrow> int \<Rightarrow> 'k demo \<Rightarrow> 'k demo option" where
  "handle_connection S epfd server st =
     map_option (\<lambda>(client, k). st\<lparr>printed := printed st @ [New_Connection client],
                                  kern := epoll_add S epfd client k\<rparr>)
       (accept S server (kern st))"

definition handle_client :: "'k sys \<Rightarrow> int \<Rightarrow> int \<Rightarrow> 'k demo \<Rightarrow> 'k demo option" where
  "handle_client S epfd fd st =
     map_option (\<lambda>(len, buf, k).
         if len \<le> 0 then st\<lparr>printed := printed st @ [Disconnected fd],
                            kern := close_fd S fd (epoll_del S epfd fd k)\<rparr>
         else st\<lparr>printed := printed st @ [Client_Data fd (takeWhile (\<lambda>b. b \<noteq> 0) (take (nat len) buf))],
                 kern := write_fd S fd [0x4F, 0x4B, 0x0A] k\<rparr>)
       (read_fd S fd 255 (kern st))"

definition handle_event :: "'k sys \<Rightarrow> int \<Rightarrow> int \<Rightarrow> int \<Rightarrow> int \<Rightarrow> 'k demo \<Rightarrow> 'k demo option" where
  "handle_event S epfd efd server fd st =
     (if fd = efd then handle_custom S st
      else if fd = server then handle_connection S epfd server st
      else handle_client S epfd fd st)"

inductive demo_step :: "'k sys \<Rightarrow> int \<Rightarrow> int \<Rightarrow> int \<Rightarrow> 'k demo \<Rightarrow> 'k demo \<Rightarrow> bool"
  for S epfd efd server where
  signal: "sig_next st \<le> 3 \<Longrightarrow> signal_event S st = Some st' \<Longrightarrow> demo_step S epfd efd server st st'"
| wait: "batch st = [] \<Longrightarrow> epoll_wait S epfd 10 (kern st) = Some (fds, k) \<Longrightarrow>
     demo_step S epfd efd server st (st\<lparr>batch := fds, kern := k\<rparr>)"
| handle: "batch st = fd # rest \<Longrightarrow> handle_event S epfd efd server fd (st\<lparr>batch := rest\<rparr>) = Some st' \<Longrightarrow>
     demo_step S epfd efd server st st'"

text \<open>Network byte order on a little-endian host.\<close>

definition htons :: "u16 \<Rightarrow> u16" where
  "htons x = push_bit 8 x OR drop_bit 8 x"

definition demo_start :: "'k \<Rightarrow> 'k demo" where
  "demo_start k = \<lparr>sig_next = 1, batch = [], printed = [], kern = k\<rparr>"

subsection \<open>What the loop relies on\<close>

text \<open>
  \<open>count\<close> is the counter of the eventfd. Reading returns it and resets it, and blocks while it is 0;
  writing adds to it and does not block while the sum fits. \<open>epoll_wait\<close> returns each ready
  descriptor once, the eventfd only while its counter is not 0. Nothing else touches the counter.
\<close>

locale event_kernel =
  fixes S :: "'k sys"
    and efd :: int
    and count :: "'k \<Rightarrow> nat"
  assumes read_blocks: "efd_read S k = None \<longleftrightarrow> count k = 0"
    and read_resets: "efd_read S k = Some (v, k') \<Longrightarrow> unat v = count k \<and> count k' = 0"
    and write_adds:
      "count k + unat v < 2 ^ 64 - 1 \<Longrightarrow> \<exists>k'. efd_write S v k = Some k' \<and> count k' = count k + unat v"
    and wait_ready:
      "epoll_wait S ep n k = Some (fds, k') \<Longrightarrow>
       distinct fds \<and> (efd \<in> set fds \<longrightarrow> 0 < count k) \<and> count k' = count k"
    and accept_count: "accept S srv k = Some (c, k') \<Longrightarrow> count k' = count k"
    and read_count: "fd \<noteq> efd \<Longrightarrow> read_fd S fd n k = Some (r, d, k') \<Longrightarrow> count k' = count k"
    and others:
      "count (epoll_add S ep fd k) = count k" "count (epoll_del S ep fd k) = count k"
      "fd \<noteq> efd \<Longrightarrow> count (write_fd S fd d k) = count k"
      "fd \<noteq> efd \<Longrightarrow> count (close_fd S fd k) = count k"

fun got :: "line list \<Rightarrow> nat list" where
  "got [] = []"
| "got (Got_Event v # ls) = unat v # got ls"
| "got (_ # ls) = got ls"

lemma got_append [simp]: "got (xs @ ys) = got xs @ got ys"
  by (induction xs rule: got.induct) simp_all

text \<open>What was read and what is still in the counter is what was written; each read consumes at
  least one write; a pending event of the eventfd means its counter is not 0.\<close>

definition demo_inv :: "int \<Rightarrow> ('k \<Rightarrow> nat) \<Rightarrow> 'k demo \<Rightarrow> bool" where
  "demo_inv efd count st \<longleftrightarrow> 1 \<le> sig_next st \<and> sig_next st \<le> 4 \<and>
     sum_list (got (printed st)) + count (kern st) = sum_list [1..<sig_next st] \<and>
     length (got (printed st)) + (if count (kern st) = 0 then 0 else 1) < sig_next st \<and>
     distinct (batch st) \<and> (efd \<in> set (batch st) \<longrightarrow> 0 < count (kern st))"

context event_kernel
begin

lemma other_event:
  assumes "handle_event S epfd efd server fd st = Some st'" and "fd \<noteq> efd"
  shows "sig_next st' = sig_next st \<and> batch st' = batch st \<and> got (printed st') = got (printed st) \<and>
         count (kern st') = count (kern st)"
  using assms
  by (auto simp: handle_event_def handle_connection_def handle_client_def others(1,2)
      others(3,4) [OF assms(2)] dest!: accept_count read_count [OF assms(2)] split: if_splits)

lemma demo_step_inv:
  assumes "demo_step S epfd efd server st st'" and "demo_inv efd count st"
  shows "demo_inv efd count st'"
  using assms(1)
proof cases
  case signal
  let ?i = "sig_next st"
  have inv: "sum_list (got (printed st)) + count (kern st) = sum_list [1..<?i]" "1 \<le> ?i"
    "length (got (printed st)) + (if count (kern st) = 0 then 0 else 1) < ?i"
    "distinct (batch st)" "efd \<in> set (batch st) \<longrightarrow> 0 < count (kern st)"
    using assms(2) by (simp_all add: demo_inv_def)
  have i: "?i = 1 \<or> ?i = 2 \<or> ?i = 3" using inv(2) signal(1) by linarith
  then have u: "unat (of_nat ?i :: u64) = ?i" by (elim disjE) simp_all
  have "sum_list [1..<?i] \<le> 6" using i by (elim disjE) (simp_all add: upt_rec)
  then have "count (kern st) + unat (of_nat ?i :: u64) < 2 ^ 64 - 1"
    unfolding u using inv(1) signal(1) by simp
  from write_adds [OF this] obtain k where k: "efd_write S (of_nat ?i) (kern st) = Some k"
    "count k = count (kern st) + ?i" unfolding u by blast
  then have st': "st' = st\<lparr>sig_next := ?i + 1, printed := printed st @ [Sending ?i], kern := k\<rparr>"
    using signal(2) by (simp add: signal_event_def)
  have "sum_list [1..<?i + 1] = sum_list [1..<?i] + ?i" using inv(2) by simp
  then show ?thesis using inv k(2) signal(1) by (simp add: st' demo_inv_def)
next
  case (wait fds k)
  then show ?thesis using wait_ready [OF wait(3)] assms(2) by (simp add: demo_inv_def)
next
  case (handle fd rest)
  show ?thesis
  proof (cases "fd = efd")
    case True
    then obtain v k where v: "efd_read S (kern st) = Some (v, k)"
      "st' = st\<lparr>batch := rest, printed := printed st @ [Got_Event v], kern := k\<rparr>"
      using handle(2) by (auto simp: handle_event_def handle_custom_def)
    then show ?thesis
      using read_resets [OF v(1)] assms(2) handle(1) True by (auto simp: demo_inv_def)
  next
    case False
    then have "sig_next st' = sig_next st" "batch st' = rest"
      "got (printed st') = got (printed st)" "count (kern st') = count (kern st)"
      using other_event [of epfd server fd "st\<lparr>batch := rest\<rparr>" st'] handle(2) by simp_all
    then show ?thesis using assms(2) handle(1) by (auto simp: demo_inv_def)
  qed
qed

end

sublocale event_kernel \<subseteq> demo: stepper "demo_step S epfd efd server" "demo_inv efd count" for epfd server
  by unfold_locales (rule demo_step_inv)

context event_kernel
begin

lemma demo_start_inv: "count k = 0 \<Longrightarrow> demo_inv efd count (demo_start k)"
  by (simp add: demo_inv_def demo_start_def)

lemma demo_reachable_inv:
  "(demo_step S epfd efd server)\<^sup>*\<^sup>* (demo_start k) st \<Longrightarrow> count k = 0 \<Longrightarrow> demo_inv efd count st"
  using demo.run_good demo_start_inv by blast

text \<open>The handler of an event of the eventfd never blocks, and takes all of the counter.\<close>

lemma custom_event_drains:
  assumes "demo_inv efd count st" and "batch st = efd # rest"
  shows "\<exists>st'. demo_step S epfd efd server st st' \<and> batch st' = rest \<and>
    got (printed st') = got (printed st) @ [count (kern st)] \<and> count (kern st') = 0"
proof -
  have "0 < count (kern st)" using assms by (simp add: demo_inv_def)
  then obtain v k where rd: "efd_read S (kern st) = Some (v, k)"
    using read_blocks [of "kern st"] by (cases "efd_read S (kern st)") auto
  let ?st = "st\<lparr>batch := rest, printed := printed st @ [Got_Event v], kern := k\<rparr>"
  have "handle_event S epfd efd server efd (st\<lparr>batch := rest\<rparr>) = Some ?st"
    using rd by (simp add: handle_event_def handle_custom_def)
  from demo_step.handle [OF assms(2) this] show ?thesis
    using read_resets [OF rd] by (intro exI [of _ ?st]) simp
qed

end

subsection \<open>The set-up of \<open>main\<close>\<close>

text \<open>
  What \<open>main\<close> does before its loop: it returns the descriptors of the epoll instance, the eventfd
  and the server socket, and the state in which the signal thread runs and the loop starts. The
  program checks no result. (The banners come before the first signal, which is sent after a sleep.)
\<close>

definition demo_main :: "'k sys \<Rightarrow> 'k \<Rightarrow> int \<times> int \<times> int \<times> 'k demo" where
  "demo_main S k =
     (let (efd, k) = eventfd S 0 k;
          (server, k) = socket_stream S k;
          (_, k) = set_reuseaddr S server 1 k;
          (_, k) = bind_inet S server \<lparr>sin_family = 2, sin_port = htons 8080, sin_addr = 0\<rparr> k;
          (_, k) = listen_fd S server 5 k;
          (epfd, k) = epoll_create S k;
          k = epoll_add S epfd efd k;
          k = epoll_add S epfd server k
      in (epfd, efd, server,
          (demo_start k)\<lparr>printed := [Banner ''Server listening on port 8080'',
             Banner ''Event loop started (Ctrl+C to exit)'', Banner ''Try: nc localhost 8080'']\<rparr>))"

text \<open>
  \<open>watch k ep\<close> is the interest list of the epoll instance \<open>ep\<close>. A registration of an open
  descriptor is added to it (the kernel has the memory for it), only a removal or a \<open>close\<close> of the
  descriptor takes it out, and \<open>epoll_wait\<close> does not block while a registered eventfd is ready.
\<close>

locale demo_kernel = event_kernel S efd count
  for S :: "'k sys" and efd :: int and count :: "'k \<Rightarrow> nat" +
  fixes watch :: "'k \<Rightarrow> int \<Rightarrow> int set"
  assumes eventfd_count: "eventfd S i k = (efd, k') \<Longrightarrow> 0 \<le> efd \<Longrightarrow> count k' = unat i"
    and setup_count:
      "count (snd (socket_stream S k)) = count k" "count (snd (set_reuseaddr S fd b k)) = count k"
      "count (snd (bind_inet S fd a k)) = count k" "count (snd (listen_fd S fd n k)) = count k"
      "count (snd (epoll_create S k)) = count k"
    and add_watch: "0 \<le> ep \<Longrightarrow> 0 \<le> fd \<Longrightarrow> insert fd (watch k ep) \<subseteq> watch (epoll_add S ep fd k) ep"
    and add_keeps: "watch k ep \<subseteq> watch (epoll_add S ep fd k) ep"
    and del_keeps: "watch k ep - {fd} \<subseteq> watch (epoll_del S ep fd k) ep"
    and close_keeps: "watch k ep - {fd} \<subseteq> watch (close_fd S fd k) ep"
    and io_keeps:
      "efd_read S k = Some (v, k') \<Longrightarrow> watch k ep \<subseteq> watch k' ep"
      "efd_write S v k = Some k' \<Longrightarrow> watch k ep \<subseteq> watch k' ep"
      "epoll_wait S ep n k = Some (fds, k') \<Longrightarrow> watch k ep \<subseteq> watch k' ep"
      "accept S fd k = Some (c, k') \<Longrightarrow> watch k ep \<subseteq> watch k' ep"
      "read_fd S fd n k = Some (r, d, k') \<Longrightarrow> watch k ep \<subseteq> watch k' ep"
      "watch k ep \<subseteq> watch (write_fd S fd d k) ep"
    and wait_returns: "efd \<in> watch k ep \<Longrightarrow> 0 < count k \<Longrightarrow> 0 < n \<Longrightarrow> epoll_wait S ep n k \<noteq> None"
begin

lemma main_start:
  assumes "demo_main S k = (epfd, efd, server, st)" and "0 \<le> epfd" and "0 \<le> efd" and "0 \<le> server"
  shows "demo_inv efd count st" and "{efd, server} \<subseteq> watch (kern st) epfd"
proof -
  let ?addr = "\<lparr>sin_family = 2, sin_port = htons 8080, sin_addr = 0\<rparr>"
  obtain k1 k2 r3 k3 r4 k4 r5 k5 k6 where calls: "eventfd S 0 k = (efd, k1)"
      "socket_stream S k1 = (server, k2)" "set_reuseaddr S server 1 k2 = (r3, k3)"
      "bind_inet S server ?addr k3 = (r4, k4)" "listen_fd S server 5 k4 = (r5, k5)"
      "epoll_create S k5 = (epfd, k6)"
    and st: "st = (demo_start (epoll_add S epfd server (epoll_add S epfd efd k6)))\<lparr>printed := [
       Banner ''Server listening on port 8080'', Banner ''Event loop started (Ctrl+C to exit)'',
       Banner ''Try: nc localhost 8080'']\<rparr>"
    using assms(1) by (simp add: demo_main_def Let_def split: prod.splits)
  have "count k1 = 0" using eventfd_count [OF calls(1) assms(3)] by simp
  then have "count k6 = 0"
    using setup_count(1) [of k1] setup_count(2) [of server 1 k2] setup_count(3) [of server ?addr k3]
      setup_count(4) [of server 5 k4] setup_count(5) [of k5] by (simp add: calls)
  then show "demo_inv efd count st" by (simp add: st demo_inv_def demo_start_def others)
  show "{efd, server} \<subseteq> watch (kern st) epfd"
    using add_watch [OF assms(2,3)] add_watch [OF assms(2,4)] by (auto simp: st demo_start_def)
qed

lemma demo_step_watch:
  assumes "demo_step S epfd efd server st st'" and "{efd, server} \<subseteq> watch (kern st) epfd"
  shows "{efd, server} \<subseteq> watch (kern st') epfd"
  using assms(1)
proof cases
  case signal
  then obtain k where "efd_write S (of_nat (sig_next st)) (kern st) = Some k" "kern st' = k"
    by (auto simp: signal_event_def)
  then show ?thesis using io_keeps(2) assms(2) by blast
next
  case (wait fds k)
  then show ?thesis using io_keeps(3) [OF wait(3)] assms(2) by auto
next
  case (handle fd rest)
  consider (custom) "fd = efd" | (conn) "fd \<noteq> efd" "fd = server" | (client) "fd \<noteq> efd" "fd \<noteq> server"
    by blast
  then show ?thesis
  proof cases
    case custom
    then obtain v k where "efd_read S (kern st) = Some (v, k)" "kern st' = k"
      using handle(2) by (auto simp: handle_event_def handle_custom_def)
    then show ?thesis using io_keeps(1) assms(2) by blast
  next
    case conn
    then obtain c k where a: "accept S server (kern st) = Some (c, k)" "kern st' = epoll_add S epfd c k"
      using handle(2) by (auto simp: handle_event_def handle_connection_def)
    have "watch (kern st) epfd \<subseteq> watch (kern st') epfd"
      unfolding a(2) by (rule subset_trans [OF io_keeps(4) [OF a(1)] add_keeps])
    then show ?thesis by (rule subset_trans [OF assms(2)])
  next
    case client
    then obtain n d k where r: "read_fd S fd 255 (kern st) = Some (n, d, k)"
      using handle(2) by (auto simp: handle_event_def handle_client_def)
    have st': "kern st' = (if n \<le> 0 then close_fd S fd (epoll_del S epfd fd k)
                           else write_fd S fd [0x4F, 0x4B, 0x0A] k)"
      using handle(2) client r by (auto simp: handle_event_def handle_client_def)
    have w: "{efd, server} \<subseteq> watch k epfd" by (rule subset_trans [OF assms(2) io_keeps(5) [OF r]])
    then have "{efd, server} \<subseteq> watch (epoll_del S epfd fd k) epfd"
      using del_keeps [of k epfd fd] client by auto
    then have "{efd, server} \<subseteq> watch (close_fd S fd (epoll_del S epfd fd k)) epfd"
      using close_keeps [of "epoll_del S epfd fd k" epfd fd] client by auto
    moreover have "{efd, server} \<subseteq> watch (write_fd S fd [0x4F, 0x4B, 0x0A] k) epfd"
      by (rule subset_trans [OF w io_keeps(6)])
    ultimately show ?thesis by (simp add: st')
  qed
qed

end

sublocale demo_kernel \<subseteq> watching: stepper "demo_step S epfd efd server"
    "\<lambda>st. demo_inv efd count st \<and> {efd, server} \<subseteq> watch (kern st) epfd" for epfd server
  by unfold_locales (auto intro: demo_step_inv dest: demo_step_watch)

context demo_kernel
begin

lemma main_reachable:
  assumes "demo_main S k = (epfd, efd, server, st0)" and "0 \<le> epfd" and "0 \<le> efd" and "0 \<le> server"
    and "(demo_step S epfd efd server)\<^sup>*\<^sup>* st0 st"
  shows "demo_inv efd count st" and "{efd, server} \<subseteq> watch (kern st) epfd"
  using watching.run_good [OF assms(5)] main_start [OF assms(1-4)] by blast+

text \<open>A wait returns while a signal is in the counter.\<close>

lemma main_awake:
  assumes "demo_main S k = (epfd, efd, server, st0)" and "0 \<le> epfd" and "0 \<le> efd" and "0 \<le> server"
    and "(demo_step S epfd efd server)\<^sup>*\<^sup>* st0 st"
  shows "count (kern st) = 0 \<or> batch st \<noteq> [] \<or> (\<exists>fds k'. epoll_wait S epfd 10 (kern st) = Some (fds, k') \<and>
     demo_step S epfd efd server st (st\<lparr>batch := fds, kern := k'\<rparr>))"
proof (cases "count (kern st) = 0 \<or> batch st \<noteq> []")
  case False
  then have "epoll_wait S epfd 10 (kern st) \<noteq> None"
    using wait_returns [of "kern st" epfd 10] main_reachable(2) [OF assms] by simp
  then obtain fds k' where w: "epoll_wait S epfd 10 (kern st) = Some (fds, k')" by auto
  then show ?thesis using demo_step.wait [OF _ w] False by blast
qed blast

end

subsection \<open>\<open>eventfd_demo.c\<close>\<close>

text \<open>
  The smaller demonstration: the main thread blocks in a read of the eventfd until its worker has
  written 1, then joins the worker and closes the eventfd.
\<close>

datatype main_at = Main_Reading | Main_Joining u64 | Main_Returned

record 'k wake =
  worker_returned :: bool
  main_at :: main_at
  wkern :: 'k

definition worker_thread :: "'k sys \<Rightarrow> 'k \<Rightarrow> 'k option" where
  "worker_thread S k = efd_write S 1 k"

inductive wake_step :: "'k sys \<Rightarrow> int \<Rightarrow> 'k wake \<Rightarrow> 'k wake \<Rightarrow> bool" for S efd where
  worker: "\<not> worker_returned st \<Longrightarrow> worker_thread S (wkern st) = Some k \<Longrightarrow>
     wake_step S efd st (st\<lparr>worker_returned := True, wkern := k\<rparr>)"
| reading: "main_at st = Main_Reading \<Longrightarrow> efd_read S (wkern st) = Some (val, k) \<Longrightarrow>
     wake_step S efd st (st\<lparr>main_at := Main_Joining val, wkern := k\<rparr>)"
| joining: "main_at st = Main_Joining val \<Longrightarrow> worker_returned st \<Longrightarrow>
     wake_step S efd st (st\<lparr>main_at := Main_Returned, wkern := close_fd S efd (wkern st)\<rparr>)"

definition wake_start :: "'k \<Rightarrow> 'k wake" where
  "wake_start k = \<lparr>worker_returned = False, main_at = Main_Reading, wkern = k\<rparr>"

text \<open>\<open>main\<close> up to its read: exit status 1 when there is no eventfd.\<close>

definition wake_main :: "'k sys \<Rightarrow> 'k \<Rightarrow> int + (int \<times> 'k wake)" where
  "wake_main S k = (let (efd, k) = eventfd S 0 k in if efd < 0 then Inl 1 else Inr (efd, wake_start k))"

definition wake_inv :: "('k \<Rightarrow> nat) \<Rightarrow> 'k wake \<Rightarrow> bool" where
  "wake_inv count st \<longleftrightarrow>
     (case main_at st of
        Main_Reading \<Rightarrow> count (wkern st) = (if worker_returned st then 1 else 0)
      | Main_Joining val \<Rightarrow> val = 1 \<and> worker_returned st
      | Main_Returned \<Rightarrow> worker_returned st)"

context event_kernel
begin

lemma wake_step_inv: "wake_step S efd st st' \<Longrightarrow> wake_inv count st \<Longrightarrow> wake_inv count st'"
proof (induction rule: wake_step.induct)
  case (worker st k)
  then have c: "main_at st = Main_Reading" "count (wkern st) = 0"
    by (auto simp: wake_inv_def split: main_at.splits)
  then have "count k = 1" using write_adds [of "wkern st" 1] worker(2) by (auto simp: worker_thread_def)
  then show ?case using c by (simp add: wake_inv_def)
next
  case (reading st val k)
  have "unat val = count (wkern st)" "0 < count (wkern st)"
    using read_resets [OF reading(2)] read_blocks [of "wkern st"] reading(2) by auto
  moreover have "count (wkern st) = (if worker_returned st then 1 else 0)"
    using reading(1,3) by (simp add: wake_inv_def)
  ultimately have "unat val = 1" "worker_returned st" by (auto split: if_splits)
  then show ?case by (simp add: wake_inv_def word_eq_iff_unsigned [where ?'a = nat])
qed (simp add: wake_inv_def)

lemma wake_progress:
  assumes "wake_inv count st" and "main_at st \<noteq> Main_Returned"
  shows "\<exists>st'. wake_step S efd st st'"
proof (cases "worker_returned st")
  case True
  show ?thesis
  proof (cases "main_at st")
    case Main_Reading
    then have "efd_read S (wkern st) \<noteq> None"
      using assms(1) True by (simp add: wake_inv_def read_blocks)
    then obtain val k where "efd_read S (wkern st) = Some (val, k)" by auto
    then show ?thesis using wake_step.reading [OF Main_Reading] by blast
  next
    case (Main_Joining val)
    then show ?thesis using wake_step.joining [OF Main_Joining True] by blast
  qed (use assms(2) in simp)
next
  case False
  then have "main_at st = Main_Reading" "count (wkern st) = 0"
    using assms by (auto simp: wake_inv_def split: main_at.splits)
  then obtain k where "worker_thread S (wkern st) = Some k"
    using write_adds [of "wkern st" 1] by (auto simp: worker_thread_def)
  then show ?thesis using wake_step.worker [OF False] by blast
qed

end

sublocale event_kernel \<subseteq> wake: stepper "wake_step S efd" "wake_inv count"
  by unfold_locales (rule wake_step_inv)

context event_kernel
begin

lemma wake_reachable_inv:
  "(wake_step S efd)\<^sup>*\<^sup>* (wake_start k) st \<Longrightarrow> count k = 0 \<Longrightarrow> wake_inv count st"
  using wake.run_good [of "wake_start k" st] by (simp add: wake_inv_def wake_start_def)

end

subsection \<open>A kernel\<close>

text \<open>An eventfd with descriptor 3, a listening socket with descriptor 4 and clients numbered from 6
  on, each with the packets it will deliver; an empty packet is the end of the stream.\<close>

record small =
  efd_value :: u64
  watching :: "int list"
  next_fd :: int
  incoming :: "(int \<times> byte list) list"
  pending :: nat
  listening :: "(int \<times> u16) list"

definition ready :: "small \<Rightarrow> int \<Rightarrow> bool" where
  "ready k fd = (if fd = 3 then efd_value k \<noteq> 0 else if fd = 4 then 0 < pending k
     else fd \<in> fst ` set (incoming k))"

definition new_fd :: "small \<Rightarrow> int \<times> small" where
  "new_fd k = (next_fd k, k\<lparr>next_fd := next_fd k + 1\<rparr>)"

definition small_kernel :: "small sys" where
  "small_kernel = \<lparr>
     eventfd = (\<lambda>v k. new_fd (k\<lparr>efd_value := ucast v\<rparr>)),
     socket_stream = new_fd,
     set_reuseaddr = (\<lambda>fd v k. (0, k)),
     bind_inet = (\<lambda>fd a k. (0, k\<lparr>listening := listening k @ [(fd, sin_port a)]\<rparr>)),
     listen_fd = (\<lambda>fd n k. (0, k)),
     epoll_create = new_fd,
     efd_read = (\<lambda>k. if efd_value k = 0 then None else Some (efd_value k, k\<lparr>efd_value := 0\<rparr>)),
     efd_write = (\<lambda>v k. if unat (efd_value k) + unat v < 2 ^ 64 - 1
       then Some (k\<lparr>efd_value := efd_value k + v\<rparr>) else None),
     epoll_wait = (\<lambda>ep n k. let fds = take n (remdups (filter (ready k) (watching k)))
       in if fds = [] then None else Some (fds, k)),
     epoll_add = (\<lambda>ep fd k. k\<lparr>watching := watching k @ [fd]\<rparr>),
     epoll_del = (\<lambda>ep fd k. k\<lparr>watching := removeAll fd (watching k)\<rparr>),
     accept = (\<lambda>srv k. if pending k = 0 then None
       else Some (next_fd k, k\<lparr>next_fd := next_fd k + 1, pending := pending k - 1\<rparr>)),
     read_fd = (\<lambda>fd n k. case map_of (incoming k) fd of
         None \<Rightarrow> None
       | Some d \<Rightarrow> Some (int (length (take n d)), take n d,
           k\<lparr>incoming := remove1 (fd, d) (incoming k)\<rparr>)),
     write_fd = (\<lambda>fd d k. k),
     close_fd = (\<lambda>fd k. k)\<rparr>"

interpretation small: event_kernel small_kernel 3 "\<lambda>k. unat (efd_value k)"
proof unfold_locales
  fix k :: small and v :: u64
  assume "unat (efd_value k) + unat v < 2 ^ 64 - 1"
  then show "\<exists>k'. efd_write small_kernel v k = Some k' \<and> unat (efd_value k') = unat (efd_value k) + unat v"
    by (simp add: small_kernel_def unat_word_ariths)
next
  fix ep n and k k' :: small and fds
  assume "epoll_wait small_kernel ep n k = Some (fds, k')"
  then show "distinct fds \<and> (3 \<in> set fds \<longrightarrow> 0 < unat (efd_value k)) \<and>
      unat (efd_value k') = unat (efd_value k)"
    by (auto simp: small_kernel_def Let_def ready_def unat_gt_0 dest: in_set_takeD split: if_splits)
qed (auto simp: small_kernel_def unat_eq_zero split: if_splits option.splits)

interpretation small_demo: demo_kernel small_kernel 3 "\<lambda>k. unat (efd_value k)" "\<lambda>k ep. set (watching k)"
proof unfold_locales
  fix i :: u32 and k k' :: small
  assume "eventfd small_kernel i k = (3, k')"
  then show "unat (efd_value k') = unat i"
    using unsigned_less [of i, where ?'a = nat]
    by (auto simp: small_kernel_def new_fd_def unsigned_ucast_eq take_bit_nat_eq_self)
next
  fix k :: small and n :: nat and ep :: int
  assume "3 \<in> set (watching k)" "0 < unat (efd_value k)" "0 < n"
  then have "3 \<in> set (remdups (filter (ready k) (watching k)))" by (simp add: ready_def unat_gt_0)
  then have "remdups (filter (ready k) (watching k)) \<noteq> []" by (metis list.distinct(1) list.set_cases)
  then show "epoll_wait small_kernel ep n k \<noteq> None"
    using \<open>0 < n\<close> by (simp add: small_kernel_def Let_def)
qed (auto simp: small_kernel_def new_fd_def Let_def split: if_splits option.splits)

subsection \<open>Properties\<close>

text \<open>A run: one signal, its event, and two signals that are merged into one event.\<close>

definition small_boot :: small where
  "small_boot = \<lparr>efd_value = 0, watching = [3, 4], next_fd = 6, incoming = [], pending = 0,
     listening = [(4, htons 8080)]\<rparr>"

definition small_pending :: "small demo" where
  "small_pending = \<lparr>sig_next = 2, batch = [3], printed = [Sending 1],
     kern = small_boot\<lparr>efd_value := 1\<rparr>\<rparr>"

definition small_done :: "small demo" where
  "small_done = \<lparr>sig_next = 4, batch = [],
     printed = [Sending 1, Got_Event 1, Sending 2, Sending 3, Got_Event 5], kern = small_boot\<rparr>"

abbreviation small_step :: "small demo \<Rightarrow> small demo \<Rightarrow> bool" where
  "small_step \<equiv> demo_step small_kernel 5 3 4"

lemmas run_small = signal_event_def handle_event_def handle_custom_def small_kernel_def
  small_boot_def ready_def Let_def

lemma small_pending_reachable: "small_step\<^sup>*\<^sup>* (demo_start small_boot) small_pending"
proof -
  let ?s1 = "small_pending\<lparr>batch := []\<rparr>"
  have "small_step (demo_start small_boot) ?s1"
    by (rule demo_step.signal) (simp_all add: demo_start_def small_pending_def run_small)
  moreover have "small_step ?s1 (?s1\<lparr>batch := [3], kern := kern ?s1\<rparr>)"
    by (rule demo_step.wait) (simp_all add: small_pending_def run_small)
  then have "small_step ?s1 small_pending" by (simp add: small_pending_def)
  ultimately show ?thesis by (meson rtranclp.rtrancl_into_rtrancl rtranclp.rtrancl_refl)
qed

lemma small_done_reachable: "small_step\<^sup>*\<^sup>* (demo_start small_boot) small_done"
proof -
  let ?s3 = "\<lparr>sig_next = 2, batch = [], printed = [Sending 1, Got_Event 1], kern = small_boot\<rparr>"
  let ?s4 = "\<lparr>sig_next = 3, batch = [], printed = [Sending 1, Got_Event 1, Sending 2],
    kern = small_boot\<lparr>efd_value := 2\<rparr>\<rparr>"
  let ?s5 = "\<lparr>sig_next = 4, batch = [], printed = [Sending 1, Got_Event 1, Sending 2, Sending 3],
    kern = small_boot\<lparr>efd_value := 5\<rparr>\<rparr>"
  have "small_step small_pending ?s3"
    by (rule demo_step.handle [of _ 3 "[]"]) (simp_all add: small_pending_def run_small)
  moreover have "small_step ?s3 ?s4" by (rule demo_step.signal) (simp_all add: run_small)
  moreover have "small_step ?s4 ?s5" by (rule demo_step.signal) (simp_all add: run_small)
  moreover have "small_step ?s5 (?s5\<lparr>batch := [3], kern := kern ?s5\<rparr>)"
    by (rule demo_step.wait) (simp_all add: run_small)
  moreover have "small_step (?s5\<lparr>batch := [3], kern := kern ?s5\<rparr>) small_done"
    by (rule demo_step.handle [of _ 3 "[]"]) (simp_all add: small_done_def run_small)
  ultimately show ?thesis
    using small_pending_reachable by (meson rtranclp.rtrancl_into_rtrancl)
qed

text \<open>No signal is lost or counted twice, however the threads interleave: the values the event
  loop has printed and the counter of the eventfd add up to the values the signal thread has
  written; so when that thread is done and the counter is drained, the loop has printed a total of
  6, in at most three events.\<close>

lemma demo_signals_conserved:
  assumes "event_kernel S efd count" and "count k = 0"
    and "(demo_step S epfd efd server)\<^sup>*\<^sup>* (demo_start k) st"
  shows "sum_list (got (printed st)) + count (kern st) = sum_list [1..<sig_next st] \<and>
         (sig_next st \<noteq> 4 \<or> count (kern st) \<noteq> 0 \<or>
          sum_list (got (printed st)) = 6 \<and> length (got (printed st)) \<le> 3)"
proof -
  have inv: "demo_inv efd count st"
    by (rule event_kernel.demo_reachable_inv [OF assms(1,3,2)])
  then show ?thesis
    unfolding demo_inv_def by (auto simp: upt_rec)
qed

lemma demo_signals_conserved_example:
  "sum_list (got (printed small_done)) + unat (efd_value (kern small_done)) =
     sum_list [1..<sig_next small_done] \<and>
   sum_list (got (printed small_done)) = 6 \<and> length (got (printed small_done)) \<le> 3"
proof -
  have "sig_next small_done = 4" "unat (efd_value (kern small_done)) = 0"
    "unat (efd_value small_boot) = 0"
    by (simp_all add: small_done_def small_boot_def)
  then show ?thesis
    using demo_signals_conserved [OF small.event_kernel_axioms _ small_done_reachable] by blast
qed

text \<open>The event loop never blocks on the eventfd: whenever its next event is the eventfd's, the
  read returns, in every state the two threads can reach.\<close>

lemma demo_loop_never_blocks:
  assumes "event_kernel S efd count" and "count k = 0"
    and "(demo_step S epfd efd server)\<^sup>*\<^sup>* (demo_start k) st" and "batch st = efd # rest"
  shows "\<exists>st'. demo_step S epfd efd server st st' \<and> batch st' = rest \<and> length (got (printed st')) =
           length (got (printed st)) + 1"
proof -
  have "demo_inv efd count st" by (rule event_kernel.demo_reachable_inv [OF assms(1,3,2)])
  from event_kernel.custom_event_drains [OF assms(1) this assms(4), of epfd server] show ?thesis by fastforce
qed

lemma demo_loop_never_blocks_example:
  "\<exists>st'. small_step small_pending st' \<and> batch st' = [] \<and>
     length (got (printed st')) = length (got (printed small_pending)) + 1"
  by (rule demo_loop_never_blocks [OF small.event_kernel_axioms _ small_pending_reachable])
     (simp_all add: small_boot_def small_pending_def)

text \<open>C26. The whole of the event-loop program, from its set-up on: in every interleaving after
  \<open>main\<close> has opened its descriptors, the values printed and the counter add up to the values
  signalled (so a finished signal thread and a drained counter mean a printed total of 6, in at
  most three events), the eventfd and the server socket are still registered with epoll, a loop that
  has handled its events is not kept in \<open>epoll_wait\<close> while the counter holds a signal, and when the next
  event is that of the eventfd its handler does not block, prints the whole counter and leaves it at 0.
  (The handlers of the other descriptors may block, in \<open>accept\<close> or in \<open>read\<close>.)\<close>

theorem demo_main_loses_no_signal:
  assumes "demo_kernel S efd count watch" and "demo_main S k = (epfd, efd, server, st0)"
    and "0 \<le> epfd" and "0 \<le> efd" and "0 \<le> server"
    and "(demo_step S epfd efd server)\<^sup>*\<^sup>* st0 st"
  shows "sum_list (got (printed st)) + count (kern st) = sum_list [1..<sig_next st] \<and>
    (sig_next st \<noteq> 4 \<or> count (kern st) \<noteq> 0 \<or>
     sum_list (got (printed st)) = 6 \<and> length (got (printed st)) \<le> 3) \<and>
    {efd, server} \<subseteq> watch (kern st) epfd \<and>
    (count (kern st) = 0 \<or> batch st \<noteq> [] \<or>
     (\<exists>fds k'. epoll_wait S epfd 10 (kern st) = Some (fds, k') \<and>
        demo_step S epfd efd server st (st\<lparr>batch := fds, kern := k'\<rparr>))) \<and>
    (batch st = [] \<or> hd (batch st) \<noteq> efd \<or>
     (\<exists>st'. demo_step S epfd efd server st st' \<and> batch st' = tl (batch st) \<and>
        got (printed st') = got (printed st) @ [count (kern st)] \<and> count (kern st') = 0))"
proof -
  have inv: "demo_inv efd count st" by (rule demo_kernel.main_reachable(1) [OF assms])
  have event: "event_kernel S efd count" using assms(1) by (simp add: demo_kernel_def)
  have drains: "batch st = [] \<or> hd (batch st) \<noteq> efd \<or>
     (\<exists>st'. demo_step S epfd efd server st st' \<and> batch st' = tl (batch st) \<and>
        got (printed st') = got (printed st) @ [count (kern st)] \<and> count (kern st') = 0)"
    using event_kernel.custom_event_drains [OF event inv, of "tl (batch st)" epfd server]
    by (cases "batch st") auto
  have "sum_list (got (printed st)) + count (kern st) = sum_list [1..<sig_next st] \<and>
      (sig_next st \<noteq> 4 \<or> count (kern st) \<noteq> 0 \<or>
       sum_list (got (printed st)) = 6 \<and> length (got (printed st)) \<le> 3)"
    using inv unfolding demo_inv_def by (auto simp: upt_rec)
  then show ?thesis
    using demo_kernel.main_reachable(2) [OF assms] demo_kernel.main_awake [OF assms] drains by blast
qed

definition small_init :: small where
  "small_init = \<lparr>efd_value = 0, watching = [], next_fd = 3, incoming = [], pending = 0, listening = []\<rparr>"

definition small_started :: "small demo" where
  "small_started = (demo_start small_boot)\<lparr>printed := [Banner ''Server listening on port 8080'',
     Banner ''Event loop started (Ctrl+C to exit)'', Banner ''Try: nc localhost 8080'']\<rparr>"

definition small_signalled :: "small demo" where
  "small_signalled = small_started\<lparr>sig_next := 2, printed := printed small_started @ [Sending 1],
     kern := small_boot\<lparr>efd_value := 1\<rparr>\<rparr>"

theorem demo_main_loses_no_signal_witness:
  "demo_main small_kernel small_init = (5, 3, 4, small_started) \<and>
   small_step small_started small_signalled \<and> efd_value (kern small_signalled) = 1 \<and>
   (\<exists>fds k'. epoll_wait small_kernel 5 10 (kern small_signalled) = Some (fds, k') \<and>
      small_step small_signalled (small_signalled\<lparr>batch := fds, kern := k'\<rparr>)) \<and>
   (\<exists>st'. small_step (small_signalled\<lparr>batch := [3]\<rparr>) st' \<and> got (printed st') = [1])"
proof -
  have main: "demo_main small_kernel small_init = (5, 3, 4, small_started)"
    by (simp add: demo_main_def small_init_def small_started_def small_boot_def small_kernel_def
        new_fd_def Let_def)
  have step: "small_step small_started small_signalled"
    by (rule demo_step.signal)
       (simp_all add: small_signalled_def small_started_def demo_start_def run_small)
  have reach: "small_step\<^sup>*\<^sup>* small_started small_signalled"
    using step by (rule r_into_rtranclp [where r = small_step])
  have st: "efd_value (kern small_signalled) = 1" "batch small_signalled = []"
    by (simp_all add: small_signalled_def small_started_def demo_start_def)
  have "\<exists>fds k'. epoll_wait small_kernel 5 10 (kern small_signalled) = Some (fds, k') \<and>
      small_step small_signalled (small_signalled\<lparr>batch := fds, kern := k'\<rparr>)"
    using demo_main_loses_no_signal [OF small_demo.demo_kernel_axioms main _ _ _ reach] st by simp
  moreover have "small_step small_signalled (small_signalled\<lparr>batch := [3], kern := kern small_signalled\<rparr>)"
    by (rule demo_step.wait)
       (simp_all add: small_signalled_def small_started_def demo_start_def run_small)
  then have "small_step small_signalled (small_signalled\<lparr>batch := [3]\<rparr>)" by (cases small_signalled) simp
  note reach2 = rtranclp.rtrancl_into_rtrancl [where r = small_step, OF reach this]
  have "got (printed small_signalled) = []"
    by (simp add: small_signalled_def small_started_def demo_start_def)
  then have "\<exists>st'. small_step (small_signalled\<lparr>batch := [3]\<rparr>) st' \<and> got (printed st') = [1]"
    using demo_main_loses_no_signal [OF small_demo.demo_kernel_axioms main _ _ _ reach2] st by auto
  ultimately show ?thesis using main step st by blast
qed

text \<open>C40. The wake-up of the smaller demonstration: in every interleaving the main thread gets past
  its read only after the worker has written, with the value 1, and until the main thread has
  returned some thread can take a step.\<close>

theorem demo_wake_up:
  assumes "event_kernel S efd count" and "count k = 0"
    and "(wake_step S efd)\<^sup>*\<^sup>* (wake_start k) st"
  shows "(main_at st = Main_Reading \<or> main_at st = Main_Joining 1 \<and> worker_returned st \<or>
          main_at st = Main_Returned \<and> worker_returned st) \<and>
         (main_at st = Main_Returned \<or> (\<exists>st'. wake_step S efd st st'))"
proof
  have inv: "wake_inv count st" by (rule event_kernel.wake_reachable_inv [OF assms(1,3,2)])
  then show "main_at st = Main_Reading \<or> main_at st = Main_Joining 1 \<and> worker_returned st \<or>
      main_at st = Main_Returned \<and> worker_returned st"
    by (auto simp: wake_inv_def split: main_at.splits)
  show "main_at st = Main_Returned \<or> (\<exists>st'. wake_step S efd st st')"
    using event_kernel.wake_progress [OF assms(1) inv] by blast
qed

definition woken :: "small wake" where
  "woken = \<lparr>worker_returned = True, main_at = Main_Joining 1, wkern = small_boot\<rparr>"

lemma woken_reachable: "(wake_step small_kernel 3)\<^sup>*\<^sup>* (wake_start small_boot) woken"
proof -
  let ?s1 = "\<lparr>worker_returned = True, main_at = Main_Reading, wkern = small_boot\<lparr>efd_value := 1\<rparr>\<rparr>"
  have "wake_step small_kernel 3 (wake_start small_boot) ((wake_start small_boot)\<lparr>worker_returned := True,
      wkern := small_boot\<lparr>efd_value := 1\<rparr>\<rparr>)"
    by (rule wake_step.worker) (simp_all add: wake_start_def worker_thread_def run_small)
  then have "wake_step small_kernel 3 (wake_start small_boot) ?s1" by (simp add: wake_start_def)
  moreover have "wake_step small_kernel 3 ?s1 (?s1\<lparr>main_at := Main_Joining 1, wkern := small_boot\<rparr>)"
    by (rule wake_step.reading) (simp_all add: run_small)
  then have "wake_step small_kernel 3 ?s1 woken" by (simp add: woken_def)
  ultimately show ?thesis by (meson rtranclp.rtrancl_into_rtrancl rtranclp.rtrancl_refl)
qed

theorem demo_wake_up_witness:
  "(main_at woken = Main_Reading \<or> main_at woken = Main_Joining 1 \<and> worker_returned woken \<or>
    main_at woken = Main_Returned \<and> worker_returned woken) \<and>
   (main_at woken = Main_Returned \<or> (\<exists>st'. wake_step small_kernel 3 woken st'))"
  by (rule demo_wake_up [OF small.event_kernel_axioms _ woken_reachable]) (simp add: small_boot_def)

end
