(* ===== verification/Cpp_Demos.thy ===== *)
theory Cpp_Demos
  imports Prelude
begin

text \<open>
  The three C++ demonstrations of \<open>examples/\<close>: a buffer that owns its array through a
  \<open>unique_ptr\<close>, with the heap as an explicit list of live arrays, and the two friend examples. The
  ownership discipline is stated for every program over such buffers, not only for \<open>main\<close>.
\<close>

subsection \<open>The language\<close>

text \<open>What the programs print.\<close>

datatype out_line = Created int | Moved | Printed "int list" | End_Of_Main | Secret int | Value int

text \<open>A product of two \<open>int\<close>s; an overflow is undefined.\<close>

definition int_mul :: "int \<Rightarrow> int \<Rightarrow> int res" where
  "int_mul a b = (let r = a * b in if - (2 ^ 31) \<le> r \<and> r < 2 ^ 31 then Inr r else Inl Signed_Overflow)"

text \<open>The heap: the live arrays with their addresses.\<close>

record cpp =
  cells :: "(nat \<times> int list) list"
  out :: "out_line list"

definition say :: "out_line \<Rightarrow> cpp \<Rightarrow> cpp" where
  "say l st = st\<lparr>out := out st @ [l]\<rparr>"

text \<open>\<open>delete[]\<close> of an address that is not live aborts the process.\<close>

definition delete_array :: "nat \<Rightarrow> cpp \<Rightarrow> cpp res" where
  "delete_array a st =
     (if a \<in> fst ` set (cells st) then Inr (st\<lparr>cells := filter (\<lambda>c. fst c \<noteq> a) (cells st)\<rparr>)
      else Inl Assertion_Failed)"

subsection \<open>\<open>unique_ptr_demo.cpp\<close>\<close>

text \<open>\<open>data\<close> is the \<open>unique_ptr\<close>, with \<open>None\<close> for null.\<close>

record Buffer =
  data :: "nat option"
  buf_size :: int

text \<open>The loop of the constructor from index \<open>i\<close>, with \<open>k\<close> elements to go.\<close>

fun fill_loop :: "nat \<Rightarrow> nat \<Rightarrow> int list \<Rightarrow> int list res" where
  "fill_loop 0 i xs = Inr xs"
| "fill_loop (Suc k) i xs = res_bind (int_mul (int i) 10) (\<lambda>v. fill_loop k (i + 1) (xs[i := v]))"

text \<open>\<open>m\<close> is the allocator: an address for \<open>n\<close> elements, or a failure. A negative length throws.\<close>

definition Buffer_new ::
  "((nat \<times> int list) list \<Rightarrow> nat \<Rightarrow> nat option) \<Rightarrow> int \<Rightarrow> cpp \<Rightarrow> (Buffer \<times> cpp) res" where
  "Buffer_new m n st =
     (if n < 0 then Inl Out_Of_Memory
      else case m (cells st) (nat n) of
          None \<Rightarrow> Inl Out_Of_Memory
        | Some a \<Rightarrow>
            let st = say (Created n) st
            in res_bind (fill_loop (nat n) 0 (replicate (nat n) 0)) (\<lambda>xs.
                 Inr (\<lparr>data = Some a, buf_size = n\<rparr>, st\<lparr>cells := (a, xs) # cells st\<rparr>)))"

text \<open>The new object and what is left of the other.\<close>

definition Buffer_move :: "Buffer \<Rightarrow> cpp \<Rightarrow> Buffer \<times> Buffer \<times> cpp" where
  "Buffer_move other st =
     (\<lparr>data = data other, buf_size = buf_size other\<rparr>, other\<lparr>data := None, buf_size := 0\<rparr>,
      say Moved st)"

definition Buffer_print :: "Buffer \<Rightarrow> cpp \<Rightarrow> cpp res" where
  "Buffer_print b st =
     (if buf_size b \<le> 0 then Inr (say (Printed []) st)
      else case data b of
          None \<Rightarrow> Inl Out_Of_Bounds
        | Some a \<Rightarrow> (case map_of (cells st) a of
              None \<Rightarrow> Inl Out_Of_Bounds
            | Some xs \<Rightarrow> if int (length xs) < buf_size b then Inl Out_Of_Bounds
                         else Inr (say (Printed (take (nat (buf_size b)) xs)) st)))"

text \<open>The destructor the compiler generates.\<close>

definition Buffer_destroy :: "Buffer \<Rightarrow> cpp \<Rightarrow> cpp res" where
  "Buffer_destroy b st = (case data b of None \<Rightarrow> Inr st | Some a \<Rightarrow> delete_array a st)"

text \<open>\<open>main\<close>; the destructors run in reverse order of construction.\<close>

definition unique_ptr_main ::
  "((nat \<times> int list) list \<Rightarrow> nat \<Rightarrow> nat option) \<Rightarrow> cpp \<Rightarrow> cpp res" where
  "unique_ptr_main m st =
     res_bind (Buffer_new m 5 st) (\<lambda>(a, st).
     res_bind (Buffer_print a st) (\<lambda>st.
       let (b, a, st) = Buffer_move a st
       in res_bind (Buffer_print b st) (\<lambda>st.
            let st = say End_Of_Main st
            in res_bind (Buffer_destroy b st) (Buffer_destroy a))))"

subsection \<open>The friend examples\<close>

record Box =
  box_value :: int

definition Box_init :: "int \<Rightarrow> Box" where
  "Box_init v = \<lparr>box_value = v\<rparr>"

definition peek :: "Box \<Rightarrow> cpp \<Rightarrow> cpp" where
  "peek b st = say (Secret (box_value b)) st"

definition friend_main :: "cpp \<Rightarrow> cpp" where
  "friend_main st = (let mybox = Box_init 42 in peek mybox st)"

definition Box_times :: "int \<Rightarrow> Box \<Rightarrow> Box res" where
  "Box_times n b = res_bind (int_mul n (box_value b)) (\<lambda>v. Inr (Box_init v))"

definition Box_print :: "Box \<Rightarrow> cpp \<Rightarrow> cpp" where
  "Box_print b st = say (Value (box_value b)) st"

definition mult_main :: "cpp \<Rightarrow> cpp res" where
  "mult_main st =
     (let b = Box_init 10
      in res_bind (Box_times 5 b) (\<lambda>result. Inr (Box_print result st)))"

lemma friend_outputs:
  "friend_main st = say (Secret 42) st" "mult_main st = Inr (say (Value 50) st)"
  by (simp_all add: friend_main_def mult_main_def Box_init_def peek_def Box_times_def Box_print_def
      int_mul_def)

subsection \<open>Programs over buffers\<close>

text \<open>Any program over named buffers; \<open>vs\<close> holds the buffers in scope.\<close>

datatype buf_op = New nat int | Move nat nat | Print nat | Destroy nat

type_synonym buf_state = "(nat \<Rightarrow> Buffer option) \<times> cpp"

fun buf_step :: "((nat \<times> int list) list \<Rightarrow> nat \<Rightarrow> nat option) \<Rightarrow> buf_op \<Rightarrow> buf_state \<Rightarrow> buf_state res" where
  "buf_step m (New x n) (vs, st) =
     res_bind (Buffer_new m n st) (\<lambda>(b, st). Inr (vs(x \<mapsto> b), st))"
| "buf_step m (Move y x) (vs, st) =
     (let (b, a, st) = Buffer_move (the (vs x)) st in Inr (vs(x \<mapsto> a, y \<mapsto> b), st))"
| "buf_step m (Print x) (vs, st) =
     res_bind (Buffer_print (the (vs x)) st) (\<lambda>st. Inr (vs, st))"
| "buf_step m (Destroy x) (vs, st) =
     res_bind (Buffer_destroy (the (vs x)) st) (\<lambda>st. Inr (vs(x := None), st))"

fun buf_run :: "((nat \<times> int list) list \<Rightarrow> nat \<Rightarrow> nat option) \<Rightarrow> buf_op list \<Rightarrow> buf_state \<Rightarrow> buf_state res" where
  "buf_run m [] s = Inr s"
| "buf_run m (op # ops) s = res_bind (buf_step m op s) (buf_run m ops)"

text \<open>What the compiler checks: a variable is declared once and used while in scope. The result is
  the set of variables in scope at the end.\<close>

fun scoped :: "buf_op list \<Rightarrow> nat set \<Rightarrow> nat set option" where
  "scoped [] V = Some V"
| "scoped (New x n # ops) V = (if x \<in> V then None else scoped ops (insert x V))"
| "scoped (Move y x # ops) V = (if x \<notin> V \<or> y \<in> V then None else scoped ops (insert y V))"
| "scoped (Print x # ops) V = (if x \<in> V then scoped ops V else None)"
| "scoped (Destroy x # ops) V = (if x \<in> V then scoped ops (V - {x}) else None)"

subsection \<open>Ownership\<close>

text \<open>Every live array has exactly one owner, and every buffer in scope owns a live array of its size,
  or none and has size 0.\<close>

definition own_inv :: "nat set \<Rightarrow> buf_state \<Rightarrow> bool" where
  "own_inv V s \<longleftrightarrow> dom (fst s) = V \<and> distinct (map fst (cells (snd s))) \<and>
     (\<forall>x b. fst s x = Some b \<longrightarrow> data b = None \<longrightarrow> buf_size b = 0) \<and>
     (\<forall>x b a. fst s x = Some b \<longrightarrow> data b = Some a \<longrightarrow>
        (\<exists>xs. (a, xs) \<in> set (cells (snd s)) \<and> int (length xs) = buf_size b)) \<and>
     (\<forall>x y b c a. fst s x = Some b \<longrightarrow> fst s y = Some c \<longrightarrow> data b = Some a \<longrightarrow> data c = Some a \<longrightarrow> x = y) \<and>
     (\<forall>a \<in> fst ` set (cells (snd s)). \<exists>x b. fst s x = Some b \<and> data b = Some a)"

lemma own_invD:
  assumes "own_inv V (vs, st)"
  shows "dom vs = V" and "distinct (map fst (cells st))"
    and "\<And>x b. vs x = Some b \<Longrightarrow> data b = None \<Longrightarrow> buf_size b = 0"
    and "\<And>x b a. vs x = Some b \<Longrightarrow> data b = Some a \<Longrightarrow>
           \<exists>xs. (a, xs) \<in> set (cells st) \<and> int (length xs) = buf_size b"
    and "\<And>x y b c a. vs x = Some b \<Longrightarrow> vs y = Some c \<Longrightarrow> data b = Some a \<Longrightarrow> data c = Some a \<Longrightarrow> x = y"
    and "\<And>a. a \<in> fst ` set (cells st) \<Longrightarrow> \<exists>x b. vs x = Some b \<and> data b = Some a"
proof -
  note inv = assms [unfolded own_inv_def fst_conv snd_conv]
  note rest = inv [THEN conjunct2, THEN conjunct2]
  show "dom vs = V" by (rule inv [THEN conjunct1])
  show "distinct (map fst (cells st))" by (rule inv [THEN conjunct2, THEN conjunct1])
  show "\<And>x b. vs x = Some b \<Longrightarrow> data b = None \<Longrightarrow> buf_size b = 0"
    by (rule rest [THEN conjunct1, rule_format])
  show "\<And>x b a. vs x = Some b \<Longrightarrow> data b = Some a \<Longrightarrow>
      \<exists>xs. (a, xs) \<in> set (cells st) \<and> int (length xs) = buf_size b"
    by (rule rest [THEN conjunct2, THEN conjunct1, rule_format])
  show "\<And>x y b c a. vs x = Some b \<Longrightarrow> vs y = Some c \<Longrightarrow> data b = Some a \<Longrightarrow> data c = Some a \<Longrightarrow> x = y"
    by (rule rest [THEN conjunct2, THEN conjunct2, THEN conjunct1, rule_format])
  show "\<And>a. a \<in> fst ` set (cells st) \<Longrightarrow> \<exists>x b. vs x = Some b \<and> data b = Some a"
    by (rule rest [THEN conjunct2, THEN conjunct2, THEN conjunct2, rule_format])
qed

lemma own_invI:
  assumes "dom vs = V" and "distinct (map fst (cells st))"
    and "\<And>x b. vs x = Some b \<Longrightarrow> data b = None \<Longrightarrow> buf_size b = 0"
    and "\<And>x b a. vs x = Some b \<Longrightarrow> data b = Some a \<Longrightarrow>
           \<exists>xs. (a, xs) \<in> set (cells st) \<and> int (length xs) = buf_size b"
    and "\<And>x y b c a. vs x = Some b \<Longrightarrow> vs y = Some c \<Longrightarrow> data b = Some a \<Longrightarrow> data c = Some a \<Longrightarrow> x = y"
    and "\<And>a. a \<in> fst ` set (cells st) \<Longrightarrow> \<exists>x b. vs x = Some b \<and> data b = Some a"
  shows "own_inv V (vs, st)"
  unfolding own_inv_def fst_conv snd_conv 
  by (intro conjI allI impI ballI; (rule assms; assumption))

lemma say_cells [simp]: "cells (say l st) = cells st"
  by (simp add: say_def)

lemma fill_loop_outcome:
  "fill_loop k i xs = Inr ys \<Longrightarrow> length ys = length xs"
  "fill_loop k i xs = Inl e \<Longrightarrow> e = Signed_Overflow"
  by (induction k arbitrary: i xs) (auto simp: int_mul_def Let_def split: if_splits)

locale allocator =
  fixes m :: "(nat \<times> int list) list \<Rightarrow> nat \<Rightarrow> nat option"
  assumes fresh: "m h n = Some a \<Longrightarrow> a \<notin> fst ` set h"
begin

lemma new_outcome:
  assumes "Buffer_new m n st = r"
  shows "r = Inl Out_Of_Memory \<or> r = Inl Signed_Overflow \<or>
    (\<exists>a xs. a \<notin> fst ` set (cells st) \<and> int (length xs) = n \<and>
       (\<exists>o'. r = Inr (\<lparr>data = Some a, buf_size = n\<rparr>, \<lparr>cells = (a, xs) # cells st, out = o'\<rparr>)))"
proof (cases "n < 0 \<or> m (cells st) (nat n) = None")
  case True
  then show ?thesis using assms by (auto simp: Buffer_new_def split: option.splits)
next
  case False
  then obtain a where a: "m (cells st) (nat n) = Some a" "0 \<le> n" by auto
  show ?thesis
  proof (cases "fill_loop (nat n) 0 (replicate (nat n) 0)")
    case (Inl e)
    then show ?thesis using assms a fill_loop_outcome(2) [OF Inl] by (auto simp: Buffer_new_def)
  next
    case (Inr xs)
    have "r = Inr (\<lparr>data = Some a, buf_size = n\<rparr>,
        \<lparr>cells = (a, xs) # cells st, out = out (say (Created n) st)\<rparr>)"
      using assms a Inr by (auto simp: Buffer_new_def Let_def say_def)
    then show ?thesis using fresh [OF a(1)] fill_loop_outcome(1) [OF Inr] a(2) by auto
  qed
qed

end

lemma own_new:
  assumes "own_inv V (vs, st)" and "x \<notin> V" and "a \<notin> fst ` set (cells st)" and "int (length xs) = n"
  shows "own_inv (insert x V) (vs(x \<mapsto> \<lparr>data = Some a, buf_size = n\<rparr>), \<lparr>cells = (a, xs) # cells st, out = o'\<rparr>)"
proof -
  note inv = own_invD [OF assms(1)]
  have x: "vs x = None" using inv(1) assms(2) by auto
  have other: "data b \<noteq> Some a" if "vs y = Some b" for y b
    using inv(4) [OF that, of a] assms(3) by force
  show ?thesis
  proof (rule own_invI)
    show "dom (vs(x \<mapsto> \<lparr>data = Some a, buf_size = n\<rparr>)) = insert x V" using inv(1) by simp
    show "distinct (map fst (cells \<lparr>cells = (a, xs) # cells st, out = o'\<rparr>))"
      using inv(2) assms(3) by simp
  next
    fix y b assume "(vs(x \<mapsto> \<lparr>data = Some a, buf_size = n\<rparr>)) y = Some b" "data b = None"
    then show "buf_size b = 0" using inv(3) by (auto split: if_splits)
  next
    fix y b c assume "(vs(x \<mapsto> \<lparr>data = Some a, buf_size = n\<rparr>)) y = Some b" "data b = Some c"
    then show "\<exists>ys. (c, ys) \<in> set (cells \<lparr>cells = (a, xs) # cells st, out = o'\<rparr>) \<and>
        int (length ys) = buf_size b"
      using inv(4) assms(4) by (fastforce split: if_splits)
  next
    fix y z b c d assume "(vs(x \<mapsto> \<lparr>data = Some a, buf_size = n\<rparr>)) y = Some b"
      "(vs(x \<mapsto> \<lparr>data = Some a, buf_size = n\<rparr>)) z = Some c" "data b = Some d" "data c = Some d"
    then show "y = z" using inv(5) other by (auto split: if_splits)
  next
    fix c assume "c \<in> fst ` set (cells \<lparr>cells = (a, xs) # cells st, out = o'\<rparr>)"
    then consider "c = a" | "c \<in> fst ` set (cells st)" by auto
    then show "\<exists>y b. (vs(x \<mapsto> \<lparr>data = Some a, buf_size = n\<rparr>)) y = Some b \<and> data b = Some c"
    proof cases
      case 1
      then show ?thesis by (intro exI [of _ x]) simp
    next
      case 2
      then obtain y b where "vs y = Some b" "data b = Some c" using inv(6) by blast
      then show ?thesis using x by (intro exI [of _ y] exI [of _ b]) auto
    qed
  qed
qed

lemma own_move:
  assumes "own_inv V (vs, st)" and "vs x = Some c" and "y \<notin> V"
  shows "own_inv (insert y V)
    (vs(x \<mapsto> c\<lparr>data := None, buf_size := 0\<rparr>, y \<mapsto> \<lparr>data = data c, buf_size = buf_size c\<rparr>), say l st)"
proof -
  note inv = own_invD [OF assms(1)]
  let ?vs = "vs(x \<mapsto> c\<lparr>data := None, buf_size := 0\<rparr>, y \<mapsto> \<lparr>data = data c, buf_size = buf_size c\<rparr>)"
  have y: "vs y = None" "y \<noteq> x" using inv(1) assms(2,3) by auto
  have owner: "(if z = y then x else z) \<in> dom vs \<and> (\<exists>b'. vs (if z = y then x else z) = Some b' \<and>
      data b' = Some a \<and> buf_size b' = buf_size b)"
    if "?vs z = Some b" "data b = Some a" for z b a
    using that assms(2) y by (auto split: if_splits)
  show ?thesis
  proof (rule own_invI)
    show "dom ?vs = insert y V" using inv(1) assms(2) by auto
    show "distinct (map fst (cells (say l st)))" using inv(2) by simp
  next
    fix z b assume "?vs z = Some b" "data b = None"
    then show "buf_size b = 0" using inv(3) assms(2) by (auto split: if_splits)
  next
    fix z b a assume "?vs z = Some b" "data b = Some a"
    from owner [OF this] show "\<exists>xs. (a, xs) \<in> set (cells (say l st)) \<and> int (length xs) = buf_size b"
      using inv(4) by fastforce
  next
    fix z u b d a assume "?vs z = Some b" "?vs u = Some d" "data b = Some a" "data d = Some a"
    note zu = this
    obtain b' d' where "vs (if z = y then x else z) = Some b'" "data b' = Some a"
      "vs (if u = y then x else u) = Some d'" "data d' = Some a"
      using owner [OF zu(1,3)] owner [OF zu(2,4)] by auto
    then have "(if z = y then x else z) = (if u = y then x else u)" using inv(5) by blast
    moreover have "z \<noteq> x" "u \<noteq> x" using zu y by auto
    ultimately show "z = u" by (simp split: if_splits)
  next
    fix a assume "a \<in> fst ` set (cells (say l st))"
    then obtain z b where z: "vs z = Some b" "data b = Some a" using inv(6) [of a] by auto
    show "\<exists>z b. ?vs z = Some b \<and> data b = Some a"
    proof (cases "z = x")
      case True
      then show ?thesis using z assms(2) by (intro exI [of _ y]) auto
    next
      case False
      then show ?thesis using z y by (intro exI [of _ z]) auto
    qed
  qed
qed

lemma own_destroy:
  assumes "own_inv V (vs, st)" and "vs x = Some c"
  shows "\<exists>st'. Buffer_destroy c st = Inr st' \<and> own_inv (V - {x}) (vs(x := None), st')"
proof -
  note inv = own_invD [OF assms(1)]
  let ?keep = "\<lambda>st'. \<forall>p. p \<in> set (cells st') \<longleftrightarrow> p \<in> set (cells st) \<and> data c \<noteq> Some (fst p)"
  obtain st' where st': "Buffer_destroy c st = Inr st'" "?keep st'" "distinct (map fst (cells st'))"
  proof (cases "data c")
    case None
    then show ?thesis using that [of st] inv(2) by (simp add: Buffer_destroy_def)
  next
    case (Some a)
    then have "a \<in> fst ` set (cells st)" using inv(4) [OF assms(2)] by force
    then show ?thesis
      using that [of "st\<lparr>cells := filter (\<lambda>p. fst p \<noteq> a) (cells st)\<rparr>"] Some inv(2)
      by (auto simp: Buffer_destroy_def delete_array_def distinct_map_filter)
  qed
  have "own_inv (V - {x}) (vs(x := None), st')"
  proof (rule own_invI)
    show "dom (vs(x := None)) = V - {x}" using inv(1) by simp
    show "distinct (map fst (cells st'))" by (rule st'(3))
  next
    fix z b assume "(vs(x := None)) z = Some b" "data b = None"
    then show "buf_size b = 0" using inv(3) by (auto split: if_splits)
  next
    fix z b a assume z: "(vs(x := None)) z = Some b" "data b = Some a"
    then have "vs z = Some b" "z \<noteq> x" by (auto split: if_splits)
    then have "data c \<noteq> Some a" using inv(5) assms(2) z(2) by blast
    then show "\<exists>xs. (a, xs) \<in> set (cells st') \<and> int (length xs) = buf_size b"
      using inv(4) [OF \<open>vs z = Some b\<close> z(2)] st'(2) by auto
  next
    fix z u b d a assume "(vs(x := None)) z = Some b" "(vs(x := None)) u = Some d"
      "data b = Some a" "data d = Some a"
    then show "z = u" using inv(5) by (auto split: if_splits)
  next
    fix a assume "a \<in> fst ` set (cells st')"
    then have "a \<in> fst ` set (cells st)" "data c \<noteq> Some a" using st'(2) by auto
    then show "\<exists>z b. (vs(x := None)) z = Some b \<and> data b = Some a"
      using inv(6) assms(2) by (metis fun_upd_apply option.inject)
  qed
  then show ?thesis using st'(1) by blast
qed

lemma own_print:
  assumes "own_inv V (vs, st)" and "vs x = Some c"
  shows "\<exists>ys. Buffer_print c st = Inr (say (Printed ys) st)"
proof (cases "data c")
  case None
  then show ?thesis using own_invD(3) [OF assms] by (auto simp: Buffer_print_def)
next
  case (Some a)
  then obtain xs where "(a, xs) \<in> set (cells st)" "int (length xs) = buf_size c"
    using own_invD(4) [OF assms] by blast
  moreover from this have "map_of (cells st) a = Some xs"
    using own_invD(2) [OF assms(1)] by simp
  ultimately show ?thesis using Some by (auto simp: Buffer_print_def)
qed

subsection \<open>Every program\<close>

context allocator
begin

text \<open>A step either stops because there is no memory or a product overflows, or keeps the ownership
  invariant for the variables now in scope.\<close>

lemma buf_step_own:
  assumes "own_inv V s" and "scoped (op # ops) V = Some W"
  shows "buf_step m op s = Inl Out_Of_Memory \<or> buf_step m op s = Inl Signed_Overflow \<or>
    (\<exists>s' V'. buf_step m op s = Inr s' \<and> own_inv V' s' \<and> scoped ops V' = Some W)"
proof -
  obtain vs st where s: "s = (vs, st)" by (cases s)
  have inv: "own_inv V (vs, st)" using assms(1) s by simp
  have in_scope: "\<exists>c. vs x = Some c" if "x \<in> V" for x using own_invD(1) [OF inv] that by auto
  show ?thesis
  proof (cases op)
    case (New x n)
    have x: "x \<notin> V" "scoped ops (insert x V) = Some W" using assms(2) by (auto simp: New split: if_splits)
    show ?thesis
      using new_outcome [OF refl, of n st]
    proof (elim disjE exE conjE)
      fix a xs o'
      assume a: "a \<notin> fst ` set (cells st)" "int (length xs) = n" and
        b: "Buffer_new m n st = Inr (\<lparr>data = Some a, buf_size = n\<rparr>, \<lparr>cells = (a, xs) # cells st, out = o'\<rparr>)"
      show ?thesis using own_new [OF inv x(1) a] b x(2) by (auto simp: s New)
    qed (simp_all add: s New)
  next
    case (Move y x)
    then have x: "x \<in> V" "y \<notin> V" "scoped ops (insert y V) = Some W"
      using assms(2) by (auto split: if_splits)
    obtain c where c: "vs x = Some c" using in_scope x(1) by blast
    show ?thesis using own_move [OF inv c x(2)] c x(3) by (auto simp: s Move Buffer_move_def)
  next
    case (Print x)
    then have x: "x \<in> V" "scoped ops V = Some W" using assms(2) by (auto split: if_splits)
    obtain c ys where c: "vs x = Some c" "Buffer_print c st = Inr (say (Printed ys) st)"
      using in_scope [OF x(1)] own_print [OF inv] by blast
    have "own_inv V (vs, say l st)" for l using inv by (simp add: own_inv_def)
    then show ?thesis using c x(2) by (auto simp: s Print)
  next
    case (Destroy x)
    then have x: "x \<in> V" "scoped ops (V - {x}) = Some W" using assms(2) by (auto split: if_splits)
    obtain c where c: "vs x = Some c" using in_scope x(1) by blast
    show ?thesis using own_destroy [OF inv c] c x(2) by (auto simp: s Destroy)
  qed
qed

lemma buf_run_own:
  assumes "own_inv V s" and "scoped ops V = Some W"
  shows "buf_run m ops s = Inl Out_Of_Memory \<or> buf_run m ops s = Inl Signed_Overflow \<or>
    (\<exists>s'. buf_run m ops s = Inr s' \<and> own_inv W s')"
  using assms
proof (induction ops arbitrary: s V)
  case (Cons op ops)
  show ?case
    using buf_step_own [OF Cons.prems]
  proof (elim disjE exE conjE)
    fix s' V' assume "buf_step m op s = Inr s'" "own_inv V' s'" "scoped ops V' = Some W"
    then show ?thesis using Cons.IH [of V' s'] by simp
  qed simp_all
qed simp

end

lemma own_nothing:
  assumes "own_inv {} (vs, st)"
  shows "vs = Map.empty" and "cells st = []"
proof -
  show vs: "vs = Map.empty" using own_invD(1) [OF assms] by simp
  have "a \<notin> fst ` set (cells st)" for a using own_invD(6) [OF assms, of a] vs by auto
  then show "cells st = []" by (cases "cells st") auto
qed

text \<open>An allocator that hands out the address after the highest one in use.\<close>

definition next_free :: "(nat \<times> int list) list \<Rightarrow> nat \<Rightarrow> nat option" where
  "next_free h n = (if n \<le> 1048576 then Some (Suc (foldr max (map fst h) 0)) else None)"

lemma foldr_max_le: "a \<in> set xs \<Longrightarrow> a \<le> foldr max xs (0 :: nat)"
  by (induction xs) auto

interpretation next_free: allocator next_free
proof unfold_locales
  fix h :: "(nat \<times> int list) list" and n a
  assume "next_free h n = Some a"
  then have a: "a = Suc (foldr max (map fst h) 0)" by (auto simp: next_free_def split: if_splits)
  show "a \<notin> fst ` set h"
  proof
    assume "a \<in> fst ` set h"
    then have "a \<le> foldr max (map fst h) 0" by (intro foldr_max_le) simp
    then show False by (simp add: a)
  qed
qed

text \<open>\<open>main\<close> is the program that declares two buffers, and what it prints.\<close>

definition main_ops :: "buf_op list" where
  "main_ops = [New 0 5, Print 0, Move 1 0, Print 1, Destroy 1, Destroy 0]"

lemma fill_five: "fill_loop 5 0 (replicate 5 0) = Inr [0, 10, 20, 30, 40]"
  by (simp add: numeral_eq_Suc int_mul_def Let_def)

lemma unique_ptr_main_runs:
  assumes "m (cells st) 5 = Some a" and "a \<notin> fst ` set (cells st)"
  shows "unique_ptr_main m st = Inr (st\<lparr>out := out st @ [Created 5, Printed [0, 10, 20, 30, 40], Moved,
    Printed [0, 10, 20, 30, 40], End_Of_Main]\<rparr>)"
proof -
  have new: "Buffer_new m 5 st = Inr (\<lparr>data = Some a, buf_size = 5\<rparr>,
      (say (Created 5) st)\<lparr>cells := (a, [0, 10, 20, 30, 40]) # cells st\<rparr>)"
    using assms(1) by (simp add: Buffer_new_def fill_five Let_def)
  have "filter (\<lambda>c. fst c \<noteq> a) (cells st) = cells st" using assms(2) by (force simp: filter_id_conv)
  then show ?thesis
    by (simp add: unique_ptr_main_def new Buffer_print_def Buffer_move_def Buffer_destroy_def
        delete_array_def say_def Let_def)
qed

subsection \<open>Properties\<close>

text \<open>C27. Ownership: a program that creates, moves, prints and destroys buffers in any well-scoped order
  and leaves no buffer in scope either stops for want of memory or because an element of the
  constructor overflows, or ends with every array freed exactly once: no access through a moved-from
  buffer, no double free, no leak.\<close>

theorem unique_ptr_never_leaks:
  assumes "allocator m" and "scoped ops {} = Some {}" and "cells st = []"
  shows "buf_run m ops (Map.empty, st) = Inl Out_Of_Memory \<or>
    buf_run m ops (Map.empty, st) = Inl Signed_Overflow \<or>
    (\<exists>st'. buf_run m ops (Map.empty, st) = Inr (Map.empty, st') \<and> cells st' = [])"
proof -
  have "own_inv {} (Map.empty, st)" by (rule own_invI) (simp_all add: assms(3))
  from allocator.buf_run_own [OF assms(1) this assms(2)] show ?thesis
    using own_nothing by (metis prod.collapse)
qed

theorem unique_ptr_never_leaks_witness:
  "\<exists>st'. buf_run next_free main_ops (Map.empty, \<lparr>cells = [], out = []\<rparr>) = Inr (Map.empty, st') \<and>
     cells st' = []"
proof -
  have "scoped main_ops {} = Some {}" by (simp add: main_ops_def)
  moreover have "\<exists>s. buf_run next_free main_ops (Map.empty, \<lparr>cells = [], out = []\<rparr>) = Inr s"
    by (simp add: main_ops_def Buffer_new_def next_free_def fill_five Buffer_print_def
        Buffer_move_def Buffer_destroy_def delete_array_def say_def Let_def)
  ultimately show ?thesis
    using unique_ptr_never_leaks [OF next_free.allocator_axioms, of main_ops "\<lparr>cells = [], out = []\<rparr>"]
    by auto
qed

end
