(* ===== verification/Spec2Isabelle.thy ===== *)
theory Spec2Isabelle
  imports Qom Driver_Device Machine Nvme_Disk Usb_System Epoll_Demo Cpp_Demos
begin

text \<open>
  A verification development for a set of educational QEMU devices: a PCIe device with a
  register-based DMA engine, a descriptor ring and an AES engine, its SR-IOV virtual function, an
  NVMe controller, two USB devices, the Linux driver of the PCIe device, two demonstrations of
  event descriptors and three of the C++ language. Paths below are relative to \<open>src/\<close>.

  \<^bold>\<open>Parts and how they interact.\<close> A guest reaches a device only through its registers. QEMU's
  memory core calls the read or write handler of the region behind a BAR, one call at a time; the
  handler changes the device state and uses services of QEMU: DMA to guest memory through the
  IOMMU, MSI-X and INTx interrupts. The handlers of one device share one state structure. The USB
  core calls the handlers of the USB devices with packets. A machine has several devices, which share
  the guest memory and nothing else. The devices are types of the QEMU object model, registered when
  the emulator starts, and are realized on a bus. The Linux driver runs in the guest and
  accesses BAR0 of the PCIe device.

  \<^bold>\<open>Theories.\<close>
  \<^item> \<open>Prelude\<close>: C integers as words, buffers, \<open>memcpy\<close>, little-endian layout, the fault type and
    its bind, the locale \<open>stepper\<close> (invariants of a step relation). \<open>Qemu_Env\<close>: the services as a
    record of functions \<open>qemu\<close>, their documented behaviour as the locale \<open>dma_bus\<close>, and the
    environment \<open>guest_qemu\<close> (flat RAM behind IOMMU windows) that obeys it; the locale \<open>write_log\<close> observes
    the DMA writes of a device. \<open>Mmio\<close>: sequences of
    register writes and the locale \<open>regfile\<close> of plain registers.
  \<^item> \<open>Edu_Pf\<close>: \<open>qemu_devices/edu_pci.c\<close>, the state \<open>EduPciState\<close> and BAR0 (\<open>edu_pci_read\<close>,
    \<open>edu_pci_write\<close>): factorial, single-shot DMA, interrupts, peer-to-peer and ATS registers.
  \<^item> \<open>Aes_Tables\<close>, \<open>Aes\<close>, \<open>Cbc\<close>: the tables, key expansion, block routines and CBC loops of
    \<open>edu_pci.c\<close>. \<open>Aes_Spec\<close>: FIPS-197 as a reference definition. \<open>Edu_Crypto\<close>: the handlers of BAR5
    over the adjacent key arrays. \<open>Crypto_Engine\<close>: what the engine computes.
  \<^item> \<open>Cyclic_Queue\<close>: head and tail indices of a ring as a locale, used by both rings. \<open>Edu_Ring\<close>:
    BAR4 of \<open>edu_pci.c\<close>, descriptors and their processing. \<open>Ring_Engine\<close>: the abstract run of a ring
    and its refinement, the ring invariant, the faults.
  \<^item> \<open>Edu_Vf\<close>: the virtual function and its refinement to the physical one.
  \<^item> \<open>Pf_System\<close>: the three register blocks and the guest's memory as one transition system, with
    the invariant of its reachable states. \<open>Pci_Core\<close>, \<open>Edu_Lifecycle\<close>: \<open>realize\<close> and \<open>exit\<close> of
    the PCI devices over the PCI core, and the tables of handlers behind their BARs, whose calls are
    shown to be the steps of \<open>Pf_System\<close>. \<open>Edu_Config\<close>: configuration space accessors and debug level.
    \<open>Pci_Ids\<close>: identities of the devices and the driver structure with its device table. \<open>Qom\<close>:
    class initialisers, \<open>TypeInfo\<close> tables and registration of the five device types, over the type
    table as the locale \<open>qom\<close>.
  \<^item> \<open>Edu_Nvme\<close>: \<open>qemu_devices/edu_nvme.c\<close>, commands, queues, registers. \<open>Nvme_Storage\<close>,
    \<open>Nvme_Queue\<close>, \<open>Nvme_Engine\<close>: the disk, the queues, and the properties of the controller.
    \<open>Nvme_Disk\<close>: an abstract disk controller and its refinement by a whole doorbell.
    \<open>Nvme_System\<close>: the controller as a transition system and what every reachable state can do.
  \<^item> \<open>Machine\<close>: the physical function, a virtual function and the NVMe controller as one machine over
    one memory (\<open>pc_write\<close>), the invariant of its reachable states, and a computation that uses two
    of the devices, under the locale \<open>two_masters\<close> (two bus masters that share memory).
  \<^item> \<open>Usb_Env\<close>: packets and the locale \<open>usb_core\<close>. \<open>Usb_Edu\<close> (\<open>dev-edu.c\<close>), \<open>Usb_Serial\<close>
    (\<open>dev-edu-serial.c\<close>): their handlers. \<open>Usb_Desc\<close>: the descriptor tables of both. \<open>Usb_System\<close>:
    sessions of a host with either device, against an abstract echo device and a register.
  \<^item> \<open>Linux_Driver\<close>: probe and removal of \<open>drivers/edu_pci.c\<close> over the kernel functions they call.
    \<open>Driver_Device\<close>: the driver on the device model.
  \<^item> \<open>Epoll_Demo\<close>: the set-up and the threads of \<open>examples/epoll_demo.c\<close> and
    \<open>examples/eventfd_demo.c\<close>, as step relations over system calls. \<open>Cpp_Demos\<close>: the buffers of
    \<open>examples/unique_ptr_demo.cpp\<close> over an explicit heap, with the ownership invariant of every
    program over them, and the friend examples.

  \<^bold>\<open>What the lemmas show.\<close> The block cipher is FIPS-197, the engine stores the CBC encryption of a
  guest buffer, decryption gives the buffer back, and the key cannot be read. A doorbell on the
  descriptor ring executes the longest prefix of executable descriptors in order and returns. The
  NVMe doorbell executes the commands between head and tail once each and posts one completion entry for
  each, at consecutive places and with the right phase; it returns when the tail lies inside the queue,
  and not when tail and head differ and the tail lies outside, unless a command faults. A virtual
  function does what the physical function would do. In the machine the invariants of all devices hold in every
  reachable state, and from each such state the NVMe controller and the crypto engine together replace
  blocks of the disk by their ciphertext. A doorbell implements an abstract disk on
  numbered blocks for every batch of commands. Every session of a well-behaved host with the serial
  device is one of the abstract echo device, and every session at all with the counter device is one
  of a register. The types reach QEMU in any order of registration. The event
  loop loses no signal and does not wait while one is pending, and buffers with a unique owner are freed exactly once. No
  history of register writes leaves an
  engine unusable or disturbs another register block. The
  driver gives back its resources on every error path. Faults are characterised exactly: a
  doorbell before the ring size is a division by zero; an NVMe block range whose end wraps round to the
  disk's range leaves the storage; USB packets of the size the descriptor declares overrun a buffer. Failed
  DMA reads are not noticed: what they leave in the buffer is written out or executed.

  \<^bold>\<open>Faults, bounds and termination.\<close> Undefined behaviour and signals (division by zero, access
  outside an object, failed assertion, signed overflow, failed allocation) are the left side of a sum, so nothing is proved about what
  happens after one. The loop over the descriptor ring carries the budget of the code, \<open>ring_size\<close>
  iterations, and is a total function with a measure; that the budget suffices for a full ring is
  part of the refinement. The loop over the NVMe submission queue has no budget in the code: it is
  \<open>partial_function (option)\<close>, \<open>None\<close> is a loop that does not end, and both its termination and
  its divergence are proved as such. AES loops run over fixed ranges.

  \<^bold>\<open>Assumptions.\<close> The host is little-endian. QEMU's memory core is not modelled: the handlers are
  called with accesses of a size their table permits (the regions of \<open>edu_pci.c\<close> fix \<open>impl\<close> to 4
  bytes), and of the result of a read of four bytes the low four are seen; handlers are not
  re-entered, so DMA does not change the device's own state. Instance memory starts as zeros. An
  uninitialised local array has contents the environment chooses (\<open>uninit\<close>). What the services of
  QEMU, the kernel functions and the system calls do is stated in the locales \<open>dma_bus\<close>,
  \<open>two_masters\<close>, \<open>pci_core_laws\<close>, \<open>qom\<close>, \<open>usb_core\<close>, \<open>pci_resources\<close>, \<open>event_kernel\<close>,
  \<open>demo_kernel\<close> and \<open>allocator\<close>, each interpreted on a concrete environment. What a failed DMA read
  leaves in the buffer is not assumed.

  \<^bold>\<open>Not modelled.\<close> The debug prints inside the MMIO handlers and the calls that only feed them
  (\<open>msix_get_message\<close>); the traces of the configuration accessors are modelled. Re-entrant accesses:
  a transfer whose target is a register of the same or of another device, which QEMU routes to a
  handler. The \<open>realize\<close> functions of the USB devices, whose only statement hands the device to the
  USB core. The memory core: how it finds the region of an access, and how it splits or widens an
  access whose size the region's table does not permit. The guest test programs and
  the scripts: the register programs the tests write are the programs the properties run.
\<close>

end
